(* ===== verification/Prelude.thy ===== *)
theory Prelude
  imports Complex_Main "HOL-Library.AList" "HOL-Library.Multiset"
begin

text \<open>
  Shared ground of the development: the lemma collections, the exceptions a TypeScript
  function can raise and their propagation (\<open>bindR\<close> for code that only reads the
  platform, \<open>bindA\<close> for code that also changes it), the loops that stop at the first
  exception, and the insertion-ordered \<^verbatim>\<open>Map\<close> of JavaScript with the interface its
  clients rely on.
\<close>

named_theorems result_simps \<open>unfolding of exception propagation\<close>
named_theorems processor_defs \<open>operations of the batch processors\<close>
named_theorems conserve_simps \<open>conservation laws of quantities and costs\<close>

section \<open>Exceptions\<close>

text \<open>
  \<open>TypeError\<close> is the exception of a property access on \<^verbatim>\<open>null\<close> or
  \<^verbatim>\<open>undefined\<close>; \<open>Thrown\<close> is a string thrown by the program itself; \<open>LibraryError\<close>
  is an exception raised inside a library call (an amount that cannot be parsed, a
  division by zero).
\<close>

datatype js_error = TypeError | Thrown string | LibraryError

type_synonym 'a result = "js_error + 'a"

definition bindR :: "'a result \<Rightarrow> ('a \<Rightarrow> 'b result) \<Rightarrow> 'b result" where
  "bindR r k = (case r of Inl e \<Rightarrow> Inl e | Inr x \<Rightarrow> k x)"

definition require :: "js_error \<Rightarrow> 'a option \<Rightarrow> 'a result" where
  "require e x = (case x of None \<Rightarrow> Inl e | Some v \<Rightarrow> Inr v)"

lemma bindR_simps [simp, result_simps]:
  "bindR (Inl e) k = Inl e"
  "bindR (Inr x) k = k x"
  by (simp_all add: bindR_def)

lemma require_simps [simp, result_simps]:
  "require e None = Inl e"
  "require e (Some v) = Inr v"
  by (simp_all add: require_def)

lemma require_eq_Inr [simp]: "require e x = Inr v \<longleftrightarrow> x = Some v"
  by (auto simp: require_def split: option.splits)

lemma bindR_eq_Inr: "bindR r k = Inr y \<longleftrightarrow> (\<exists>x. r = Inr x \<and> k x = Inr y)"
  by (cases r) auto

lemma bindR_eq_Inl: "bindR r k = Inl e \<longleftrightarrow> r = Inl e \<or> (\<exists>x. r = Inr x \<and> k x = Inl e)"
  by (cases r) auto

lemma bindR_InrE [elim!]:
  assumes "bindR r k = Inr y"
  obtains x where "r = Inr x" and "k x = Inr y"
  using assms by (auto simp: bindR_eq_Inr)

text \<open>A \<^verbatim>\<open>for\<close> loop over a list whose body may raise: it stops at the first exception.\<close>

fun forR :: "('x \<Rightarrow> 's \<Rightarrow> 's result) \<Rightarrow> 'x list \<Rightarrow> 's \<Rightarrow> 's result" where
  "forR f [] s = Inr s"
| "forR f (x # xs) s = bindR (f x s) (forR f xs)"

text \<open>A loop invariant holds of the final state when every body that returns keeps it.\<close>

lemma forR_invariant:
  assumes "forR f xs s = Inr s'" and "I s"
    and "\<And>x s s'. x \<in> set xs \<Longrightarrow> I s \<Longrightarrow> f x s = Inr s' \<Longrightarrow> I s'"
  shows "I s'"
  using assms
proof (induction xs arbitrary: s)
  case Nil
  then show ?case by simp
next
  case (Cons x xs)
  from Cons.prems(1) obtain t where "f x s = Inr t" and rest: "forR f xs t = Inr s'"
    by auto
  with Cons.prems(2,3) have "I t" by (meson list.set_intros(1))
  with rest Cons.prems(3) show ?case by (intro Cons.IH [of t]) auto
qed

section \<open>Actions on the platform\<close>

text \<open>
  An action takes the state of the platform and returns a result (or the exception that
  ended it) with the state it left behind: what was written before an exception stays
  written.
\<close>

type_synonym ('w, 'a) action = "'w \<Rightarrow> 'a result \<times> 'w"

definition returnA :: "'a \<Rightarrow> ('w, 'a) action" where
  "returnA x w = (Inr x, w)"

definition throwA :: "js_error \<Rightarrow> ('w, 'a) action" where
  "throwA e w = (Inl e, w)"

definition liftR :: "'a result \<Rightarrow> ('w, 'a) action" where
  "liftR r w = (r, w)"

definition execA :: "('w \<Rightarrow> 'w) \<Rightarrow> ('w, unit) action" where
  "execA f w = (Inr (), f w)"

definition readA :: "('w \<Rightarrow> 'a result) \<Rightarrow> ('w, 'a) action" where
  "readA f w = (f w, w)"

definition bindA :: "('w, 'a) action \<Rightarrow> ('a \<Rightarrow> ('w, 'b) action) \<Rightarrow> ('w, 'b) action" where
  "bindA m k w = (case m w of (Inl e, w') \<Rightarrow> (Inl e, w') | (Inr x, w') \<Rightarrow> k x w')"

lemma action_simps [simp, result_simps]:
  "returnA x w = (Inr x, w)"
  "throwA e w = (Inl e, w)"
  "liftR r w = (r, w)"
  "execA f w = (Inr (), f w)"
  "readA g w = (g w, w)"
  by (simp_all add: returnA_def throwA_def liftR_def execA_def readA_def)

lemma bindA_Inl [simp]: "m w = (Inl e, w') \<Longrightarrow> bindA m k w = (Inl e, w')"
  by (simp add: bindA_def)

lemma bindA_Inr [simp]: "m w = (Inr x, w') \<Longrightarrow> bindA m k w = k x w'"
  by (simp add: bindA_def)

lemma bindA_eq_Inr:
  "bindA m k w = (Inr y, w'') \<longleftrightarrow> (\<exists>x w'. m w = (Inr x, w') \<and> k x w' = (Inr y, w''))"
  by (auto simp: bindA_def split: prod.splits sum.splits)

fun forA :: "('x \<Rightarrow> 's \<Rightarrow> ('w, 's) action) \<Rightarrow> 'x list \<Rightarrow> 's \<Rightarrow> ('w, 's) action" where
  "forA f [] s w = (Inr s, w)"
| "forA f (x # xs) s w = bindA (f x s) (forA f xs) w"

section \<open>The insertion-ordered Map of JavaScript\<close>

text \<open>
  \<^verbatim>\<open>Map.set\<close> overwrites the value of a known key in place and appends an unknown key;
  \<^verbatim>\<open>values()\<close> and \<^verbatim>\<open>entries()\<close> follow the order of insertion. That is an
  association list under \<^const>\<open>AList.update\<close>.
\<close>

type_synonym ('k, 'v) js_map = "('k \<times> 'v) list"

definition map_empty :: "('k, 'v) js_map" where
  "map_empty = []"

definition map_set :: "'k \<Rightarrow> 'v \<Rightarrow> ('k, 'v) js_map \<Rightarrow> ('k, 'v) js_map" where
  "map_set k v m = AList.update k v m"

definition map_get :: "('k, 'v) js_map \<Rightarrow> 'k \<Rightarrow> 'v option" where
  "map_get m k = map_of m k"

definition map_values :: "('k, 'v) js_map \<Rightarrow> 'v list" where
  "map_values m = map snd m"

definition map_inv :: "('k, 'v) js_map \<Rightarrow> bool" where
  "map_inv m = distinct (map fst m)"

text \<open>What the users of a Map rely on.\<close>

locale ordered_map =
  fixes mempty :: "'m"
    and mset_key :: "'k \<Rightarrow> 'v \<Rightarrow> 'm \<Rightarrow> 'm"
    and mget :: "'m \<Rightarrow> 'k \<Rightarrow> 'v option"
    and mvalues :: "'m \<Rightarrow> 'v list"
    and minv :: "'m \<Rightarrow> bool"
  assumes inv_empty: "minv mempty"
    and inv_set: "minv m \<Longrightarrow> minv (mset_key k v m)"
    and get_empty: "mget mempty k = None"
    and get_set: "minv m \<Longrightarrow> mget (mset_key k v m) j = (if j = k then Some v else mget m j)"
    and values_empty: "mvalues mempty = []"
    and values_fresh: "minv m \<Longrightarrow> mget m k = None \<Longrightarrow> mvalues (mset_key k v m) = mvalues m @ [v]"
    and values_get: "minv m \<Longrightarrow> v \<in> set (mvalues m) \<longleftrightarrow> (\<exists>k. mget m k = Some v)"
begin

definition set_all :: "('k \<times> 'v) list \<Rightarrow> 'm \<Rightarrow> 'm" where
  "set_all kvs m = fold (\<lambda>(k, v). mset_key k v) kvs m"

lemma inv_set_all: "minv m \<Longrightarrow> minv (set_all kvs m)"
  by (induction kvs arbitrary: m) (auto simp: set_all_def inv_set)

lemma get_set_all:
  "minv m \<Longrightarrow> mget (set_all kvs m) k = (case map_of (rev kvs) k of None \<Rightarrow> mget m k | Some v \<Rightarrow> Some v)"
proof (induction kvs arbitrary: m)
  case Nil
  then show ?case by (simp add: set_all_def)
next
  case (Cons kv kvs)
  obtain a b where kv: "kv = (a, b)" by force
  from Cons.IH [of "mset_key a b m"] Cons.prems show ?case
    by (auto simp: kv set_all_def inv_set get_set map_add_def split: option.splits)
qed

text \<open>Storing values under pairwise different fresh keys loses none and keeps their order.\<close>

lemma values_set_all:
  assumes "minv m" and "distinct (map fst kvs)" and "\<forall>k \<in> fst ` set kvs. mget m k = None"
  shows "mvalues (set_all kvs m) = mvalues m @ map snd kvs"
  using assms
proof (induction kvs arbitrary: m)
  case Nil
  then show ?case by (simp add: set_all_def)
next
  case (Cons kv kvs)
  obtain a b where kv: "kv = (a, b)" by force
  have fresh: "\<forall>k \<in> fst ` set kvs. mget (mset_key a b m) k = None"
    using Cons.prems by (force simp: kv get_set)
  from Cons.prems fresh have "mvalues (set_all kvs (mset_key a b m)) = mvalues (mset_key a b m) @ map snd kvs"
    by (intro Cons.IH) (auto simp: kv inv_set)
  with Cons.prems show ?case by (simp add: kv set_all_def values_fresh)
qed

end

lemma map_values_update_fresh: "map_of m k = None \<Longrightarrow> map snd (AList.update k v m) = map snd m @ [v]"
  by (induction m) (auto split: if_splits)

interpretation js: ordered_map map_empty map_set map_get map_values map_inv
proof unfold_locales
  show "map_inv (map_empty :: ('k, 'v) js_map)"
    by (simp add: map_inv_def map_empty_def)
  show "map_inv (map_set k v m)" if "map_inv m" for k :: 'k and v :: 'v and m
    using that by (simp add: map_inv_def map_set_def distinct_update)
  show "map_get (map_empty :: ('k, 'v) js_map) k = None" for k
    by (simp add: map_get_def map_empty_def)
  show "map_get (map_set k v m) j = (if j = k then Some v else map_get m j)"
    for k j :: 'k and v :: 'v and m
    by (simp add: map_get_def map_set_def update_conv)
  show "map_values (map_empty :: ('k, 'v) js_map) = []"
    by (simp add: map_values_def map_empty_def)
  show "map_values (map_set k v m) = map_values m @ [v]"
    if "map_get m k = None" for k :: 'k and v :: 'v and m
    using that by (simp add: map_values_def map_set_def map_get_def map_values_update_fresh)
  show "v \<in> set (map_values m) \<longleftrightarrow> (\<exists>k. map_get m k = Some v)"
    if "map_inv m" for v :: 'v and m :: "('k, 'v) js_map"
    using that by (force simp: map_values_def map_get_def map_inv_def dest: map_of_SomeD)
qed

section \<open>Sums over lists of references\<close>

text \<open>
  The programs update shared objects through references; the lemmas below say how a sum
  over the objects a list of references denotes changes when one object is replaced.
\<close>

lemma map_if_notin [simp]:
  "r \<notin> set rs \<Longrightarrow> map (\<lambda>i. f (if i = r then x else h i)) rs = map (\<lambda>i. f (h i)) rs"
  by (rule map_cong) auto

lemma sum_list_fun_upd_notin:
  "r \<notin> set rs \<Longrightarrow> (\<Sum>i\<leftarrow>rs. f ((h(r := x)) i)) = (\<Sum>i\<leftarrow>rs. f (h i))"
  by simp

lemma sum_list_fun_upd:
  fixes f :: "'a \<Rightarrow> 'b::ab_group_add"
  assumes "distinct rs" and "r \<in> set rs"
  shows "(\<Sum>i\<leftarrow>rs. f ((h(r := x)) i)) = (\<Sum>i\<leftarrow>rs. f (h i)) - f (h r) + f x"
  using assms by (induction rs) (auto simp: algebra_simps)

lemma find_append:
  "List.find P (xs @ ys) = (case List.find P xs of None \<Rightarrow> List.find P ys | Some x \<Rightarrow> Some x)"
  by (induction xs) auto

end
