(* ===== verification/JavaScript.thy ===== *)
theory JavaScript
  imports Prelude "HOL-Library.Sublist"
begin

text \<open>
  The part of the JavaScript language and standard library the program uses: the number
  type (IEEE binary64, with rounding to nearest even), conversions between strings and
  numbers, string methods (\<^verbatim>\<open>trim\<close>, \<^verbatim>\<open>includes\<close>, \<^verbatim>\<open>replaceAll\<close>, \<^verbatim>\<open>split\<close>),
  \<^verbatim>\<open>JSON.stringify\<close> of strings and \<^verbatim>\<open>Array.prototype.sort\<close>. The two zeros are
  identified: no comparison or printed value of the program tells them apart.
\<close>

section \<open>Numbers\<close>

datatype jsnum = NaN | PosInf | NegInf | Num rat

text \<open>The number of binary digits of a positive integer.\<close>

function bit_count :: "int \<Rightarrow> int" where
  "bit_count n = (if n \<le> 0 then 0 else 1 + bit_count (n div 2))"
  by pat_completeness auto
termination
  by (relation "measure nat") auto

declare bit_count.simps [simp del]

text \<open>Floor of the binary logarithm of a positive rational.\<close>

definition flog2 :: "rat \<Rightarrow> int" where
  "flog2 q = (case quotient_of q of (n, d) \<Rightarrow>
     let k = bit_count n - bit_count d in if 2 powi k \<le> q then k else k - 1)"

definition round_half_even :: "rat \<Rightarrow> int" where
  "round_half_even q =
     (let f = \<lfloor>q\<rfloor>; r = q - of_int f in
      if r < 1 / 2 then f else if r > 1 / 2 then f + 1 else if even f then f else f + 1)"

text \<open>Rounding of an exact value to the nearest double.\<close>

definition double_limit :: rat where
  "double_limit = 2 ^ 1024"

definition rnd64 :: "rat \<Rightarrow> jsnum" where
  "rnd64 q =
     (if q = 0 then Num 0
      else let k = max (flog2 \<bar>q\<bar> - 52) (- 1074);
               r = of_int (round_half_even (q / 2 powi k)) * 2 powi k
           in if r \<ge> double_limit then PosInf else if r \<le> - double_limit then NegInf else Num r)"

fun js_add :: "jsnum \<Rightarrow> jsnum \<Rightarrow> jsnum" where
  "js_add (Num a) (Num b) = rnd64 (a + b)"
| "js_add NaN _ = NaN"
| "js_add _ NaN = NaN"
| "js_add PosInf NegInf = NaN"
| "js_add NegInf PosInf = NaN"
| "js_add PosInf _ = PosInf"
| "js_add _ PosInf = PosInf"
| "js_add NegInf _ = NegInf"
| "js_add _ NegInf = NegInf"

fun js_neg :: "jsnum \<Rightarrow> jsnum" where
  "js_neg NaN = NaN"
| "js_neg PosInf = NegInf"
| "js_neg NegInf = PosInf"
| "js_neg (Num a) = Num (- a)"

definition js_sub :: "jsnum \<Rightarrow> jsnum \<Rightarrow> jsnum" where
  "js_sub a b = js_add a (js_neg b)"

text \<open>The relational operator \<^verbatim>\<open><\<close>: every comparison with NaN is false.\<close>

fun js_less :: "jsnum \<Rightarrow> jsnum \<Rightarrow> bool" where
  "js_less (Num a) (Num b) = (a < b)"
| "js_less NaN _ = False"
| "js_less _ NaN = False"
| "js_less NegInf NegInf = False"
| "js_less NegInf _ = True"
| "js_less _ PosInf = True"
| "js_less _ _ = False"

definition js_eq :: "jsnum \<Rightarrow> jsnum \<Rightarrow> bool" where
  "js_eq a b = (a \<noteq> NaN \<and> a = b)"

definition js_le :: "jsnum \<Rightarrow> jsnum \<Rightarrow> bool" where
  "js_le a b = (js_less a b \<or> js_eq a b)"

subsection \<open>Integers up to \<open>2^53\<close> are exact\<close>

lemma round_half_even_of_int [simp]: "round_half_even (of_int n) = n"
  by (simp add: round_half_even_def)

lemma bit_count_le: "n < 2 ^ k \<Longrightarrow> bit_count n \<le> int k"
proof (induction k arbitrary: n)
  case 0
  then show ?case by (simp add: bit_count.simps [of n])
next
  case (Suc k)
  then have "bit_count (n div 2) \<le> int k" by (intro Suc.IH) simp
  then show ?case by (simp add: bit_count.simps [of n])
qed

lemma bit_count_1: "bit_count 1 = 1"
  by (simp add: bit_count.simps [of 1] bit_count.simps [of 0])

lemma flog2_small_int:
  assumes "n \<noteq> 0" and "\<bar>n\<bar> < 2 ^ 53"
  shows "flog2 \<bar>of_int n\<bar> \<le> 52"
proof -
  let ?m = "\<bar>n\<bar>"
  have "quotient_of (of_int ?m) = (?m, 1)"
    by (simp only: of_int_rat quotient_of_Fract) (simp add: Rat.normalize_def)
  moreover have "bit_count ?m \<le> 53"
    using bit_count_le [OF assms(2)] by simp
  ultimately have "flog2 (of_int ?m) \<le> 52"
    by (simp add: flog2_def Let_def bit_count_1)
  then show ?thesis by simp
qed

lemma rat_of_int_below:
  assumes "\<bar>n\<bar> < 2 ^ 53"
  shows "\<bar>of_int n :: rat\<bar> < double_limit"
proof -
  have "(of_int \<bar>n\<bar> :: rat) < of_int (2 ^ 53)" using assms by (simp only: of_int_less_iff)
  also have "\<dots> = 2 ^ 53" by (simp only: of_int_power of_int_numeral)
  also have "\<dots> \<le> double_limit" unfolding double_limit_def by (rule power_increasing) simp_all
  finally show ?thesis by (simp only: of_int_abs)
qed

lemma rnd64_int:
  assumes "\<bar>n\<bar> < 2 ^ 53"
  shows "rnd64 (of_int n) = Num (of_int n)"
proof (cases "n = 0")
  case True
  then show ?thesis by (simp add: rnd64_def)
next
  case False
  define k where "k = max (flog2 \<bar>of_int n\<bar> - 52) (- 1074)"
  have k: "k \<le> 0" using flog2_small_int [OF False assms] by (simp add: k_def)
  have "(of_int n :: rat) / 2 powi k = of_int (n * 2 ^ nat (- k))"
    using k by (simp add: power_int_def field_simps)
  then have "round_half_even (of_int n / 2 powi k) = n * 2 ^ nat (- k)"
    by (simp only: round_half_even_of_int)
  moreover have "of_int (n * 2 ^ nat (- k)) * (2::rat) powi k = of_int n"
    using k by (simp add: power_int_def field_simps)
  moreover have "of_int n < double_limit" and "- double_limit < of_int n"
    using rat_of_int_below [OF assms] by (simp_all add: abs_less_iff)
  ultimately show ?thesis
    using False unfolding rnd64_def Let_def k_def [symmetric] by (simp only:) simp
qed

lemma js_add_int:
  assumes "\<bar>a + b\<bar> < 2 ^ 53"
  shows "js_add (Num (of_int a)) (Num (of_int b)) = Num (of_int (a + b))"
  using rnd64_int [OF assms] by simp


lemma rnd64_numeral: "(numeral n :: int) < 2 ^ 53 \<Longrightarrow> rnd64 (numeral n) = Num (numeral n)"
  using rnd64_int [of "numeral n"] by simp

section \<open>Strings\<close>

definition code_unit :: "char \<Rightarrow> nat" where
  "code_unit c = of_char c"

definition is_space :: "char \<Rightarrow> bool" where
  "is_space c = (code_unit c \<in> {9, 10, 11, 12, 13, 32})"

definition trim :: "string \<Rightarrow> string" where
  "trim s = rev (dropWhile is_space (rev (dropWhile is_space s)))"

lemma trim_nonblank: "\<exists>c \<in> set s. \<not> is_space c \<Longrightarrow> trim s \<noteq> []"
  unfolding trim_def by (induction s) (auto simp: dropWhile_append)

text \<open>\<^verbatim>\<open>includes\<close>: \<open>s\<close> has \<open>t\<close> as a contiguous part.\<close>

fun str_includes :: "string \<Rightarrow> string \<Rightarrow> bool" where
  "str_includes [] t = (t = [])"
| "str_includes (c # s) t = (prefix t (c # s) \<or> str_includes s t)"

definition replaceAll_dash :: "string \<Rightarrow> string" where
  "replaceAll_dash s = filter (\<lambda>c. c \<noteq> CHR ''-'') s"

text \<open>\<^verbatim>\<open>split\<close> at a non-empty separator.\<close>

function split_at :: "string \<Rightarrow> string \<Rightarrow> string \<Rightarrow> string list" where
  "split_at sep acc [] = [acc]"
| "split_at sep acc (c # s) =
     (if sep \<noteq> [] \<and> prefix sep (c # s) then acc # split_at sep [] (drop (length sep) (c # s))
      else split_at sep (acc @ [c]) s)"
  by pat_completeness auto
termination
  by (relation "measure (\<lambda>(sep, acc, s). length s)") auto

definition js_split :: "string \<Rightarrow> string \<Rightarrow> string list" where
  "js_split s sep = split_at sep [] s"

subsection \<open>Digits\<close>

definition is_digit :: "char \<Rightarrow> bool" where
  "is_digit c = (48 \<le> code_unit c \<and> code_unit c \<le> 57)"

definition digit_char :: "nat \<Rightarrow> char" where
  "digit_char d = char_of (48 + d)"

fun show_nat :: "nat \<Rightarrow> string" where
  "show_nat n = (if n < 10 then [digit_char n] else show_nat (n div 10) @ [digit_char (n mod 10)])"

declare show_nat.simps [simp del]

definition digits_value :: "string \<Rightarrow> nat" where
  "digits_value s = foldl (\<lambda>n c. n * 10 + (code_unit c - 48)) 0 s"

lemma code_unit_digit_char: "d < 10 \<Longrightarrow> code_unit (digit_char d) = 48 + d"
  by (simp add: code_unit_def digit_char_def)

lemma show_nat_is_digit: "c \<in> set (show_nat n) \<Longrightarrow> is_digit c"
proof (induction n rule: show_nat.induct)
  case (1 n)
  show ?case
  proof (cases "n < 10")
    case True
    with "1.prems" show ?thesis
      by (simp add: show_nat.simps [of n] is_digit_def code_unit_digit_char)
  next
    case False
    with "1.prems" consider "c \<in> set (show_nat (n div 10))" | "c = digit_char (n mod 10)"
      by (auto simp: show_nat.simps [of n])
    then show ?thesis
      using "1.IH" [OF False] by cases (auto simp: is_digit_def code_unit_digit_char)
  qed
qed

lemma show_nat_nonempty [simp]: "show_nat n \<noteq> []"
  by (subst show_nat.simps) simp

lemma digits_value_show_nat [simp]: "digits_value (show_nat n) = n"
proof (induction n rule: show_nat.induct)
  case (1 n)
  then show ?case
    by (cases "n < 10")
      (simp_all add: show_nat.simps [of n] digits_value_def code_unit_digit_char)
qed

subsection \<open>From strings to numbers\<close>

text \<open>The exponent part of a decimal literal: absent, or a letter e, a sign and digits.\<close>

definition parse_exponent :: "string \<Rightarrow> int option" where
  "parse_exponent s =
     (case s of [] \<Rightarrow> Some 0
      | c # r \<Rightarrow> if c = CHR ''e'' \<or> c = CHR ''E'' then
           (let (neg, u) = (case r of d # r' \<Rightarrow> if d = CHR ''-'' then (True, r')
                              else if d = CHR ''+'' then (False, r') else (False, r) | [] \<Rightarrow> (False, r))
            in if u \<noteq> [] \<and> list_all is_digit u
               then Some (if neg then - int (digits_value u) else int (digits_value u)) else None)
         else None)"

definition decimal_to_number :: "string \<Rightarrow> jsnum" where
  "decimal_to_number s =
     (if s = ''Infinity'' then PosInf
      else let ds = takeWhile is_digit s; r = dropWhile is_digit s;
               (fs, r') = (case r of c # u \<Rightarrow> if c = CHR ''.'' then (takeWhile is_digit u, dropWhile is_digit u)
                             else ([], r) | [] \<Rightarrow> ([], r))
           in if ds = [] \<and> fs = [] then NaN
              else case parse_exponent r' of None \<Rightarrow> NaN
                   | Some e \<Rightarrow> rnd64 (of_nat (digits_value (ds @ fs)) * 10 powi (e - int (length fs))))"

text \<open>Digits of the non-decimal literals, for example \<^verbatim>\<open>0x1f\<close>.\<close>

definition radix_digit :: "char \<Rightarrow> nat" where
  "radix_digit c =
     (let n = code_unit c in
      if is_digit c then n - 48
      else if 97 \<le> n \<and> n \<le> 102 then n - 87
      else if 65 \<le> n \<and> n \<le> 70 then n - 55 else 16)"

definition radix_to_number :: "nat \<Rightarrow> string \<Rightarrow> jsnum" where
  "radix_to_number b s =
     (if s \<noteq> [] \<and> list_all (\<lambda>c. radix_digit c < b) s
      then rnd64 (of_nat (foldl (\<lambda>n c. n * b + radix_digit c) 0 s)) else NaN)"

text \<open>\<^verbatim>\<open>parseInt\<close> of the longest prefix of digits, hexadecimal after \<^verbatim>\<open>0x\<close>; \<open>None\<close> is NaN.\<close>

definition parseInt :: "string \<Rightarrow> int option" where
  "parseInt s =
     (let t = dropWhile is_space s;
          (neg, u) = (case t of c # r \<Rightarrow> if c = CHR ''-'' then (True, r)
                        else if c = CHR ''+'' then (False, r) else (False, t) | [] \<Rightarrow> (False, t));
          (b, v) = (if prefix ''0x'' u \<or> prefix ''0X'' u then (16, drop 2 u) else (10, u));
          ds = takeWhile (\<lambda>c. radix_digit c < b) v;
          n = int (foldl (\<lambda>n c. n * b + radix_digit c) 0 ds)
      in if ds = [] then None else Some (if neg then - n else n))"

text \<open>The unary plus on a string.\<close>

definition string_to_number :: "string \<Rightarrow> jsnum" where
  "string_to_number s =
     (let t = trim s in
      case t of [] \<Rightarrow> Num 0
      | c # r \<Rightarrow>
          if c = CHR ''-'' then js_neg (decimal_to_number r)
          else if c = CHR ''+'' then decimal_to_number r
          else if prefix ''0x'' t \<or> prefix ''0X'' t then radix_to_number 16 (drop 2 t)
          else if prefix ''0o'' t \<or> prefix ''0O'' t then radix_to_number 8 (drop 2 t)
          else if prefix ''0b'' t \<or> prefix ''0B'' t then radix_to_number 2 (drop 2 t)
          else decimal_to_number t)"

lemma dropWhile_is_space_digits: "list_all is_digit s \<Longrightarrow> dropWhile is_space s = s"
  by (cases s) (auto simp: is_digit_def is_space_def)

lemma trim_digits: "list_all is_digit s \<Longrightarrow> trim s = s"
  by (simp add: trim_def dropWhile_is_space_digits list_all_iff)

lemma takeWhile_digits: "list_all is_digit s \<Longrightarrow> takeWhile is_digit s = s"
  by (induction s) auto

lemma dropWhile_digits: "list_all is_digit s \<Longrightarrow> dropWhile is_digit s = []"
  by (induction s) auto

lemma nondigit_chars:
  "\<not> is_digit CHR ''-''" "\<not> is_digit CHR ''+''" "\<not> is_digit CHR ''x''" "\<not> is_digit CHR ''X''"
  "\<not> is_digit CHR ''o''" "\<not> is_digit CHR ''O''" "\<not> is_digit CHR ''b''" "\<not> is_digit CHR ''B''"
  "\<not> is_digit CHR ''I''"
  by (simp_all add: is_digit_def code_unit_def)

lemma decimal_to_number_digits:
  assumes "list_all is_digit s" and "s \<noteq> []" and "digits_value s < 2 ^ 53"
  shows "decimal_to_number s = Num (of_nat (digits_value s))"
proof -
  have "s \<noteq> ''Infinity''" using assms(1) nondigit_chars by auto
  moreover have "rnd64 (of_nat (digits_value s)) = Num (of_nat (digits_value s))"
    using rnd64_int [of "int (digits_value s)"] assms(3) by simp
  ultimately show ?thesis
    using assms(1,2)
    by (simp add: decimal_to_number_def takeWhile_digits dropWhile_digits parse_exponent_def)
qed

text \<open>A string of decimal digits below \<open>2^53\<close> is read as the number it denotes.\<close>

lemma string_to_number_digits:
  assumes "list_all is_digit s" and "s \<noteq> []" and "digits_value s < 2 ^ 53"
  shows "string_to_number s = Num (of_nat (digits_value s))"
proof -
  obtain c r where s: "s = c # r" using assms(2) by (cases s) auto
  have "c \<noteq> CHR ''-''" and "c \<noteq> CHR ''+''"
    using assms(1) nondigit_chars by (auto simp: s)
  moreover have "\<not> prefix [CHR ''0'', x] s" if "\<not> is_digit x" for x
    using assms(1) that by (cases r) (auto simp: s)
  ultimately show ?thesis
    using decimal_to_number_digits [OF assms] nondigit_chars assms(1)
    by (auto simp: string_to_number_def trim_digits s Let_def)
qed

subsection \<open>From numbers to strings\<close>

text \<open>
  \<^verbatim>\<open>Number.prototype.toString\<close>: the shortest run of \<open>k\<close> significant digits that reads
  back as the same double, the decimal point \<open>n\<close> places from its start.
\<close>

definition decimal_exponent :: "rat \<Rightarrow> int" where
  "decimal_exponent q =
     (if 1 \<le> q then int (length (show_nat (nat \<lfloor>q\<rfloor>)))
      else 1 - int (length (show_nat (nat (\<lceil>1 / q\<rceil> - 1)))))"

definition digits_at :: "rat \<Rightarrow> nat \<Rightarrow> int \<times> nat" where
  "digits_at q k =
     (let n = decimal_exponent q; s = nat (round_half_even (q * 10 powi (int k - n)))
      in if s = 10 ^ k then (n + 1, 10 ^ (k - 1)) else (n, s))"

definition reads_back :: "rat \<Rightarrow> nat \<Rightarrow> bool" where
  "reads_back q k =
     (case digits_at q k of (n, s) \<Rightarrow> rnd64 (of_nat s * 10 powi (n - int k)) = Num q)"

definition positive_to_string :: "rat \<Rightarrow> string" where
  "positive_to_string q =
     (let k = (case List.find (reads_back q) [1..<17] of Some j \<Rightarrow> j | None \<Rightarrow> 17);
          (n, s) = digits_at q k; ds = show_nat s; e = n - 1
      in if int k \<le> n \<and> n \<le> 21 then ds @ replicate (nat n - k) CHR ''0''
         else if 0 < n \<and> n \<le> 21 then take (nat n) ds @ ''.'' @ drop (nat n) ds
         else if - 6 < n \<and> n \<le> 0 then ''0.'' @ replicate (nat (- n)) CHR ''0'' @ ds
         else take 1 ds @ (if k = 1 then [] else ''.'' @ drop 1 ds)
              @ ''e'' @ (if e < 0 then ''-'' else ''+'') @ show_nat (nat \<bar>e\<bar>))"

fun number_to_string :: "jsnum \<Rightarrow> string" where
  "number_to_string NaN = ''NaN''"
| "number_to_string PosInf = ''Infinity''"
| "number_to_string NegInf = ''-Infinity''"
| "number_to_string (Num q) =
     (if q = 0 then ''0'' else if q < 0 then ''-'' @ positive_to_string (- q) else positive_to_string q)"

subsection \<open>JSON\<close>

definition hex_char :: "nat \<Rightarrow> char" where
  "hex_char d = (if d < 10 then char_of (48 + d) else char_of (87 + d))"

text \<open>Escaping of one character inside a JSON string.\<close>

definition json_char :: "char \<Rightarrow> string" where
  "json_char c =
     (let n = code_unit c; bs = char_of (92::nat) in
      if n = 34 then [bs, c] else if n = 92 then [bs, c]
      else if n = 8 then [bs, CHR ''b''] else if n = 12 then [bs, CHR ''f'']
      else if n = 10 then [bs, CHR ''n''] else if n = 13 then [bs, CHR ''r'']
      else if n = 9 then [bs, CHR ''t'']
      else if n < 32 then [bs] @ ''u00'' @ [hex_char (n div 16), hex_char (n mod 16)]
      else [c])"

definition json_string :: "string \<Rightarrow> string" where
  "json_string s = [char_of (34::nat)] @ concat (map json_char s) @ [char_of (34::nat)]"

text \<open>\<^verbatim>\<open>JSON.stringify\<close> of a number: the non-finite ones become \<^verbatim>\<open>null\<close>.\<close>

definition json_number :: "jsnum \<Rightarrow> string" where
  "json_number x = (case x of Num q \<Rightarrow> number_to_string (Num q) | _ \<Rightarrow> ''null'')"

fun join_with :: "string \<Rightarrow> string list \<Rightarrow> string" where
  "join_with sep [] = []"
| "join_with sep [s] = s"
| "join_with sep (s # t # ss) = s @ sep @ join_with sep (t # ss)"

definition json_object :: "(string \<times> string) list \<Rightarrow> string" where
  "json_object fs = ''{'' @ join_with '','' (map (\<lambda>(k, v). json_string k @ '':'' @ v) fs) @ ''}''"

definition json_array :: "string list \<Rightarrow> string" where
  "json_array vs = ''['' @ join_with '','' vs @ '']''"

section \<open>Sorting\<close>

text \<open>
  \<^verbatim>\<open>Array.prototype.sort\<close> with a comparison function is stable. When the comparison
  function is consistent the result is determined by that, so any stable sort models it;
  for an inconsistent one the language leaves the order open, and insertion is one of the
  allowed outcomes.
\<close>

fun insert_by :: "('a \<Rightarrow> 'a \<Rightarrow> jsnum) \<Rightarrow> 'a \<Rightarrow> 'a list \<Rightarrow> 'a list" where
  "insert_by cmp x [] = [x]"
| "insert_by cmp x (y # ys) =
     (if js_less (cmp x y) (Num 0) then x # y # ys else y # insert_by cmp x ys)"

definition sort_js :: "('a \<Rightarrow> 'a \<Rightarrow> jsnum) \<Rightarrow> 'a list \<Rightarrow> 'a list" where
  "sort_js cmp xs = fold (insert_by cmp) xs []"

lemma mset_insert_by [simp]: "mset (insert_by cmp x ys) = add_mset x (mset ys)"
  by (induction ys) auto

lemma set_insert_by [simp]: "set (insert_by cmp x ys) = insert x (set ys)"
  by (induction ys) auto

lemma mset_fold_insert_by: "mset (fold (insert_by cmp) xs ys) = mset xs + mset ys"
  by (induction xs arbitrary: ys) auto

lemma mset_sort_js [simp]: "mset (sort_js cmp xs) = mset xs"
  by (simp add: sort_js_def mset_fold_insert_by)

lemma set_sort_js [simp]: "set (sort_js cmp xs) = set xs"
  by (rule mset_eq_setD) simp

lemma length_sort_js [simp]: "length (sort_js cmp xs) = length xs"
  by (rule mset_eq_length) simp

lemma distinct_sort_js [simp]: "distinct (sort_js cmp xs) = distinct xs"
  by (rule mset_eq_imp_distinct_iff) simp

text \<open>
  A comparison function that decides by a key of a linear order on a set of values, and
  the correctness of sorting with it: the library's stable \<^const>\<open>sort_key\<close>.
\<close>

locale keyed_comparison =
  fixes cmp :: "'a \<Rightarrow> 'a \<Rightarrow> jsnum"
    and key :: "'a \<Rightarrow> 'k::linorder"
    and ok :: "'a \<Rightarrow> bool"
  assumes cmp_key: "ok x \<Longrightarrow> ok y \<Longrightarrow> js_less (cmp x y) (Num 0) \<longleftrightarrow> key x < key y"
begin

lemma sorted_insert_by:
  assumes "ok x" and "\<forall>y \<in> set ys. ok y" and "sorted (map key ys)"
  shows "sorted (map key (insert_by cmp x ys))"
  using assms by (induction ys) (auto simp: cmp_key)

lemma filter_insert_by:
  assumes "ok x" and "\<forall>y \<in> set ys. ok y" and "sorted (map key ys)"
  shows "filter (\<lambda>z. k = key z) (insert_by cmp x ys) =
         filter (\<lambda>z. k = key z) ys @ (if k = key x then [x] else [])"
  using assms
proof (induction ys)
  case Nil
  then show ?case by simp
next
  case (Cons y ys)
  show ?case
  proof (cases "key x < key y")
    case True
    with Cons.prems have "filter (\<lambda>z. key x = key z) (y # ys) = []"
      by (force simp: filter_empty_conv)
    with True Cons.prems show ?thesis by (auto simp: cmp_key)
  next
    case False
    with Cons show ?thesis by (auto simp: cmp_key)
  qed
qed

lemma fold_insert_by:
  assumes "\<forall>y \<in> set xs \<union> set ys. ok y" and "sorted (map key ys)"
  shows "sorted (map key (fold (insert_by cmp) xs ys)) \<and>
         filter (\<lambda>z. k = key z) (fold (insert_by cmp) xs ys) =
         filter (\<lambda>z. k = key z) ys @ filter (\<lambda>z. k = key z) xs"
  using assms
  by (induction xs arbitrary: ys) (auto simp: sorted_insert_by filter_insert_by)

theorem sort_js_sort_key:
  assumes "\<forall>x \<in> set xs. ok x"
  shows "sort_js cmp xs = sort_key key xs"
proof (rule properties_for_sort_key [symmetric])
  show "mset (sort_js cmp xs) = mset xs" by simp
  show "filter (\<lambda>x. key k = key x) (sort_js cmp xs) = filter (\<lambda>x. key k = key x) xs" for k
    using assms fold_insert_by [of xs "[]" "key k"] by (simp add: sort_js_def)
  show "sorted (map key (sort_js cmp xs))"
    using assms fold_insert_by [of xs "[]"] by (simp add: sort_js_def)
qed

end

end
