(* ===== verification/Amount.thy ===== *)
theory Amount
  imports JavaScript
begin

text \<open>
  The values of Bkper's \<^verbatim>\<open>Amount\<close>: decimals of unbounded precision, an ordered ring
  under the exact operations \<^verbatim>\<open>plus\<close>, \<^verbatim>\<open>minus\<close>, \<^verbatim>\<open>times\<close> and the comparisons.
  Everything about the class the sources only call and that is not exact arithmetic
  (parsing, printing, division, rounding, conversion from and to numbers) is a field of
  the record \<open>amount_lib\<close>, a parameter of every definition that uses it.
\<close>

section \<open>Decimals\<close>

definition is_decimal :: "rat \<Rightarrow> bool" where
  "is_decimal q = (\<exists>k::nat. \<exists>n::int. q * 10 ^ k = of_int n)"

lemma is_decimal_of_int [simp]: "is_decimal (of_int n)"
  unfolding is_decimal_def by (rule exI [of _ 0]) auto

lemma is_decimal_uminus: "is_decimal q \<Longrightarrow> is_decimal (- q)"
  unfolding is_decimal_def by (metis mult_minus_left of_int_minus)

lemma is_decimal_mult:
  assumes "is_decimal p" and "is_decimal q"
  shows "is_decimal (p * q)"
proof -
  from assms obtain k n l m where p: "p * 10 ^ k = of_int n" and q: "q * 10 ^ l = of_int m"
    unfolding is_decimal_def by blast
  have "p * q * 10 ^ (k + l) = (p * 10 ^ k) * (q * 10 ^ l)"
    by (simp add: power_add)
  also have "\<dots> = of_int (n * m)"
    by (simp add: p q)
  finally show ?thesis unfolding is_decimal_def by blast
qed

lemma is_decimal_add:
  assumes "is_decimal p" and "is_decimal q"
  shows "is_decimal (p + q)"
proof -
  from assms obtain k n l m where p: "p * 10 ^ k = of_int n" and q: "q * 10 ^ l = of_int m"
    unfolding is_decimal_def by blast
  have "(p + q) * 10 ^ (k + l) = (p * 10 ^ k) * 10 ^ l + (q * 10 ^ l) * 10 ^ k"
    by (simp add: power_add algebra_simps)
  also have "\<dots> = of_int (n * 10 ^ l + m * 10 ^ k)"
    by (simp add: p q)
  finally show ?thesis unfolding is_decimal_def by blast
qed

lemma is_decimal_quotient: "is_decimal (of_int n / 10 ^ k)"
proof -
  have "of_int n / 10 ^ k * 10 ^ k = (of_int n :: rat)" by simp
  then show ?thesis unfolding is_decimal_def by blast
qed

typedef amount = "{q :: rat. is_decimal q}"
  by (rule exI [of _ "of_int 0"]) (simp del: of_int_0)

setup_lifting type_definition_amount

instantiation amount :: linordered_idom
begin

lift_definition zero_amount :: amount is 0
  using is_decimal_of_int [of 0] by simp

lift_definition one_amount :: amount is 1
  using is_decimal_of_int [of 1] by simp

lift_definition plus_amount :: "amount \<Rightarrow> amount \<Rightarrow> amount" is "(+)"
  by (rule is_decimal_add)

lift_definition uminus_amount :: "amount \<Rightarrow> amount" is uminus
  by (rule is_decimal_uminus)

lift_definition minus_amount :: "amount \<Rightarrow> amount \<Rightarrow> amount" is "(-)"
  by (metis is_decimal_add is_decimal_uminus uminus_add_conv_diff add.commute)

lift_definition times_amount :: "amount \<Rightarrow> amount \<Rightarrow> amount" is "(*)"
  by (rule is_decimal_mult)

lift_definition less_eq_amount :: "amount \<Rightarrow> amount \<Rightarrow> bool" is "(\<le>)" .

lift_definition less_amount :: "amount \<Rightarrow> amount \<Rightarrow> bool" is "(<)" .

lift_definition abs_amount :: "amount \<Rightarrow> amount" is abs
  by (metis abs_if is_decimal_uminus)

lift_definition sgn_amount :: "amount \<Rightarrow> amount" is sgn
  by (metis is_decimal_of_int of_int_0 of_int_1 of_int_minus sgn_if)

instance
  by standard
    (transfer; auto simp: algebra_simps mult_strict_left_mono sgn_if abs_if)+

end

lift_definition rat_of_amount :: "amount \<Rightarrow> rat" is "\<lambda>q. q" .

text \<open>The decimal \<open>n / 10^k\<close>.\<close>

lift_definition decimal :: "int \<Rightarrow> nat \<Rightarrow> amount" is "\<lambda>n k. of_int n / 10 ^ k"
  by (simp add: is_decimal_quotient)

lemma rat_of_amount_eq_iff [simp]: "rat_of_amount a = rat_of_amount b \<longleftrightarrow> a = b"
  by transfer simp

lemma rat_of_amount_simps [simp]:
  "rat_of_amount 0 = 0" "rat_of_amount 1 = 1"
  "rat_of_amount (a + b) = rat_of_amount a + rat_of_amount b"
  "rat_of_amount (a - b) = rat_of_amount a - rat_of_amount b"
  "rat_of_amount (a * b) = rat_of_amount a * rat_of_amount b"
  "rat_of_amount (decimal n k) = of_int n / 10 ^ k"
  by (transfer; simp)+

lemma rat_of_amount_of_int [simp]: "rat_of_amount (of_int n) = of_int n"
proof (induction n rule: int_induct [of _ 0])
  case (step1 i)
  then show ?case by simp
next
  case (step2 i)
  then show ?case by simp
qed simp

lemma rat_of_amount_numeral [simp]: "rat_of_amount (numeral n) = numeral n"
  using rat_of_amount_of_int [of "numeral n"] by simp

section \<open>The Amount class as a parameter\<close>

text \<open>
  \<open>am_new\<close> is the constructor on a property value (\<open>None\<close> the value is absent; the result
  \<open>None\<close> is the exception for a value that is no number), \<open>am_ofNumber\<close> the constructor on
  a number, \<open>am_div\<close> raises (\<open>None\<close>) on a zero divisor.
\<close>

record amount_lib =
  am_new :: "string option \<Rightarrow> amount option"
  am_ofNumber :: "jsnum \<Rightarrow> amount"
  am_toString :: "amount \<Rightarrow> string"
  am_toNumber :: "amount \<Rightarrow> jsnum"
  am_div :: "amount \<Rightarrow> amount \<Rightarrow> amount option"
  am_round :: "amount \<Rightarrow> nat \<Rightarrow> amount"

text \<open>Documented behaviour: what \<^verbatim>\<open>toString\<close> prints is read back as the same value.\<close>

definition prints_exactly :: "amount_lib \<Rightarrow> bool" where
  "prints_exactly A = (\<forall>x. am_new A (Some (am_toString A x)) = Some x)"

text \<open>Documented behaviour: a division fails on a zero divisor only.\<close>

definition divides_nonzero :: "amount_lib \<Rightarrow> bool" where
  "divides_nonzero A = (\<forall>x y. y \<noteq> 0 \<longrightarrow> am_div A x y \<noteq> None)"

text \<open>Documented behaviour: rounding keeps a value that needs no more digits; zero needs none.\<close>

definition rounds_zero :: "amount_lib \<Rightarrow> bool" where
  "rounds_zero A = (\<forall>d. am_round A 0 d = 0)"

definition amount_laws :: "amount_lib \<Rightarrow> bool" where
  "amount_laws A = (prints_exactly A \<and> divides_nonzero A \<and> rounds_zero A)"

lemma am_new_toString [simp]: "amount_laws A \<Longrightarrow> am_new A (Some (am_toString A x)) = Some x"
  by (simp add: amount_laws_def prints_exactly_def)

lemma am_div_Some: "amount_laws A \<Longrightarrow> y \<noteq> 0 \<Longrightarrow> \<exists>q. am_div A x y = Some q"
  by (auto simp: amount_laws_def divides_nonzero_def)

lemma am_round_0 [simp]: "amount_laws A \<Longrightarrow> am_round A 0 d = 0"
  by (simp add: amount_laws_def rounds_zero_def)

end
