(* ===== verification/Bkper.thy ===== *)
theory Bkper
  imports Amount
begin

text \<open>
  The platform as the sources see it: the property names of \<^verbatim>\<open>constants.ts\<close> (both
  packages), the objects of the Bkper library as records of the data their getters read
  and their setters write, and the service behind them as a record of functions, which is
  a parameter of every definition that calls it. The type \<open>'w\<close> is the state of the service.
\<close>

section \<open>Property and account names\<close>

definition ADDITIONAL_COSTS_CREDITS_QUERY_RANGE :: int where
  [simp]: "ADDITIONAL_COSTS_CREDITS_QUERY_RANGE = 2"

definition COGS_ACCOUNT :: string where [simp]: "COGS_ACCOUNT = ''Cost of goods sold''"
definition ADD_COSTS_PROP :: string where [simp]: "ADD_COSTS_PROP = ''additional_costs''"
definition COGS_CALC_DATE_PROP :: string where [simp]: "COGS_CALC_DATE_PROP = ''cogs_calc_date''"
definition COGS_HASHTAG :: string where [simp]: "COGS_HASHTAG = ''#cost_of_sale''"
definition CREDIT_NOTE_PROP :: string where [simp]: "CREDIT_NOTE_PROP = ''credit_note''"
definition EXC_CODE_PROP :: string where [simp]: "EXC_CODE_PROP = ''exc_code''"
definition GOOD_PROP :: string where [simp]: "GOOD_PROP = ''good''"
definition GOOD_PURCHASE_COST_PROP :: string where [simp]: "GOOD_PURCHASE_COST_PROP = ''good_purchase_cost''"
definition INVENTORY_BOOK_PROP :: string where [simp]: "INVENTORY_BOOK_PROP = ''inventory_book''"
definition LIQUIDATION_LOG_PROP :: string where [simp]: "LIQUIDATION_LOG_PROP = ''liquidation_log''"
definition NEEDS_REBUILD_PROP :: string where [simp]: "NEEDS_REBUILD_PROP = ''needs_rebuild''"
definition ORDER_PROP :: string where [simp]: "ORDER_PROP = ''order''"
definition ORIGINAL_QUANTITY_PROP :: string where [simp]: "ORIGINAL_QUANTITY_PROP = ''original_quantity''"
definition PARENT_ID :: string where [simp]: "PARENT_ID = ''parent_id''"
definition PURCHASE_CODE_PROP :: string where [simp]: "PURCHASE_CODE_PROP = ''purchase_code''"
definition PURCHASE_INVOICE_PROP :: string where [simp]: "PURCHASE_INVOICE_PROP = ''purchase_invoice''"
definition PURCHASE_LOG_PROP :: string where [simp]: "PURCHASE_LOG_PROP = ''purchase_log''"
definition QUANTITY_PROP :: string where [simp]: "QUANTITY_PROP = ''quantity''"
definition QUANTITY_SOLD_PROP :: string where [simp]: "QUANTITY_SOLD_PROP = ''quantity_sold''"
definition SALE_AMOUNT_PROP :: string where [simp]: "SALE_AMOUNT_PROP = ''sale_amount''"
definition SALE_INVOICE_PROP :: string where [simp]: "SALE_INVOICE_PROP = ''sale_invoice''"
definition TOTAL_COST_PROP :: string where [simp]: "TOTAL_COST_PROP = ''total_cost''"
definition GOOD_SELL_ACCOUNT_NAME :: string where [simp]: "GOOD_SELL_ACCOUNT_NAME = ''Sell''"
definition GOOD_BUY_ACCOUNT_NAME :: string where [simp]: "GOOD_BUY_ACCOUNT_NAME = ''Buy''"

definition AGENT_ID :: string where [simp]: "AGENT_ID = ''inventory-bot''"

section \<open>Objects\<close>

datatype account_type = ASSET | LIABILITY | INCOMING | OUTGOING

text \<open>Custom properties: an absent property is \<open>None\<close>; writing \<open>None\<close> removes it.\<close>

type_synonym properties = "string \<rightharpoonup> string"

text \<open>\<^verbatim>\<open>if (value)\<close> on an optional string: absent and empty are false.\<close>

definition truthy :: "string option \<Rightarrow> bool" where
  "truthy v = (v \<noteq> None \<and> v \<noteq> Some [])"

lemma truthy_simps [simp]: "\<not> truthy None" "\<not> truthy (Some [])" "truthy (Some (c # s))"
  by (simp_all add: truthy_def)

record group =
  g_id :: string
  g_name :: string
  g_properties :: properties
  g_parent :: "string option"
  g_hidden :: bool

record account =
  a_id :: string
  a_name :: string
  a_type :: account_type
  a_properties :: properties
  a_archived :: bool
  a_groups :: "group option list option"

record book =
  b_id :: string
  b_name :: string
  b_properties :: properties
  b_fractionDigits :: nat
  b_timeZone :: string

text \<open>
  A transaction. The identifier of a transaction that has not been sent to the service is
  empty, and no code reads it before; its accounts are read of posted transactions only,
  which always have both.
\<close>

record transaction =
  t_id :: string
  t_date :: string
  t_dateValue :: int
  t_amount :: amount
  t_creditAccount :: account
  t_debitAccount :: account
  t_description :: string
  t_properties :: properties
  t_remoteIds :: "string list"
  t_checked :: bool
  t_posted :: bool
  t_trashed :: bool
  t_agentId :: "string option"
  t_createdAt :: "int option"

abbreviation t_prop :: "transaction \<Rightarrow> string \<Rightarrow> string option" where
  "t_prop t k \<equiv> t_properties t k"

abbreviation a_prop :: "account \<Rightarrow> string \<Rightarrow> string option" where
  "a_prop a k \<equiv> a_properties a k"

definition set_prop :: "string \<Rightarrow> string option \<Rightarrow> transaction \<Rightarrow> transaction" where
  "set_prop k v t = t\<lparr>t_properties := (t_properties t)(k := v)\<rparr>"

definition set_account_prop :: "string \<Rightarrow> string option \<Rightarrow> account \<Rightarrow> account" where
  "set_account_prop k v a = a\<lparr>a_properties := (a_properties a)(k := v)\<rparr>"

text \<open>Writing a property changes no other field of a transaction.\<close>

lemma set_prop_simps [simp]:
  "t_properties (set_prop k v t) = (t_properties t)(k := v)"
  "t_id (set_prop k v t) = t_id t" "t_date (set_prop k v t) = t_date t"
  "t_dateValue (set_prop k v t) = t_dateValue t" "t_amount (set_prop k v t) = t_amount t"
  "t_creditAccount (set_prop k v t) = t_creditAccount t"
  "t_debitAccount (set_prop k v t) = t_debitAccount t"
  "t_description (set_prop k v t) = t_description t"
  "t_remoteIds (set_prop k v t) = t_remoteIds t" "t_checked (set_prop k v t) = t_checked t"
  "t_posted (set_prop k v t) = t_posted t" "t_trashed (set_prop k v t) = t_trashed t"
  "t_agentId (set_prop k v t) = t_agentId t" "t_createdAt (set_prop k v t) = t_createdAt t"
  by (simp_all add: set_prop_def)

lemma set_account_prop_simps [simp]:
  "a_properties (set_account_prop k v a) = (a_properties a)(k := v)"
  "a_id (set_account_prop k v a) = a_id a" "a_name (set_account_prop k v a) = a_name a"
  "a_type (set_account_prop k v a) = a_type a" "a_groups (set_account_prop k v a) = a_groups a"
  "a_archived (set_account_prop k v a) = a_archived a"
  by (simp_all add: set_account_prop_def)

text \<open>A new account of a book, and a new transaction with the fields every caller sets.\<close>

definition new_account :: "string \<Rightarrow> account_type \<Rightarrow> account" where
  "new_account n ty =
     \<lparr>a_id = [], a_name = n, a_type = ty, a_properties = Map.empty, a_archived = False,
      a_groups = None\<rparr>"

definition new_transaction ::
    "string \<Rightarrow> amount \<Rightarrow> account \<Rightarrow> account \<Rightarrow> string \<Rightarrow> properties \<Rightarrow> string list \<Rightarrow> bool \<Rightarrow> transaction" where
  "new_transaction date amt credit debit descr props remoteIds checked =
     \<lparr>t_id = [], t_date = date, t_dateValue = 0, t_amount = amt, t_creditAccount = credit,
      t_debitAccount = debit, t_description = descr, t_properties = props,
      t_remoteIds = remoteIds, t_checked = checked, t_posted = False, t_trashed = False,
      t_agentId = None, t_createdAt = None\<rparr>"

lemma new_transaction_simps [simp]:
  "t_date (new_transaction d q c e s p r k) = d" "t_amount (new_transaction d q c e s p r k) = q"
  "t_creditAccount (new_transaction d q c e s p r k) = c"
  "t_debitAccount (new_transaction d q c e s p r k) = e"
  "t_description (new_transaction d q c e s p r k) = s"
  "t_properties (new_transaction d q c e s p r k) = p"
  "t_remoteIds (new_transaction d q c e s p r k) = r"
  "t_checked (new_transaction d q c e s p r k) = k"
  by (simp_all add: new_transaction_def)

section \<open>The service\<close>

text \<open>
  The calls of the Apps Script package (\<^verbatim>\<open>BkperApp\<close>, \<^verbatim>\<open>Utilities\<close>). Calls that only
  read take the state of the service; calls that write return the new state.
  \<open>app_uuid w n\<close> is the n-th identifier drawn from \<^verbatim>\<open>Utilities.getUuid\<close> in a run,
  \<open>app_toLocal\<close> and \<open>app_toUTC\<close> are the time zone of the host (milliseconds since the
  epoch to local milliseconds and back), \<open>app_absent\<close> is how an absent property prints
  in a template string, \<open>app_nullAccount\<close> is what a transaction holds for an account that
  was set to \<^verbatim>\<open>null\<close>.
\<close>

record 'w bkper_app =
  app_getBook :: "'w \<Rightarrow> string \<Rightarrow> book"
  app_getBooks :: "'w \<Rightarrow> book \<Rightarrow> book list option"
  app_getAccount :: "'w \<Rightarrow> book \<Rightarrow> string option \<Rightarrow> account option"
  app_getAccounts :: "'w \<Rightarrow> book \<Rightarrow> account list"
  app_getGroup :: "'w \<Rightarrow> book \<Rightarrow> string option \<Rightarrow> group option"
  app_getGroupAccounts :: "'w \<Rightarrow> book \<Rightarrow> group \<Rightarrow> account list"
  app_getTransactions :: "'w \<Rightarrow> book \<Rightarrow> string \<Rightarrow> transaction list"
  app_getBacklogCount :: "'w \<Rightarrow> book \<Rightarrow> nat"
  app_isLocked :: "'w \<Rightarrow> book \<Rightarrow> transaction \<Rightarrow> bool"
  app_batchCreateTransactions :: "book \<Rightarrow> transaction list \<Rightarrow> 'w \<Rightarrow> 'w"
  app_batchUpdateTransactions :: "book \<Rightarrow> transaction list \<Rightarrow> bool \<Rightarrow> 'w \<Rightarrow> 'w"
  app_batchTrashTransactions :: "book \<Rightarrow> transaction list \<Rightarrow> bool \<Rightarrow> 'w \<Rightarrow> 'w"
  app_uncheckTransaction :: "transaction \<Rightarrow> 'w \<Rightarrow> 'w"
  app_trashTransaction :: "transaction \<Rightarrow> 'w \<Rightarrow> 'w"
  app_createAccount :: "book \<Rightarrow> account \<Rightarrow> 'w \<Rightarrow> account \<times> 'w"
  app_updateAccount :: "book \<Rightarrow> account \<Rightarrow> 'w \<Rightarrow> 'w"
  app_uuid :: "'w \<Rightarrow> nat \<Rightarrow> string"
  app_today :: "'w \<Rightarrow> book \<Rightarrow> string"
  app_parseDate :: "book \<Rightarrow> string \<Rightarrow> int"
  app_formatDate :: "int \<Rightarrow> string \<Rightarrow> string"
  app_toLocal :: "int \<Rightarrow> int"
  app_toUTC :: "int \<Rightarrow> int"
  app_absent :: string
  app_nullAccount :: account

section \<open>References\<close>

text \<open>
  The services hold the transactions they read in several collections at once and change
  them in place. The objects live in a store indexed by references; collections hold
  references.
\<close>

type_synonym ref = nat
type_synonym store = "ref \<Rightarrow> transaction"

end
