(* ===== verification/BatchProcessor.thy ===== *)
theory BatchProcessor
  imports Bkper
begin

text \<open>
  \<^verbatim>\<open>menu/server/src/CalculateCostOfSalesProcessor.ts\<close> and
  \<^verbatim>\<open>menu/server/src/ResetCostOfSalesProcessor.ts\<close>: the operations of a run are collected
  first, the lock state of every transaction is noted, and the batches are sent at the
  end. Transactions read from the service are kept by reference, so a batch sends them as
  they are when it is fired; new transactions are not changed after they are stored.
\<close>

section \<open>Calculation\<close>

record calc_processor =
  cp_inventoryBook :: book
  cp_financialBook :: book
  cp_inventoryToCreate :: "(string, transaction) js_map"
  cp_inventoryToUpdate :: "(string, ref) js_map"
  cp_financialToCreate :: "(string, transaction) js_map"
  cp_isAnyTransactionLocked :: bool
  cp_generated :: nat

definition new_CalculateCostOfSalesProcessor :: "book \<Rightarrow> book \<Rightarrow> calc_processor" where
  "new_CalculateCostOfSalesProcessor inventoryBook financialBook =
     \<lparr>cp_inventoryBook = inventoryBook, cp_financialBook = financialBook,
      cp_inventoryToCreate = map_empty, cp_inventoryToUpdate = map_empty,
      cp_financialToCreate = map_empty, cp_isAnyTransactionLocked = False, cp_generated = 0\<rparr>"

definition getRemoteId :: "transaction \<Rightarrow> string" where
  "getRemoteId t = (case t_remoteIds t of [] \<Rightarrow> [] | r # _ \<Rightarrow> r)"

text \<open>The identifiers drawn so far are counted, so that each call gets the next one.\<close>

definition generateId :: "'w bkper_app \<Rightarrow> 'w \<Rightarrow> calc_processor \<Rightarrow> string \<times> calc_processor" where
  "generateId B w p = (app_uuid B w (cp_generated p), p\<lparr>cp_generated := Suc (cp_generated p)\<rparr>)"

definition cp_checkTransactionLocked ::
    "'w bkper_app \<Rightarrow> 'w \<Rightarrow> book \<Rightarrow> transaction \<Rightarrow> calc_processor \<Rightarrow> calc_processor" where
  "cp_checkTransactionLocked B w book t p =
     (if app_isLocked B w book t then p\<lparr>cp_isAnyTransactionLocked := True\<rparr> else p)"

definition cp_setInventoryBookTransactionToCreate ::
    "'w bkper_app \<Rightarrow> 'w \<Rightarrow> transaction \<Rightarrow> calc_processor \<Rightarrow> calc_processor" where
  "cp_setInventoryBookTransactionToCreate B w t p =
     (let p = cp_checkTransactionLocked B w (cp_inventoryBook p) t p
      in p\<lparr>cp_inventoryToCreate := map_set (getRemoteId t) t (cp_inventoryToCreate p)\<rparr>)"

definition cp_setInventoryBookTransactionToUpdate ::
    "'w bkper_app \<Rightarrow> 'w \<Rightarrow> store \<Rightarrow> ref \<Rightarrow> calc_processor \<Rightarrow> calc_processor" where
  "cp_setInventoryBookTransactionToUpdate B w h r p =
     (let p = cp_checkTransactionLocked B w (cp_inventoryBook p) (h r) p
      in p\<lparr>cp_inventoryToUpdate := map_set (t_id (h r)) r (cp_inventoryToUpdate p)\<rparr>)"

definition cp_setFinancialBookTransactionToCreate ::
    "'w bkper_app \<Rightarrow> 'w \<Rightarrow> transaction \<Rightarrow> calc_processor \<Rightarrow> calc_processor" where
  "cp_setFinancialBookTransactionToCreate B w t p =
     (let p = cp_checkTransactionLocked B w (cp_financialBook p) t p
      in p\<lparr>cp_financialToCreate := map_set (getRemoteId t) t (cp_financialToCreate p)\<rparr>)"

definition cp_fireBatchCreateInventory :: "'w bkper_app \<Rightarrow> calc_processor \<Rightarrow> 'w \<Rightarrow> 'w" where
  "cp_fireBatchCreateInventory B p w =
     (let ts = map_values (cp_inventoryToCreate p)
      in if ts \<noteq> [] then app_batchCreateTransactions B (cp_inventoryBook p) ts w else w)"

definition cp_fireBatchUpdateInventory :: "'w bkper_app \<Rightarrow> store \<Rightarrow> calc_processor \<Rightarrow> 'w \<Rightarrow> 'w" where
  "cp_fireBatchUpdateInventory B h p w =
     (let ts = map h (map_values (cp_inventoryToUpdate p))
      in if ts \<noteq> [] then app_batchUpdateTransactions B (cp_inventoryBook p) ts True w else w)"

definition cp_fireBatchCreateFinancial :: "'w bkper_app \<Rightarrow> calc_processor \<Rightarrow> 'w \<Rightarrow> 'w" where
  "cp_fireBatchCreateFinancial B p w =
     (let ts = map_values (cp_financialToCreate p)
      in if ts \<noteq> [] then app_batchCreateTransactions B (cp_financialBook p) ts w else w)"

definition cp_fireBatchOperations :: "'w bkper_app \<Rightarrow> store \<Rightarrow> calc_processor \<Rightarrow> 'w \<Rightarrow> 'w" where
  "cp_fireBatchOperations B h p w =
     cp_fireBatchCreateFinancial B p (cp_fireBatchUpdateInventory B h p (cp_fireBatchCreateInventory B p w))"

lemmas calc_processor_defs [processor_defs] =
  cp_setInventoryBookTransactionToCreate_def cp_setInventoryBookTransactionToUpdate_def
  cp_setFinancialBookTransactionToCreate_def cp_checkTransactionLocked_def generateId_def Let_def

text \<open>Each setter writes its own collection and the lock note, nothing else.\<close>

lemma cp_create_frame [simp]:
  "cp_financialToCreate (cp_setInventoryBookTransactionToCreate B w t p) = cp_financialToCreate p"
  "cp_inventoryToUpdate (cp_setInventoryBookTransactionToCreate B w t p) = cp_inventoryToUpdate p"
  "cp_inventoryBook (cp_setInventoryBookTransactionToCreate B w t p) = cp_inventoryBook p"
  "cp_financialBook (cp_setInventoryBookTransactionToCreate B w t p) = cp_financialBook p"
  "cp_generated (cp_setInventoryBookTransactionToCreate B w t p) = cp_generated p"
  by (simp_all add: calc_processor_defs)

lemma cp_update_frame [simp]:
  "cp_financialToCreate (cp_setInventoryBookTransactionToUpdate B w h r p) = cp_financialToCreate p"
  "cp_inventoryToCreate (cp_setInventoryBookTransactionToUpdate B w h r p) = cp_inventoryToCreate p"
  "cp_inventoryBook (cp_setInventoryBookTransactionToUpdate B w h r p) = cp_inventoryBook p"
  "cp_financialBook (cp_setInventoryBookTransactionToUpdate B w h r p) = cp_financialBook p"
  "cp_generated (cp_setInventoryBookTransactionToUpdate B w h r p) = cp_generated p"
  by (simp_all add: calc_processor_defs)

lemma cp_financial_frame [simp]:
  "cp_inventoryToCreate (cp_setFinancialBookTransactionToCreate B w t p) = cp_inventoryToCreate p"
  "cp_inventoryToUpdate (cp_setFinancialBookTransactionToCreate B w t p) = cp_inventoryToUpdate p"
  "cp_inventoryBook (cp_setFinancialBookTransactionToCreate B w t p) = cp_inventoryBook p"
  "cp_financialBook (cp_setFinancialBookTransactionToCreate B w t p) = cp_financialBook p"
  "cp_generated (cp_setFinancialBookTransactionToCreate B w t p) = cp_generated p"
  by (simp_all add: calc_processor_defs)

section \<open>Reset\<close>

record reset_processor =
  rp_inventoryBook :: book
  rp_financialBook :: book
  rp_financialToTrash :: "(string, transaction) js_map"
  rp_inventoryToUpdate :: "(string, ref) js_map"
  rp_inventoryToTrash :: "(string, ref) js_map"
  rp_isAnyTransactionLocked :: bool

definition new_ResetCostOfSalesProcessor :: "book \<Rightarrow> book \<Rightarrow> reset_processor" where
  "new_ResetCostOfSalesProcessor inventoryBook financialBook =
     \<lparr>rp_inventoryBook = inventoryBook, rp_financialBook = financialBook,
      rp_financialToTrash = map_empty, rp_inventoryToUpdate = map_empty,
      rp_inventoryToTrash = map_empty, rp_isAnyTransactionLocked = False\<rparr>"

definition rp_checkTransactionLocked ::
    "'w bkper_app \<Rightarrow> 'w \<Rightarrow> book \<Rightarrow> transaction \<Rightarrow> reset_processor \<Rightarrow> reset_processor" where
  "rp_checkTransactionLocked B w book t p =
     (if app_isLocked B w book t then p\<lparr>rp_isAnyTransactionLocked := True\<rparr> else p)"

definition rp_setFinancialBookTransactionToTrash ::
    "'w bkper_app \<Rightarrow> 'w \<Rightarrow> transaction \<Rightarrow> reset_processor \<Rightarrow> reset_processor" where
  "rp_setFinancialBookTransactionToTrash B w t p =
     (let p = rp_checkTransactionLocked B w (rp_financialBook p) t p
      in p\<lparr>rp_financialToTrash := map_set (t_id t) t (rp_financialToTrash p)\<rparr>)"

definition rp_setInventoryBookTransactionToUpdate ::
    "'w bkper_app \<Rightarrow> 'w \<Rightarrow> store \<Rightarrow> ref \<Rightarrow> reset_processor \<Rightarrow> reset_processor" where
  "rp_setInventoryBookTransactionToUpdate B w h r p =
     (let p = rp_checkTransactionLocked B w (rp_inventoryBook p) (h r) p
      in p\<lparr>rp_inventoryToUpdate := map_set (t_id (h r)) r (rp_inventoryToUpdate p)\<rparr>)"

definition rp_setInventoryBookTransactionToTrash ::
    "'w bkper_app \<Rightarrow> 'w \<Rightarrow> store \<Rightarrow> ref \<Rightarrow> reset_processor \<Rightarrow> reset_processor" where
  "rp_setInventoryBookTransactionToTrash B w h r p =
     (let p = rp_checkTransactionLocked B w (rp_inventoryBook p) (h r) p
      in p\<lparr>rp_inventoryToTrash := map_set (t_id (h r)) r (rp_inventoryToTrash p)\<rparr>)"

definition rp_fireBatchTrashFinancial :: "'w bkper_app \<Rightarrow> reset_processor \<Rightarrow> 'w \<Rightarrow> 'w" where
  "rp_fireBatchTrashFinancial B p w =
     (let ts = map_values (rp_financialToTrash p)
      in if ts \<noteq> [] then app_batchTrashTransactions B (rp_financialBook p) ts True w else w)"

definition rp_fireBatchUpdateInventory :: "'w bkper_app \<Rightarrow> store \<Rightarrow> reset_processor \<Rightarrow> 'w \<Rightarrow> 'w" where
  "rp_fireBatchUpdateInventory B h p w =
     (let ts = map h (map_values (rp_inventoryToUpdate p))
      in if ts \<noteq> [] then app_batchUpdateTransactions B (rp_inventoryBook p) ts True w else w)"

definition rp_fireBatchTrashInventory :: "'w bkper_app \<Rightarrow> store \<Rightarrow> reset_processor \<Rightarrow> 'w \<Rightarrow> 'w" where
  "rp_fireBatchTrashInventory B h p w =
     (let ts = map h (map_values (rp_inventoryToTrash p))
      in if ts \<noteq> [] then app_batchTrashTransactions B (rp_inventoryBook p) ts True w else w)"

definition rp_fireBatchOperations :: "'w bkper_app \<Rightarrow> store \<Rightarrow> reset_processor \<Rightarrow> 'w \<Rightarrow> 'w" where
  "rp_fireBatchOperations B h p w =
     rp_fireBatchTrashInventory B h p (rp_fireBatchUpdateInventory B h p (rp_fireBatchTrashFinancial B p w))"

lemmas reset_processor_defs [processor_defs] =
  rp_setFinancialBookTransactionToTrash_def rp_setInventoryBookTransactionToUpdate_def
  rp_setInventoryBookTransactionToTrash_def rp_checkTransactionLocked_def

section \<open>The lock guard both processors promise\<close>

text \<open>
  Every setter notes whether its transaction is locked, none forgets a locked one, and
  the books of the processor never change. So the guard that is read before the batches
  are fired sees every lock of the run.
\<close>

locale lock_guard =
  fixes store_tx :: "'t \<Rightarrow> 'p \<Rightarrow> 'p"
    and has_locked :: "'p \<Rightarrow> bool"
    and books :: "'p \<Rightarrow> 'b"
    and is_locked :: "'b \<Rightarrow> 't \<Rightarrow> bool"
  assumes has_locked_store: "has_locked (store_tx t p) \<longleftrightarrow> has_locked p \<or> is_locked (books p) t"
    and books_store: "books (store_tx t p) = books p"
begin

lemma books_fold: "books (fold store_tx ts p) = books p"
  by (induction ts arbitrary: p) (simp_all add: books_store)

theorem has_locked_fold:
  "has_locked (fold store_tx ts p) \<longleftrightarrow> has_locked p \<or> (\<exists>t \<in> set ts. is_locked (books p) t)"
  by (induction ts arbitrary: p) (auto simp: has_locked_store books_store)

end

abbreviation cp_books :: "calc_processor \<Rightarrow> book \<times> book" where
  "cp_books p \<equiv> (cp_inventoryBook p, cp_financialBook p)"

abbreviation rp_books :: "reset_processor \<Rightarrow> book \<times> book" where
  "rp_books p \<equiv> (rp_inventoryBook p, rp_financialBook p)"

interpretation calc_create: lock_guard "cp_setInventoryBookTransactionToCreate B w"
    cp_isAnyTransactionLocked cp_books "\<lambda>b t. app_isLocked B w (fst b) t" for B w
  by unfold_locales (simp_all add: processor_defs)

interpretation calc_update: lock_guard "cp_setInventoryBookTransactionToUpdate B w h"
    cp_isAnyTransactionLocked cp_books "\<lambda>b r. app_isLocked B w (fst b) (h r)" for B w h
  by unfold_locales (simp_all add: processor_defs)

interpretation calc_financial: lock_guard "cp_setFinancialBookTransactionToCreate B w"
    cp_isAnyTransactionLocked cp_books "\<lambda>b t. app_isLocked B w (snd b) t" for B w
  by unfold_locales (simp_all add: processor_defs)

interpretation reset_trash_financial: lock_guard "rp_setFinancialBookTransactionToTrash B w"
    rp_isAnyTransactionLocked rp_books "\<lambda>b t. app_isLocked B w (snd b) t" for B w
  by unfold_locales (simp_all add: processor_defs)

interpretation reset_update: lock_guard "rp_setInventoryBookTransactionToUpdate B w h"
    rp_isAnyTransactionLocked rp_books "\<lambda>b r. app_isLocked B w (fst b) (h r)" for B w h
  by unfold_locales (simp_all add: processor_defs)

interpretation reset_trash: lock_guard "rp_setInventoryBookTransactionToTrash B w h"
    rp_isAnyTransactionLocked rp_books "\<lambda>b r. app_isLocked B w (fst b) (h r)" for B w h
  by unfold_locales (simp_all add: processor_defs)

end
