(* ===== verification/GoodAccount.thy ===== *)
theory GoodAccount
  imports Bkper
begin

text \<open>
  \<^verbatim>\<open>menu/server/src/GoodAccount.ts\<close>: an account of the inventory book with the two
  properties the services keep on it, the date of the last calculation and the flag that
  asks for a rebuild.
\<close>

record good_account =
  ga_account :: account
  ga_trash :: "transaction list"

definition new_GoodAccount :: "account \<Rightarrow> good_account" where
  "new_GoodAccount a = \<lparr>ga_account = a, ga_trash = []\<rparr>"

text \<open>
  The methods that pass on to the account. How the platform normalizes a name and which
  accounts it calls permanent is a parameter.
\<close>

definition ga_getId :: "good_account \<Rightarrow> string" where
  "ga_getId g = a_id (ga_account g)"

definition ga_getName :: "good_account \<Rightarrow> string" where
  "ga_getName g = a_name (ga_account g)"

definition ga_getAccount :: "good_account \<Rightarrow> account" where
  "ga_getAccount g = ga_account g"

definition ga_update :: "'w bkper_app \<Rightarrow> book \<Rightarrow> good_account \<Rightarrow> 'w \<Rightarrow> 'w" where
  "ga_update B book g w = app_updateAccount B book (ga_account g) w"

definition ga_getNormalizedName :: "(account \<Rightarrow> string) \<Rightarrow> good_account \<Rightarrow> string" where
  "ga_getNormalizedName normalizedName g = normalizedName (ga_account g)"

definition ga_isArchived :: "good_account \<Rightarrow> bool" where
  "ga_isArchived g = a_archived (ga_account g)"

definition ga_isPermanent :: "(account \<Rightarrow> bool) \<Rightarrow> good_account \<Rightarrow> bool" where
  "ga_isPermanent permanent g = permanent (ga_account g)"

definition getCOGSCalculationDate :: "good_account \<Rightarrow> string option" where
  "getCOGSCalculationDate g = a_prop (ga_account g) COGS_CALC_DATE_PROP"

definition getCOGSCalculationDateValue :: "good_account \<Rightarrow> jsnum option" where
  "getCOGSCalculationDateValue g =
     (if truthy (getCOGSCalculationDate g)
      then Some (string_to_number (replaceAll_dash (the (getCOGSCalculationDate g)))) else None)"

definition setCOGSCalculationDate :: "string \<Rightarrow> good_account \<Rightarrow> good_account" where
  "setCOGSCalculationDate date g =
     g\<lparr>ga_account := set_account_prop COGS_CALC_DATE_PROP (Some date) (ga_account g)\<rparr>"

definition deleteCOGSCalculationDate :: "good_account \<Rightarrow> good_account" where
  "deleteCOGSCalculationDate g =
     g\<lparr>ga_account := set_account_prop COGS_CALC_DATE_PROP None (ga_account g)\<rparr>"

definition needsRebuild :: "good_account \<Rightarrow> bool" where
  "needsRebuild g = (a_prop (ga_account g) NEEDS_REBUILD_PROP = Some ''TRUE'')"

definition flagNeedsRebuild :: "good_account \<Rightarrow> good_account" where
  "flagNeedsRebuild g =
     g\<lparr>ga_account := set_account_prop NEEDS_REBUILD_PROP (Some ''TRUE'') (ga_account g)\<rparr>"

definition clearNeedsRebuild :: "good_account \<Rightarrow> good_account" where
  "clearNeedsRebuild g =
     g\<lparr>ga_account := set_account_prop NEEDS_REBUILD_PROP None (ga_account g)\<rparr>"

text \<open>The first non-blank exchange code among the groups of an account.\<close>

fun groups_exchange :: "group option list \<Rightarrow> string option" where
  "groups_exchange [] = None"
| "groups_exchange (None # gs) = groups_exchange gs"
| "groups_exchange (Some g # gs) =
     (case g_properties g EXC_CODE_PROP of
        Some exchange \<Rightarrow> if trim exchange \<noteq> [] then Some exchange else groups_exchange gs
      | None \<Rightarrow> groups_exchange gs)"

definition getExchangeCode :: "account \<Rightarrow> string option" where
  "getExchangeCode account =
     (if a_type account = INCOMING \<or> a_type account = OUTGOING then None
      else case a_groups account of None \<Rightarrow> None | Some groups \<Rightarrow> groups_exchange groups)"

definition ga_getExchangeCode :: "good_account \<Rightarrow> string option" where
  "ga_getExchangeCode g = getExchangeCode (ga_account g)"

definition pushTrash :: "transaction \<Rightarrow> good_account \<Rightarrow> good_account" where
  "pushTrash transaction g = g\<lparr>ga_trash := ga_trash g @ [transaction]\<rparr>"

definition cleanTrash_one :: "'w bkper_app \<Rightarrow> transaction \<Rightarrow> 'w \<Rightarrow> 'w" where
  "cleanTrash_one B transaction w =
     (if t_trashed transaction then w
      else app_trashTransaction B transaction
             (if t_checked transaction then app_uncheckTransaction B transaction w else w))"

definition cleanTrash :: "'w bkper_app \<Rightarrow> good_account \<Rightarrow> 'w \<Rightarrow> 'w" where
  "cleanTrash B g w = fold (cleanTrash_one B) (ga_trash g) w"

text \<open>The rebuild flag: what raising and clearing it promise to the services.\<close>

locale rebuild_flag =
  fixes flag :: "'g \<Rightarrow> 'g" and clear :: "'g \<Rightarrow> 'g" and flagged :: "'g \<Rightarrow> bool"
    and date :: "'g \<Rightarrow> string option"
  assumes flagged_flag: "flagged (flag g)"
    and not_flagged_clear: "\<not> flagged (clear g)"
    and date_flag: "date (flag g) = date g"
    and date_clear: "date (clear g) = date g"
begin

lemma flag_clear_cycle: "flagged (flag (clear g)) \<and> date (clear (flag g)) = date g"
  by (simp add: flagged_flag date_flag date_clear)

end

interpretation good: rebuild_flag flagNeedsRebuild clearNeedsRebuild needsRebuild getCOGSCalculationDate
  by unfold_locales
    (simp_all add: flagNeedsRebuild_def clearNeedsRebuild_def needsRebuild_def getCOGSCalculationDate_def)

lemma needsRebuild_set_date [simp]:
  "needsRebuild (setCOGSCalculationDate d g) = needsRebuild g"
  by (simp add: needsRebuild_def setCOGSCalculationDate_def)

lemma groups_exchange_Some:
  assumes "groups_exchange gs = Some x"
  shows "\<exists>g. Some g \<in> set gs \<and> g_properties g EXC_CODE_PROP = Some x \<and> trim x \<noteq> []"
  using assms by (induction gs rule: groups_exchange.induct) (auto split: option.splits if_splits)

text \<open>An ISO date that was stored is read back as its number, 2024-01-31 as 20240131.\<close>

lemma calculation_date_value:
  assumes "list_all is_digit (replaceAll_dash d)" and "replaceAll_dash d \<noteq> []"
    and "digits_value (replaceAll_dash d) < 2 ^ 53"
  shows "getCOGSCalculationDateValue (setCOGSCalculationDate d g) =
         Some (Num (of_nat (digits_value (replaceAll_dash d))))"
proof -
  have "d \<noteq> []" using assms(2) by (auto simp: replaceAll_dash_def)
  then show ?thesis
    using string_to_number_digits [OF assms(1,2,3)]
    by (simp add: getCOGSCalculationDateValue_def getCOGSCalculationDate_def
        setCOGSCalculationDate_def truthy_def)
qed

end
