(* ===== verification/Helper.thy ===== *)
theory Helper
  imports Bkper
begin

text \<open>
  \<^verbatim>\<open>menu/server/src/helper.ts\<close>: the query strings the services send, the date parser and
  the width of the search window. The calendar arithmetic of the \<^verbatim>\<open>Date\<close> constructor is
  modelled as the language defines it, with the time zone of the host as a parameter.
\<close>

section \<open>Queries\<close>

definition getAccountQuery :: "string \<Rightarrow> string option \<Rightarrow> string option \<Rightarrow> string" where
  "getAccountQuery goodAccountName beforeDate afterDate =
     (let query = ''account:'' @ [CHR 0x27] @ goodAccountName @ [CHR 0x27];
          query = (if truthy afterDate then query @ '' after:'' @ the afterDate else query)
      in if truthy beforeDate then query @ '' before:'' @ the beforeDate else query)"

section \<open>Dates\<close>

text \<open>Days from 1 January 1970 to the first day of a year, and to a day of a month.\<close>

definition leap_year :: "int \<Rightarrow> bool" where
  "leap_year y = (y mod 4 = 0 \<and> (y mod 100 \<noteq> 0 \<or> y mod 400 = 0))"

definition DayFromYear :: "int \<Rightarrow> int" where
  "DayFromYear y = 365 * (y - 1970) + (y - 1969) div 4 - (y - 1901) div 100 + (y - 1601) div 400"

definition days_before_month :: "int \<Rightarrow> int \<Rightarrow> int" where
  "days_before_month y m =
     [0, 31, 59, 90, 120, 151, 181, 212, 243, 273, 304, 334] ! nat m
     + (if leap_year y \<and> 2 \<le> m then 1 else 0)"

definition MakeDay :: "int \<Rightarrow> int \<Rightarrow> int \<Rightarrow> int" where
  "MakeDay year month day =
     (let y = year + month div 12; m = month mod 12
      in DayFromYear y + days_before_month y m + day - 1)"

definition msPerDay :: int where
  "msPerDay = 24 * 60 * 60 * 1000"

text \<open>
  \<^verbatim>\<open>new Date(year, month, day, 13, 0, 0, 0)\<close>: years 0 to 99 mean 1900 to 1999; \<open>toUTC\<close>
  turns the local time of the host into milliseconds since the epoch.
\<close>

definition new_local_date :: "(int \<Rightarrow> int) \<Rightarrow> int \<Rightarrow> int \<Rightarrow> int \<Rightarrow> int" where
  "new_local_date toUTC year month day =
     (let y = (if 0 \<le> year \<and> year \<le> 99 then 1900 + year else year)
      in toUTC (MakeDay y month day * msPerDay + 13 * 60 * 60 * 1000))"

text \<open>\<open>None\<close> is the invalid date, which a part that is no number gives.\<close>

definition parseDate :: "(int \<Rightarrow> int) \<Rightarrow> string \<Rightarrow> int option" where
  "parseDate toUTC isoDate =
     (let dateSplit = js_split isoDate ''-'';
          part = (\<lambda>i. if i < length dateSplit then parseInt (dateSplit ! i) else None)
      in case (part 0, part 1, part 2) of
           (Some year, Some month, Some day) \<Rightarrow> Some (new_local_date toUTC year (month - 1) day)
         | _ \<Rightarrow> None)"

definition getTimeRange :: "int \<Rightarrow> int" where
  "getTimeRange months = months * 30 * 24 * 60 * 60 * 1000"

end
