(* ===== verification/MenuBotService.thy ===== *)
theory MenuBotService
  imports GoodAccount Helper "HOL-Library.Product_Lexorder"
begin

text \<open>
  \<^verbatim>\<open>menu/server/src/BotService.ts\<close>: which book of a collection is the inventory book and
  which keeps the money of an exchange code, what a transaction of the inventory book is
  (purchase, sale, credit note), and the FIFO order of transactions.
\<close>

section \<open>Books of the collection\<close>

fun find_inventory_book :: "book list \<Rightarrow> book option" where
  "find_inventory_book [] = None"
| "find_inventory_book (connectedBook # bs) =
     (if truthy (b_properties connectedBook INVENTORY_BOOK_PROP) then Some connectedBook
      else if b_fractionDigits connectedBook = 0 then Some connectedBook
      else find_inventory_book bs)"

definition getInventoryBook :: "'w bkper_app \<Rightarrow> 'w \<Rightarrow> book \<Rightarrow> book option" where
  "getInventoryBook B w book =
     (case app_getBooks B w book of None \<Rightarrow> None | Some books \<Rightarrow> find_inventory_book books)"

definition hasPendingTasks :: "'w bkper_app \<Rightarrow> 'w \<Rightarrow> book \<Rightarrow> bool" where
  "hasPendingTasks B w book = (app_getBacklogCount B w book > 0)"

definition getExcCode :: "book \<Rightarrow> string option" where
  "getExcCode book =
     (case b_properties book EXC_CODE_PROP of
        Some v \<Rightarrow> Some v | None \<Rightarrow> b_properties book ''exchange_code'')"

fun find_financial_book :: "'w bkper_app \<Rightarrow> 'w \<Rightarrow> string \<Rightarrow> book list \<Rightarrow> book option" where
  "find_financial_book B w excCode [] = None"
| "find_financial_book B w excCode (connectedBook # bs) =
     (if b_fractionDigits connectedBook \<noteq> 0 \<and> Some excCode = getExcCode connectedBook
      then Some (app_getBook B w (b_id connectedBook))
      else find_financial_book B w excCode bs)"

definition getFinancialBook :: "'w bkper_app \<Rightarrow> 'w \<Rightarrow> book \<Rightarrow> string option \<Rightarrow> book option" where
  "getFinancialBook B w book excCode =
     (case (app_getBooks B w book, excCode) of
        (Some books, Some code) \<Rightarrow> find_financial_book B w code books
      | _ \<Rightarrow> None)"

section \<open>Kinds of transactions\<close>

definition isSale :: "transaction \<Rightarrow> bool" where
  "isSale t = (t_posted t \<and> a_type (t_debitAccount t) = OUTGOING)"

definition isPurchase :: "transaction \<Rightarrow> bool" where
  "isPurchase t = (t_posted t \<and> a_type (t_creditAccount t) = INCOMING)"

definition isCreditNote :: "transaction \<Rightarrow> bool" where
  "isCreditNote t =
     (t_posted t \<and> a_type (t_debitAccount t) = INCOMING \<and> t_prop t CREDIT_NOTE_PROP \<noteq> None)"

section \<open>FIFO order\<close>

definition order_value :: "transaction \<Rightarrow> jsnum" where
  "order_value t =
     (if truthy (t_prop t ORDER_PROP) then string_to_number (the (t_prop t ORDER_PROP)) else Num 0)"

text \<open>\<^verbatim>\<open>Date.getMilliseconds\<close> is the millisecond within the second.\<close>

definition getMilliseconds :: "int \<Rightarrow> int" where
  "getMilliseconds createdAt = createdAt mod 1000"

definition compareToFIFO :: "transaction \<Rightarrow> transaction \<Rightarrow> jsnum" where
  "compareToFIFO tx1 tx2 =
     (let ret = js_sub (Num (of_int (t_dateValue tx1))) (Num (of_int (t_dateValue tx2)));
          ret = (if js_eq ret (Num 0) then js_sub (order_value tx1) (order_value tx2) else ret)
      in if js_eq ret (Num 0) then
           (case (t_createdAt tx1, t_createdAt tx2) of
              (Some c1, Some c2) \<Rightarrow>
                js_sub (Num (of_int (getMilliseconds c1))) (Num (of_int (getMilliseconds c2)))
            | _ \<Rightarrow> ret)
         else ret)"

definition getBeforeDateIsoString :: "'w bkper_app \<Rightarrow> book \<Rightarrow> string \<Rightarrow> string" where
  "getBeforeDateIsoString B book toDateIsoString =
     (let toDate = app_parseDate B book toDateIsoString;
          beforeDate = app_toUTC B (app_toLocal B toDate + msPerDay)
      in app_formatDate B beforeDate (b_timeZone book))"

subsection \<open>The order is a key order on well-formed transactions\<close>

text \<open>
  A transaction is well-formed for ordering when its date and its order property are
  integers of less than 52 bits and its creation time is known.
\<close>

definition order_int :: "transaction \<Rightarrow> int" where
  "order_int t = (case order_value t of Num q \<Rightarrow> \<lfloor>q\<rfloor> | _ \<Rightarrow> 0)"

definition fifo_ok :: "transaction \<Rightarrow> bool" where
  "fifo_ok t =
     (\<bar>t_dateValue t\<bar> < 2 ^ 52 \<and> \<bar>order_int t\<bar> < 2 ^ 52
      \<and> order_value t = Num (of_int (order_int t)) \<and> t_createdAt t \<noteq> None)"

definition created_ms :: "transaction \<Rightarrow> int" where
  "created_ms t = (case t_createdAt t of Some c \<Rightarrow> getMilliseconds c | None \<Rightarrow> 0)"

definition fifo_key :: "transaction \<Rightarrow> int \<times> int \<times> int" where
  "fifo_key t = (t_dateValue t, order_int t, created_ms t)"

lemma js_sub_int:
  assumes "\<bar>a\<bar> < 2 ^ 52" and "\<bar>b\<bar> < 2 ^ 52"
  shows "js_sub (Num (of_int a)) (Num (of_int b)) = Num (of_int (a - b))"
proof -
  have "\<bar>a + - b\<bar> < 2 ^ 53" using assms by simp
  then show ?thesis using js_add_int [of a "- b"] by (simp add: js_sub_def)
qed

lemma getMilliseconds_small: "\<bar>getMilliseconds c\<bar> < 2 ^ 52"
proof -
  have "0 \<le> c mod 1000" and "c mod 1000 < 1000" by simp_all
  then show ?thesis by (simp add: getMilliseconds_def)
qed

lemma compareToFIFO_ok:
  assumes "fifo_ok x" and "fifo_ok y"
  shows "compareToFIFO x y =
    Num (of_int (if t_dateValue x \<noteq> t_dateValue y then t_dateValue x - t_dateValue y
                 else if order_int x \<noteq> order_int y then order_int x - order_int y
                 else created_ms x - created_ms y))"
proof -
  obtain c d where "t_createdAt x = Some c" and "t_createdAt y = Some d"
    using assms by (auto simp: fifo_ok_def)
  moreover note ms = js_sub_int [OF getMilliseconds_small getMilliseconds_small]
  ultimately show ?thesis
    using assms
    by (simp add: compareToFIFO_def fifo_ok_def js_sub_int ms js_eq_def
        created_ms_def Let_def flip: of_int_diff)
qed

interpretation fifo: keyed_comparison compareToFIFO fifo_key fifo_ok
proof unfold_locales
  fix x y
  assume "fifo_ok x" and "fifo_ok y"
  then show "js_less (compareToFIFO x y) (Num 0) \<longleftrightarrow> fifo_key x < fifo_key y"
    by (auto simp: compareToFIFO_ok fifo_key_def less_prod_def)
qed

lemma sorted_fifo:
  assumes "\<forall>t \<in> set ts. fifo_ok t"
  shows "sorted (map fifo_key (sort_js compareToFIFO ts))"
  using fifo.sort_js_sort_key [OF assms] by simp

end
