(* ===== verification/Summary.thy ===== *)
theory Summary
  imports JavaScript
begin

text \<open>
  \<^verbatim>\<open>menu/server/src/Summary.ts\<close>: the outcome of an operation on one account. The methods
  return the object they change, so each is a function from summary to summary.
\<close>

record summary =
  s_accountId :: string
  s_result :: string
  s_error :: bool

definition new_Summary :: "string \<Rightarrow> summary" where
  "new_Summary accountId =
     \<lparr>s_accountId = accountId, s_result = ''Nothing to calculate'', s_error = False\<rparr>"

definition setResult :: "string \<Rightarrow> summary \<Rightarrow> summary" where
  "setResult result s = s\<lparr>s_result := result\<rparr>"

definition summary_done :: "string option \<Rightarrow> summary \<Rightarrow> summary" where
  "summary_done msg s =
     (case msg of
        Some (c # m) \<Rightarrow> s\<lparr>s_result := c # m\<rparr>
      | _ \<Rightarrow> s\<lparr>s_result := ''Done! '' @ json_string (s_result s)\<rparr>)"

definition rebuild :: "summary \<Rightarrow> summary" where
  "rebuild s = s\<lparr>s_result := ''Account needs rebuild: reseting...''\<rparr>"

definition resetingAsync :: "summary \<Rightarrow> summary" where
  "resetingAsync s = s\<lparr>s_result := ''Reseted''\<rparr>"

definition calculatingAsync :: "summary \<Rightarrow> summary" where
  "calculatingAsync s = s\<lparr>s_result := ''Calculated''\<rparr>"

definition lockError :: "summary \<Rightarrow> summary" where
  "lockError s =
     s\<lparr>s_error := True, s_result := ''Cannot proceed: collection has locked/closed book(s)''\<rparr>"

definition salequantityError :: "summary \<Rightarrow> summary" where
  "salequantityError s =
     s\<lparr>s_error := True,
       s_result := ''Cannot proceed: sales quantity is greater than quantity purchased''\<rparr>"

definition creditNoteQuantityError :: "string \<Rightarrow> summary \<Rightarrow> summary" where
  "creditNoteQuantityError creditNote s =
     s\<lparr>s_error := True,
       s_result := ''Cannot proceed: credit note quantity is greater than purchased quantity. Credit note: ''
         @ creditNote\<rparr>"

definition summary_json :: "summary \<Rightarrow> summary" where
  "summary_json s = s\<lparr>s_result := json_string (s_result s)\<rparr>"

lemmas summary_defs =
  new_Summary_def setResult_def rebuild_def resetingAsync_def calculatingAsync_def
  lockError_def salequantityError_def creditNoteQuantityError_def

text \<open>The outcomes of the services are told apart by the error flag and the message.\<close>

lemma summary_outcomes [simp]:
  "s_error (calculatingAsync s) = s_error s" "s_error (resetingAsync s) = s_error s"
  "s_error (lockError s)" "s_error (salequantityError s)" "s_error (creditNoteQuantityError c s)"
  "\<not> s_error (new_Summary i)" "s_error (rebuild s) = s_error s" "s_error (setResult m s) = s_error s"
  by (simp_all add: summary_defs)

end
