(* ===== verification/ResetService.thy ===== *)
theory ResetService
  imports BatchProcessor MenuBotService Summary
begin

text \<open>
  \<^verbatim>\<open>menu/server/src/ResetCostOfSalesService.ts\<close>: undoing the calculation of one account.
\<close>

record reset_state =
  rs_store :: store
  rs_processor :: reset_processor

section \<open>One transaction\<close>

text \<open>A sale: its cost of sales transaction is trashed and its log and cost are removed.\<close>

definition reset_sale ::
    "'w bkper_app \<Rightarrow> 'w \<Rightarrow> book \<Rightarrow> ref \<Rightarrow> reset_state \<Rightarrow> reset_state" where
  "reset_sale B w financialBook r st =
     (let h = rs_store st; p = rs_processor st; tx = h r;
          p = (case app_getTransactions B w financialBook (''remoteId:'' @ t_id tx) of
                 [] \<Rightarrow> p
               | cogs # _ \<Rightarrow>
                   rp_setFinancialBookTransactionToTrash B w
                     (if t_checked cogs then cogs\<lparr>t_checked := False\<rparr> else cogs) p);
          tx = set_prop TOTAL_COST_PROP None (set_prop PURCHASE_LOG_PROP None tx);
          h = h(r := tx)
      in \<lparr>rs_store = h, rs_processor = rp_setInventoryBookTransactionToUpdate B w h r p\<rparr>)"

text \<open>A root purchase: quantity and cost go back to the recorded originals, the logs go.\<close>

definition reset_root_purchase ::
    "amount_lib \<Rightarrow> 'w bkper_app \<Rightarrow> 'w \<Rightarrow> ref \<Rightarrow> reset_state \<Rightarrow> reset_state result" where
  "reset_root_purchase A B w r st =
     (let h = rs_store st; tx = h r in
      bindR (require LibraryError (am_new A (t_prop tx GOOD_PURCHASE_COST_PROP))) (\<lambda>goodPurchaseCost.
      bindR (require LibraryError (am_new A (t_prop tx ORIGINAL_QUANTITY_PROP))) (\<lambda>originalQuantity.
      let tx = tx\<lparr>t_amount := originalQuantity\<rparr>;
          tx = set_prop TOTAL_COST_PROP (Some (am_toString A goodPurchaseCost)) tx;
          tx = set_prop LIQUIDATION_LOG_PROP None tx;
          tx = set_prop ADD_COSTS_PROP None tx;
          tx = set_prop CREDIT_NOTE_PROP None tx;
          h = h(r := tx)
      in Inr \<lparr>rs_store = h,
              rs_processor = rp_setInventoryBookTransactionToUpdate B w h r (rs_processor st)\<rparr>)))"

definition reset_purchase ::
    "amount_lib \<Rightarrow> 'w bkper_app \<Rightarrow> 'w \<Rightarrow> ref \<Rightarrow> reset_state \<Rightarrow> reset_state result" where
  "reset_purchase A B w r st =
     (let st = (if truthy (t_prop (rs_store st r) PARENT_ID)
                then st\<lparr>rs_processor :=
                       rp_setInventoryBookTransactionToTrash B w (rs_store st) r (rs_processor st)\<rparr>
                else st)
      in bindR (if truthy (t_prop (rs_store st r) ORIGINAL_QUANTITY_PROP)
                then reset_root_purchase A B w r st else Inr st) (\<lambda>st.
         Inr (if truthy (t_prop (rs_store st r) CREDIT_NOTE_PROP)
              then st\<lparr>rs_processor :=
                     rp_setInventoryBookTransactionToUpdate B w (rs_store st) r (rs_processor st)\<rparr>
              else st)))"

definition reset_transaction ::
    "amount_lib \<Rightarrow> 'w bkper_app \<Rightarrow> 'w \<Rightarrow> book \<Rightarrow> ref \<Rightarrow> reset_state \<Rightarrow> reset_state result" where
  "reset_transaction A B w financialBook r st =
     (let h = rs_store st;
          h = (if t_checked (h r) then h(r := (h r)\<lparr>t_checked := False\<rparr>) else h);
          st = st\<lparr>rs_store := h\<rparr>
      in if t_agentId (h r) = Some AGENT_ID then
           (if truthy (t_prop (h r) PURCHASE_LOG_PROP)
            then Inr (reset_sale B w financialBook r st)
            else reset_purchase A B w r st)
         else Inr st)"

section \<open>The service\<close>

definition reset_collect ::
    "amount_lib \<Rightarrow> 'w bkper_app \<Rightarrow> 'w \<Rightarrow> book \<Rightarrow> book \<Rightarrow> transaction list \<Rightarrow> reset_state result" where
  "reset_collect A B w inventoryBook financialBook transactions =
     forR (reset_transaction A B w financialBook) [0..<length transactions]
       \<lparr>rs_store = (\<lambda>i. transactions ! i),
        rs_processor = new_ResetCostOfSalesProcessor inventoryBook financialBook\<rparr>"

definition reset_account :: "good_account \<Rightarrow> good_account" where
  "reset_account goodAccount = setCOGSCalculationDate [] (clearNeedsRebuild goodAccount)"

definition resetCostOfSalesForAccount ::
    "amount_lib \<Rightarrow> 'w bkper_app \<Rightarrow> string \<Rightarrow> string \<Rightarrow> ('w, summary) action" where
  "resetCostOfSalesForAccount A B inventoryBookId goodAccountId w =
     (let summary = new_Summary goodAccountId;
          inventoryBook = app_getBook B w inventoryBookId
      in case app_getAccount B w inventoryBook (Some goodAccountId) of
           None \<Rightarrow> (Inl TypeError, w)
         | Some account \<Rightarrow>
             let goodAccount = new_GoodAccount account in
             (case getFinancialBook B w inventoryBook (getExchangeCode account) of
                None \<Rightarrow> (Inr summary, w)
              | Some financialBook \<Rightarrow>
                  (case reset_collect A B w inventoryBook financialBook
                          (app_getTransactions B w inventoryBook
                             (getAccountQuery (a_name account) None None)) of
                     Inl e \<Rightarrow> (Inl e, w)
                   | Inr st \<Rightarrow>
                       if rp_isAnyTransactionLocked (rs_processor st) then (Inr (lockError summary), w)
                       else
                         let w = rp_fireBatchOperations B (rs_store st) (rs_processor st) w;
                             w = app_updateAccount B inventoryBook (ga_account (reset_account goodAccount)) w
                         in (Inr (resetingAsync summary), w))))"

end
