(* ===== verification/CalculateService.thy ===== *)
theory CalculateService
  imports ResetService
begin

text \<open>
  \<^verbatim>\<open>menu/server/src/CalculateCostOfSalesService.ts\<close>: the cost of goods sold of one account
  by the FIFO method.
\<close>

section \<open>Logs\<close>

record liquidation_log_entry =
  ll_id :: string
  ll_dt :: string
  ll_qt :: string
  ll_uc :: string
  ll_rt :: string

record purchase_log_entry =
  pl_id :: string
  pl_qt :: string
  pl_uc :: string
  pl_rt :: string

text \<open>No caller passes the exchange rate, so \<^verbatim>\<open>excRate?.toString() || ''\<close> is empty.\<close>

definition getLiquidationLog :: "amount_lib \<Rightarrow> transaction \<Rightarrow> amount \<Rightarrow> liquidation_log_entry" where
  "getLiquidationLog A t costOfSalePerUnit =
     \<lparr>ll_id = t_id t, ll_dt = t_date t, ll_qt = am_toString A (t_amount t),
      ll_uc = am_toString A costOfSalePerUnit, ll_rt = []\<rparr>"

definition getPurchaseLog :: "amount_lib \<Rightarrow> amount \<Rightarrow> amount \<Rightarrow> transaction \<Rightarrow> purchase_log_entry" where
  "getPurchaseLog A quantity costOfSalePerUnit t =
     \<lparr>pl_id = t_id t, pl_qt = am_toString A quantity,
      pl_uc = am_toString A costOfSalePerUnit, pl_rt = []\<rparr>"

definition json_liquidation_log :: "liquidation_log_entry \<Rightarrow> string" where
  "json_liquidation_log e =
     json_object [(''id'', json_string (ll_id e)), (''dt'', json_string (ll_dt e)),
       (''qt'', json_string (ll_qt e)), (''uc'', json_string (ll_uc e)), (''rt'', json_string (ll_rt e))]"

definition json_purchase_log :: "purchase_log_entry \<Rightarrow> string" where
  "json_purchase_log e =
     json_object [(''id'', json_string (pl_id e)), (''qt'', json_string (pl_qt e)),
       (''uc'', json_string (pl_uc e)), (''rt'', json_string (pl_rt e))]"

definition json_purchase_log_entries :: "purchase_log_entry list \<Rightarrow> string" where
  "json_purchase_log_entries es = json_array (map json_purchase_log es)"

definition json_credit_note :: "jsnum \<Rightarrow> jsnum \<Rightarrow> string" where
  "json_credit_note quantity amt =
     json_object [(''quantity'', json_number quantity), (''amount'', json_number amt)]"

section \<open>Additional costs and credit notes of a purchase\<close>

text \<open>The test of one transaction of the financial book in the search window.\<close>

definition isAdditionalCost :: "string \<Rightarrow> string option \<Rightarrow> transaction \<Rightarrow> bool" where
  "isAdditionalCost financialAccountId purchaseCode tx =
     (t_checked tx \<and> a_id (t_debitAccount tx) = financialAccountId
      \<and> t_prop tx PURCHASE_CODE_PROP = purchaseCode
      \<and> t_prop tx PURCHASE_INVOICE_PROP \<noteq> None \<and> t_prop tx PURCHASE_INVOICE_PROP \<noteq> purchaseCode)"

definition isCreditOf :: "string \<Rightarrow> string option \<Rightarrow> transaction \<Rightarrow> bool" where
  "isCreditOf financialAccountId purchaseCode tx =
     (t_checked tx \<and> t_prop tx CREDIT_NOTE_PROP \<noteq> None
      \<and> t_prop tx PURCHASE_CODE_PROP = purchaseCode
      \<and> a_id (t_creditAccount tx) = financialAccountId)"

fun sum_costs_and_credits ::
    "string \<Rightarrow> string option \<Rightarrow> transaction list \<Rightarrow> amount \<times> amount \<Rightarrow> amount \<times> amount" where
  "sum_costs_and_credits acc code [] (totalAdditionalCosts, totalCreditAmount) =
     (totalAdditionalCosts, totalCreditAmount)"
| "sum_costs_and_credits acc code (tx # txs) (totalAdditionalCosts, totalCreditAmount) =
     sum_costs_and_credits acc code txs
       (if isAdditionalCost acc code tx then (totalAdditionalCosts + t_amount tx, totalCreditAmount)
        else if isCreditOf acc code tx then (totalAdditionalCosts, totalCreditAmount + t_amount tx)
        else (totalAdditionalCosts, totalCreditAmount))"

definition getAdditionalCostsAndCreditNotes ::
    "'w bkper_app \<Rightarrow> 'w \<Rightarrow> book \<Rightarrow> transaction \<Rightarrow> (amount \<times> amount) result" where
  "getAdditionalCostsAndCreditNotes B w financialBook inventoryTransaction =
     bindR (require LibraryError (parseDate (app_toUTC B) (t_date inventoryTransaction))) (\<lambda>transactionDate.
     let timeRange = getTimeRange ADDITIONAL_COSTS_CREDITS_QUERY_RANGE;
         beforeDateIsoString = app_formatDate B (transactionDate + timeRange) (b_timeZone financialBook);
         afterDateIsoString = app_formatDate B (transactionDate - timeRange) (b_timeZone financialBook);
         inventoryAccountName = a_name (t_debitAccount inventoryTransaction);
         query = getAccountQuery inventoryAccountName (Some beforeDateIsoString) (Some afterDateIsoString);
         purchaseCode = t_prop inventoryTransaction PURCHASE_CODE_PROP;
         transactions = app_getTransactions B w financialBook query
     in bindR (require TypeError (app_getAccount B w financialBook (Some inventoryAccountName)))
          (\<lambda>account. Inr (sum_costs_and_credits (a_id account) purchaseCode transactions (0, 0))))"

section \<open>Processing one sale\<close>

text \<open>The variables of the loop over the purchases.\<close>

record sale_state =
  ss_store :: store
  ss_processor :: calc_processor
  soldQuantity :: amount
  saleCost :: amount
  purchaseLogEntries :: "purchase_log_entry list"

text \<open>What the loop body computes of a purchase before it decides.\<close>

record purchase_info =
  pi_transactionQuantity :: amount
  pi_creditNotesQuantity :: jsnum
  pi_additionalCosts :: amount
  pi_creditNotesAmount :: amount
  pi_updatedCost :: amount
  pi_costOfSalePerUnit :: amount

definition purchase_costs ::
    "'w bkper_app \<Rightarrow> 'w \<Rightarrow> book \<Rightarrow> transaction \<Rightarrow> (amount \<times> amount) result" where
  "purchase_costs B w financialBook purchase =
     (if t_prop purchase CREDIT_NOTE_PROP = None \<and> t_prop purchase ADD_COSTS_PROP = None
      then getAdditionalCostsAndCreditNotes B w financialBook purchase
      else Inr (0, 0))"

definition read_purchase ::
    "amount_lib \<Rightarrow> 'w bkper_app \<Rightarrow> 'w \<Rightarrow> book \<Rightarrow> transaction \<Rightarrow> purchase_info result" where
  "read_purchase A B w financialBook purchase =
     bindR (require LibraryError (am_new A (t_prop purchase ORIGINAL_QUANTITY_PROP))) (\<lambda>originalQuantity.
     bindR (require LibraryError (am_new A (t_prop purchase TOTAL_COST_PROP))) (\<lambda>transactionCost.
     bindR (purchase_costs B w financialBook purchase) (\<lambda>(additionalCosts, creditNotesAmount).
     let transactionQuantity = t_amount purchase;
         updatedCost = transactionCost + additionalCosts - creditNotesAmount
     in bindR (require LibraryError (am_div A updatedCost transactionQuantity)) (\<lambda>costOfSalePerUnit.
        Inr \<lparr>pi_transactionQuantity = transactionQuantity,
             pi_creditNotesQuantity = am_toNumber A (originalQuantity - transactionQuantity),
             pi_additionalCosts = additionalCosts, pi_creditNotesAmount = creditNotesAmount,
             pi_updatedCost = updatedCost, pi_costOfSalePerUnit = costOfSalePerUnit\<rparr>))))"

text \<open>Sold quantity at least the purchase quantity: the purchase is used up and checked.\<close>

definition liquidated_purchase ::
    "amount_lib \<Rightarrow> transaction \<Rightarrow> purchase_info \<Rightarrow> transaction \<Rightarrow> transaction" where
  "liquidated_purchase A sale pinfo purchase =
     (set_prop CREDIT_NOTE_PROP
        (Some (json_credit_note (pi_creditNotesQuantity pinfo) (am_toNumber A (pi_creditNotesAmount pinfo))))
      (set_prop ADD_COSTS_PROP (Some (am_toString A (pi_additionalCosts pinfo)))
      (set_prop LIQUIDATION_LOG_PROP
        (Some (json_liquidation_log (getLiquidationLog A sale (pi_costOfSalePerUnit pinfo))))
      (set_prop TOTAL_COST_PROP (Some (am_toString A (pi_updatedCost pinfo))) purchase))))
      \<lparr>t_checked := True\<rparr>"

definition liquidate_purchase ::
    "amount_lib \<Rightarrow> 'w bkper_app \<Rightarrow> 'w \<Rightarrow> ref \<Rightarrow> ref \<Rightarrow> purchase_info \<Rightarrow> sale_state \<Rightarrow> sale_state" where
  "liquidate_purchase A B w saleRef r pinfo st =
     (let h = ss_store st;
          purchase = liquidated_purchase A (h saleRef) pinfo (h r);
          h' = h(r := purchase)
      in st\<lparr>ss_store := h',
            ss_processor := cp_setInventoryBookTransactionToUpdate B w h' r (ss_processor st),
            saleCost := saleCost st + pi_updatedCost pinfo,
            purchaseLogEntries := purchaseLogEntries st
              @ [getPurchaseLog A (pi_transactionQuantity pinfo) (pi_costOfSalePerUnit pinfo) purchase],
            soldQuantity := soldQuantity st - pi_transactionQuantity pinfo\<rparr>)"

text \<open>
  Sold quantity below the purchase quantity: the purchase keeps the rest of quantity and
  cost, and the sold part becomes a new checked transaction that points to its parent.
\<close>

definition remaining_purchase ::
    "amount_lib \<Rightarrow> amount \<Rightarrow> amount \<Rightarrow> purchase_info \<Rightarrow> transaction \<Rightarrow> transaction" where
  "remaining_purchase A remainingQuantity remainingCost pinfo purchase =
     (let creditNote = json_credit_note (pi_creditNotesQuantity pinfo) (am_toNumber A (pi_creditNotesAmount pinfo));
          tx = purchase\<lparr>t_amount := remainingQuantity\<rparr>;
          tx = set_prop TOTAL_COST_PROP (Some (am_toString A remainingCost)) tx;
          tx = set_prop ADD_COSTS_PROP (Some (am_toString A (pi_additionalCosts pinfo))) tx;
          tx = set_prop CREDIT_NOTE_PROP (Some creditNote) tx;
          tx = set_prop ADD_COSTS_PROP (Some (am_toString A (pi_additionalCosts pinfo))) tx
      in set_prop CREDIT_NOTE_PROP (Some creditNote) tx)"

definition splitted_purchase ::
    "amount_lib \<Rightarrow> transaction \<Rightarrow> amount \<Rightarrow> amount \<Rightarrow> purchase_info \<Rightarrow> string \<Rightarrow> string \<Rightarrow> transaction \<Rightarrow> transaction" where
  "splitted_purchase A sale partialBuyQuantity splittedCost pinfo purchaseCode remoteId purchase =
     new_transaction (t_date purchase) partialBuyQuantity (t_creditAccount purchase)
       (t_debitAccount purchase) (t_description purchase)
       (Map.empty
         (EXC_CODE_PROP := t_prop purchase EXC_CODE_PROP,
          PARENT_ID := Some (t_id purchase),
          PURCHASE_CODE_PROP := Some purchaseCode,
          TOTAL_COST_PROP := Some (am_toString A splittedCost),
          LIQUIDATION_LOG_PROP :=
            Some (json_liquidation_log (getLiquidationLog A sale (pi_costOfSalePerUnit pinfo))),
          ORDER_PROP := t_prop purchase ORDER_PROP))
       [remoteId] True"

definition split_purchase ::
    "amount_lib \<Rightarrow> 'w bkper_app \<Rightarrow> 'w \<Rightarrow> ref \<Rightarrow> ref \<Rightarrow> purchase_info \<Rightarrow> sale_state \<Rightarrow> sale_state result" where
  "split_purchase A B w saleRef r pinfo st =
     (let h = ss_store st;
          transactionQuantity = pi_transactionQuantity pinfo;
          remainingQuantity = transactionQuantity - soldQuantity st;
          partialBuyQuantity = transactionQuantity - remainingQuantity;
          splittedCost = partialBuyQuantity * pi_costOfSalePerUnit pinfo;
          remainingCost = pi_updatedCost pinfo - splittedCost;
          purchase = remaining_purchase A remainingQuantity remainingCost pinfo (h r);
          h' = h(r := purchase);
          p = cp_setInventoryBookTransactionToUpdate B w h' r (ss_processor st)
      in bindR (require TypeError (t_prop (h r) PURCHASE_CODE_PROP)) (\<lambda>purchaseCode.
         let (remoteId, p) = generateId B w p;
             splitted = splitted_purchase A (h' saleRef) partialBuyQuantity splittedCost pinfo
                          purchaseCode remoteId purchase;
             p = cp_setInventoryBookTransactionToCreate B w splitted p
         in Inr (st\<lparr>ss_store := h', ss_processor := p,
                    saleCost := saleCost st + splittedCost,
                    purchaseLogEntries := purchaseLogEntries st
                      @ [getPurchaseLog A partialBuyQuantity (pi_costOfSalePerUnit pinfo) purchase],
                    soldQuantity := soldQuantity st - partialBuyQuantity\<rparr>)))"

definition process_purchase ::
    "amount_lib \<Rightarrow> 'w bkper_app \<Rightarrow> 'w \<Rightarrow> book \<Rightarrow> ref \<Rightarrow> ref \<Rightarrow> sale_state \<Rightarrow> sale_state result" where
  "process_purchase A B w financialBook saleRef r st =
     bindR (read_purchase A B w financialBook (ss_store st r)) (\<lambda>pinfo.
       if soldQuantity st \<ge> pi_transactionQuantity pinfo
       then Inr (liquidate_purchase A B w saleRef r pinfo st)
       else split_purchase A B w saleRef r pinfo st)"

text \<open>The loop: checked purchases are skipped, and a sale that is fully covered ends it.\<close>

fun purchase_loop ::
    "amount_lib \<Rightarrow> 'w bkper_app \<Rightarrow> 'w \<Rightarrow> book \<Rightarrow> ref \<Rightarrow> ref list \<Rightarrow> sale_state \<Rightarrow> sale_state result" where
  "purchase_loop A B w financialBook saleRef [] st = Inr st"
| "purchase_loop A B w financialBook saleRef (r # rs) st =
     (if t_checked (ss_store st r) then purchase_loop A B w financialBook saleRef rs st
      else bindR (process_purchase A B w financialBook saleRef r st) (\<lambda>st.
             if soldQuantity st = 0 then Inr st
             else purchase_loop A B w financialBook saleRef rs st))"

text \<open>A sale whose quantity is covered gets its cost and its log and is checked.\<close>

definition settle_sale ::
    "amount_lib \<Rightarrow> 'w bkper_app \<Rightarrow> 'w \<Rightarrow> book \<Rightarrow> ref \<Rightarrow> sale_state \<Rightarrow> sale_state" where
  "settle_sale A B w inventoryBook saleRef st =
     (if am_round A (soldQuantity st) (b_fractionDigits inventoryBook) = 0 then
        (let h = ss_store st;
             h = (if purchaseLogEntries st \<noteq> []
                  then h(saleRef :=
                    (set_prop PURCHASE_LOG_PROP (Some (json_purchase_log_entries (purchaseLogEntries st)))
                     (set_prop TOTAL_COST_PROP (Some (am_toString A (saleCost st))) (h saleRef)))
                     \<lparr>t_checked := True\<rparr>)
                  else h)
         in st\<lparr>ss_store := h,
               ss_processor := cp_setInventoryBookTransactionToUpdate B w h saleRef (ss_processor st)\<rparr>)
      else st)"

section \<open>The cost of sales transaction\<close>

definition costOfSaleTransaction ::
    "amount_lib \<Rightarrow> 'w bkper_app \<Rightarrow> account option \<Rightarrow> account \<Rightarrow> transaction \<Rightarrow> amount \<Rightarrow> transaction" where
  "costOfSaleTransaction A B financialGoodAccount costOfSalesAccount sale cost =
     new_transaction (t_date sale) cost
       (case financialGoodAccount of Some a \<Rightarrow> a | None \<Rightarrow> app_nullAccount B) costOfSalesAccount
       (''#COGS '' @ t_description sale)
       (Map.empty
         (QUANTITY_SOLD_PROP := Some (number_to_string (am_toNumber A (t_amount sale))),
          SALE_INVOICE_PROP :=
            Some (case t_prop sale SALE_INVOICE_PROP of Some v \<Rightarrow> v | None \<Rightarrow> app_absent B)))
       [t_id sale] True"

text \<open>The account is created on the service when the financial book does not have it yet.\<close>

definition costOfSalesAccount ::
    "'w bkper_app \<Rightarrow> book \<Rightarrow> 'w \<Rightarrow> account \<times> 'w" where
  "costOfSalesAccount B financialBook w =
     (case app_getAccount B w financialBook (Some COGS_ACCOUNT) of
        Some a \<Rightarrow> (a, w)
      | None \<Rightarrow> app_createAccount B financialBook (new_account COGS_ACCOUNT OUTGOING) w)"

definition addCostOfSales ::
    "amount_lib \<Rightarrow> 'w bkper_app \<Rightarrow> book \<Rightarrow> transaction \<Rightarrow> amount \<Rightarrow> calc_processor \<Rightarrow> 'w \<Rightarrow> calc_processor \<times> 'w" where
  "addCostOfSales A B financialBook sale cost p w =
     (let (account, w) = costOfSalesAccount B financialBook w;
          financialGoodAccount = app_getAccount B w financialBook (Some (a_name (t_creditAccount sale)))
      in (cp_setFinancialBookTransactionToCreate B w
            (costOfSaleTransaction A B financialGoodAccount account sale cost) p, w))"

definition processSale ::
    "amount_lib \<Rightarrow> 'w bkper_app \<Rightarrow> book \<Rightarrow> book \<Rightarrow> ref \<Rightarrow> ref list \<Rightarrow> store \<times> calc_processor
     \<Rightarrow> ('w, store \<times> calc_processor) action" where
  "processSale A B financialBook inventoryBook saleRef purchases hp w =
     (case purchase_loop A B w financialBook saleRef purchases
             \<lparr>ss_store = fst hp, ss_processor = snd hp, soldQuantity = t_amount (fst hp saleRef),
              saleCost = 0, purchaseLogEntries = []\<rparr> of
        Inl e \<Rightarrow> (Inl e, w)
      | Inr st \<Rightarrow>
          (let st = settle_sale A B w inventoryBook saleRef st;
               (p, w) = addCostOfSales A B financialBook (ss_store st saleRef) (saleCost st) (ss_processor st) w
           in (Inr (ss_store st, p), w)))"

section \<open>Collecting the transactions of the account\<close>

record collected =
  co_sales :: "ref list"
  co_purchases :: "(string option, ref) js_map"
  co_creditNotes :: "(string, ref) js_map"
  co_totalSales :: jsnum
  co_totalPurchased :: jsnum

definition collect_one :: "amount_lib \<Rightarrow> store \<Rightarrow> ref \<Rightarrow> collected \<Rightarrow> collected" where
  "collect_one A h r c =
     (let tx = h r; q = am_toNumber A (t_amount tx) in
      if t_checked tx then c
      else
        let c = (if isSale tx
                 then c\<lparr>co_sales := co_sales c @ [r], co_totalSales := js_add (co_totalSales c) q\<rparr> else c);
            c = (if isPurchase tx
                 then c\<lparr>co_purchases := map_set (t_prop tx PURCHASE_CODE_PROP) r (co_purchases c),
                        co_totalPurchased := js_add (co_totalPurchased c) q\<rparr> else c)
        in (if isCreditNote tx
            then c\<lparr>co_creditNotes := map_set (the (t_prop tx CREDIT_NOTE_PROP)) r (co_creditNotes c),
                   co_totalPurchased := js_sub (co_totalPurchased c) q\<rparr> else c))"

definition collect :: "amount_lib \<Rightarrow> store \<Rightarrow> ref list \<Rightarrow> collected" where
  "collect A h rs =
     fold (collect_one A h) rs
       \<lparr>co_sales = [], co_purchases = map_empty, co_creditNotes = map_empty,
        co_totalSales = Num 0, co_totalPurchased = Num 0\<rparr>"

section \<open>Credit notes\<close>

definition credit_note_split ::
    "transaction \<Rightarrow> amount \<Rightarrow> string \<Rightarrow> string \<Rightarrow> transaction" where
  "credit_note_split purchase creditNoteQuantity purchaseCode creditNote =
     new_transaction (t_date purchase) creditNoteQuantity (t_creditAccount purchase)
       (t_debitAccount purchase) (t_description purchase)
       (Map.empty
         (PARENT_ID := Some (t_id purchase), PURCHASE_CODE_PROP := Some purchaseCode,
          CREDIT_NOTE_PROP := Some creditNote))
       [creditNote] True"

text \<open>
  One credit note: \<open>Inr (Inl s)\<close> is the early return with an error summary. The quantity of
  the credit note leaves the purchase it names and becomes a checked transaction.
\<close>

definition credit_note_step ::
    "amount_lib \<Rightarrow> 'w bkper_app \<Rightarrow> 'w \<Rightarrow> summary \<Rightarrow> string \<times> ref
     \<Rightarrow> store \<times> calc_processor \<times> (string option, ref) js_map
     \<Rightarrow> (summary + store \<times> calc_processor \<times> (string option, ref) js_map) result" where
  "credit_note_step A B w summary cn st =
     (case (cn, st) of ((creditNote, cr), (h, p, purchasesMap)) \<Rightarrow>
        let purchaseCode = t_prop (h cr) PURCHASE_CODE_PROP in
        (case map_get purchasesMap purchaseCode of
           None \<Rightarrow> Inr (Inr (h, p, purchasesMap))
         | Some r \<Rightarrow>
             let creditNoteQuantity = am_ofNumber A (am_toNumber A (t_amount (h cr)));
                 remainingQuantity = t_amount (h r) - creditNoteQuantity
             in if js_le (am_toNumber A remainingQuantity) (Num 0)
                then Inr (Inl (creditNoteQuantityError
                       (case t_prop (h cr) CREDIT_NOTE_PROP of Some v \<Rightarrow> v | None \<Rightarrow> app_absent B) summary))
                else bindR (require TypeError purchaseCode) (\<lambda>code.
                  let p = cp_setInventoryBookTransactionToCreate B w
                            (credit_note_split (h r) creditNoteQuantity code creditNote) p;
                      h = h(r := (h r)\<lparr>t_amount := remainingQuantity\<rparr>);
                      p = cp_setInventoryBookTransactionToUpdate B w h r p;
                      purchasesMap = map_set purchaseCode r purchasesMap;
                      h = h(cr := (h cr)\<lparr>t_checked := True\<rparr>);
                      p = cp_setInventoryBookTransactionToUpdate B w h cr p
                  in Inr (Inr (h, p, purchasesMap)))))"

fun credit_note_loop ::
    "amount_lib \<Rightarrow> 'w bkper_app \<Rightarrow> 'w \<Rightarrow> summary \<Rightarrow> (string \<times> ref) list
     \<Rightarrow> store \<times> calc_processor \<times> (string option, ref) js_map
     \<Rightarrow> (summary + store \<times> calc_processor \<times> (string option, ref) js_map) result" where
  "credit_note_loop A B w summary [] st = Inr (Inr st)"
| "credit_note_loop A B w summary (cn # cns) st =
     bindR (credit_note_step A B w summary cn st) (\<lambda>r.
       case r of Inl s \<Rightarrow> Inr (Inl s) | Inr st' \<Rightarrow> credit_note_loop A B w summary cns st')"

section \<open>The service\<close>

text \<open>The loop over the sales; a locked transaction ends it with the error summary.\<close>

fun sales_loop ::
    "amount_lib \<Rightarrow> 'w bkper_app \<Rightarrow> book \<Rightarrow> book \<Rightarrow> summary \<Rightarrow> ref list \<Rightarrow> ref list
     \<Rightarrow> store \<times> calc_processor \<Rightarrow> ('w, summary + store \<times> calc_processor) action" where
  "sales_loop A B financialBook inventoryBook summary purchases [] hp w = (Inr (Inr hp), w)"
| "sales_loop A B financialBook inventoryBook summary purchases (s # sales) hp w =
     (case processSale A B financialBook inventoryBook s purchases hp w of
        (Inl e, w) \<Rightarrow> (Inl e, w)
      | (Inr hp, w) \<Rightarrow>
          if cp_isAnyTransactionLocked (snd hp) then (Inr (Inl (lockError summary)), w)
          else sales_loop A B financialBook inventoryBook summary purchases sales hp w)"

definition storeLastCalcTxDate ::
    "'w bkper_app \<Rightarrow> book \<Rightarrow> store \<Rightarrow> good_account \<Rightarrow> ref list \<Rightarrow> 'w \<Rightarrow> 'w" where
  "storeLastCalcTxDate B inventoryBook h goodAccount sales w =
     (if sales = [] then w
      else let lastSaleTx = h (last sales);
               stored = getCOGSCalculationDateValue goodAccount
           in if stored = None \<or> js_less (the stored) (Num (of_int (t_dateValue lastSaleTx)))
              then app_updateAccount B inventoryBook
                     (ga_account (setCOGSCalculationDate (t_date lastSaleTx) goodAccount)) w
              else w)"

text \<open>FIFO order of references: the order of the objects they denote.\<close>

definition sort_fifo :: "store \<Rightarrow> ref list \<Rightarrow> ref list" where
  "sort_fifo h rs = sort_js (\<lambda>i j. compareToFIFO (h i) (h j)) rs"

definition calculate_collected ::
    "amount_lib \<Rightarrow> 'w bkper_app \<Rightarrow> book \<Rightarrow> book \<Rightarrow> good_account \<Rightarrow> summary \<Rightarrow> store \<Rightarrow> collected
     \<Rightarrow> ('w, summary) action" where
  "calculate_collected A B inventoryBook financialBook goodAccount summary h c w =
     (case credit_note_loop A B w summary (co_creditNotes c)
             (h, new_CalculateCostOfSalesProcessor inventoryBook financialBook, co_purchases c) of
        Inl e \<Rightarrow> (Inl e, w)
      | Inr (Inl s) \<Rightarrow> (Inr s, w)
      | Inr (Inr (h, p, purchasesMap)) \<Rightarrow>
          (let sales = sort_fifo h (co_sales c);
               purchases = sort_fifo h (map_values purchasesMap)
           in case sales_loop A B financialBook inventoryBook summary purchases sales (h, p) w of
                (Inl e, w) \<Rightarrow> (Inl e, w)
              | (Inr (Inl s), w) \<Rightarrow> (Inr s, w)
              | (Inr (Inr (h, p)), w) \<Rightarrow>
                  (let w = cp_fireBatchOperations B h p w;
                       w = storeLastCalcTxDate B inventoryBook h goodAccount sales w
                   in (Inr (calculatingAsync summary), w))))"

definition calculateCostOfSalesForAccount ::
    "amount_lib \<Rightarrow> 'w bkper_app \<Rightarrow> string \<Rightarrow> string \<Rightarrow> string option \<Rightarrow> ('w, summary) action" where
  "calculateCostOfSalesForAccount A B inventoryBookId goodAccountId toDate w =
     (let inventoryBook = app_getBook B w inventoryBookId;
          toDate = (if truthy toDate then the toDate else app_today B w inventoryBook)
      in case app_getAccount B w inventoryBook (Some goodAccountId) of
           None \<Rightarrow> (Inl TypeError, w)
         | Some account \<Rightarrow>
             let goodAccount = new_GoodAccount account; summary = new_Summary goodAccountId in
             if needsRebuild goodAccount then
               bindA (resetCostOfSalesForAccount A B inventoryBookId goodAccountId)
                 (\<lambda>_. returnA (rebuild summary)) w
             else
               (case getFinancialBook B w inventoryBook (getExchangeCode account) of
                  None \<Rightarrow> (Inr (setResult
                     (''Cannot proceed: financial book not found for good account '' @ a_name account) summary), w)
                | Some financialBook \<Rightarrow>
                    let beforeDate = getBeforeDateIsoString B inventoryBook toDate;
                        transactions = app_getTransactions B w inventoryBook
                          (getAccountQuery (a_name account) (Some beforeDate) None);
                        h = (\<lambda>i. transactions ! i);
                        c = collect A h [0..<length transactions]
                    in if js_eq (co_totalSales c) (Num 0) then (Inr summary, w)
                       else if js_less (co_totalPurchased c) (co_totalSales c)
                       then (Inr (salequantityError summary), w)
                       else calculate_collected A B inventoryBook financialBook goodAccount summary h c w))"

end
