(* ===== verification/MenuBot.thy ===== *)
theory MenuBot
  imports CalculateService "HOL-Library.List_Lexorder"
begin

text \<open>
  \<^verbatim>\<open>menu/server/src/Bot.ts\<close> and \<^verbatim>\<open>menu/server/src/BotViewService.ts\<close>: the functions the
  dialog of the menu calls on the server. Throwing a string is \<open>Thrown\<close>; calling a method
  of an object the service does not have is a \<open>TypeError\<close>.
\<close>

section \<open>The context of the dialog\<close>

text \<open>Identifier and name of a book, an account or a group.\<close>

record item =
  it_id :: string
  it_name :: string

record context_params =
  cx_book :: item
  cx_account :: "item option"
  cx_group :: "item option"

text \<open>The group of the inventory book is looked up by the name of the group that was opened.\<close>

definition getContextParams ::
    "'w bkper_app \<Rightarrow> 'w \<Rightarrow> string \<Rightarrow> string option \<Rightarrow> string option \<Rightarrow> context_params result" where
  "getContextParams B w bookIdParam accountIdParam groupIdParam =
     (let book = app_getBook B w bookIdParam in
      bindR (require (Thrown ''Inventory Book not found in the collection'') (getInventoryBook B w book)) (\<lambda>inventoryBook.
      let groupName = map_option g_name (app_getGroup B w book groupIdParam);
          inventoryAccount = (case app_getAccount B w book accountIdParam of
            None \<Rightarrow> None | Some account \<Rightarrow> app_getAccount B w inventoryBook (Some (a_name account)))
      in bindR (case groupName of
                  None \<Rightarrow> Inr None
                | Some name \<Rightarrow> bindR (require TypeError (app_getGroup B w inventoryBook (Some name)))
                    (\<lambda>g. Inr (Some \<lparr>it_id = g_id g, it_name = name\<rparr>))) (\<lambda>groupItem.
         Inr \<lparr>cx_book = \<lparr>it_id = b_id inventoryBook, it_name = b_name inventoryBook\<rparr>,
              cx_account = map_option (\<lambda>a. \<lparr>it_id = a_id a, it_name = a_name a\<rparr>) inventoryAccount,
              cx_group = groupItem\<rparr>)))"

text \<open>The variables of the template; evaluating it to HTML is the task of the platform.\<close>

record template =
  te_book :: item
  te_account :: "item option"
  te_group :: "item option"

definition getBotViewTemplate ::
    "'w bkper_app \<Rightarrow> 'w \<Rightarrow> string \<Rightarrow> string option \<Rightarrow> string option \<Rightarrow> template result" where
  "getBotViewTemplate B w bookId accountId groupId =
     (let book = app_getBook B w bookId in
      case getInventoryBook B w book of
        None \<Rightarrow> Inl (Thrown ''Inventory Book not found in the collection'')
      | Some inventoryBook \<Rightarrow>
          let groupName = map_option g_name (app_getGroup B w book groupId);
              inventoryAccount = (case app_getAccount B w book accountId of
                None \<Rightarrow> None | Some account \<Rightarrow> app_getAccount B w inventoryBook (Some (a_name account)))
          in bindR (case groupName of
                      None \<Rightarrow> Inr None
                    | Some name \<Rightarrow> (case app_getGroup B w inventoryBook (Some name) of
                        None \<Rightarrow> Inl TypeError | Some g \<Rightarrow> Inr (Some \<lparr>it_id = g_id g, it_name = name\<rparr>))) (\<lambda>groupItem.
             Inr \<lparr>te_book = \<lparr>it_id = b_id inventoryBook, it_name = b_name inventoryBook\<rparr>,
                  te_account = map_option (\<lambda>a. \<lparr>it_id = a_id a, it_name = a_name a\<rparr>) inventoryAccount,
                  te_group = groupItem\<rparr>))"

text \<open>The parameters of the request; the link of the menu always carries the book.\<close>

record request =
  rq_bookId :: string
  rq_accountId :: "string option"
  rq_groupId :: "string option"

definition doGet :: "'w bkper_app \<Rightarrow> 'w \<Rightarrow> request \<Rightarrow> template result" where
  "doGet B w e = getBotViewTemplate B w (rq_bookId e) (rq_accountId e) (rq_groupId e)"

definition noInventoryBook :: string where
  "noInventoryBook = ''Inventory Book not found in the collection. Please set the property ''
     @ INVENTORY_BOOK_PROP @ '' to the Inventory Book.''"

definition validate :: "'w bkper_app \<Rightarrow> 'w \<Rightarrow> string \<Rightarrow> unit result" where
  "validate B w bookId =
     bindR (require (Thrown noInventoryBook) (getInventoryBook B w (app_getBook B w bookId))) (\<lambda>inventoryBook.
       if hasPendingTasks B w inventoryBook
       then Inl (Thrown ''Cannot start operation: Inventory Book has pending tasks'')
       else Inr ())"

section \<open>Accounts to calculate\<close>

text \<open>\<^verbatim>\<open>accountsMap.set(account.getName(), account.getId())\<close> for the asset accounts of a list.\<close>

definition asset_map :: "account list \<Rightarrow> (string, string) js_map" where
  "asset_map accounts =
     fold (\<lambda>a m. if a_type a = ASSET then map_set (a_name a) (a_id a) m else m) accounts map_empty"

text \<open>
  \<^verbatim>\<open>sort()\<close> without a comparison function orders by the text of the elements; an entry
  prints as key, comma, value.
\<close>

definition entry_text :: "string \<times> string \<Rightarrow> nat list" where
  "entry_text e = map code_unit (fst e @ '','' @ snd e)"

definition getAccountsToCalculate ::
    "'w bkper_app \<Rightarrow> 'w \<Rightarrow> context_params \<Rightarrow> (string \<times> string) list result" where
  "getAccountsToCalculate B w contextParams =
     (let book = app_getBook B w (it_id (cx_book contextParams)) in
      bindR (require (Thrown noInventoryBook) (getInventoryBook B w book)) (\<lambda>inventoryBook.
      bindR (case cx_account contextParams of
               Some a \<Rightarrow>
                 bindR (require TypeError (app_getAccount B w inventoryBook (Some (it_id a)))) (\<lambda>account.
                   Inr (map_set (a_name account) (a_id account) map_empty))
             | None \<Rightarrow>
                 (case cx_group contextParams of
                    Some g \<Rightarrow>
                      bindR (require TypeError (app_getGroup B w inventoryBook (Some (it_id g)))) (\<lambda>gr.
                        Inr (asset_map (app_getGroupAccounts B w inventoryBook gr)))
                  | None \<Rightarrow> Inr (asset_map (app_getAccounts B w inventoryBook)))) (\<lambda>accountsMap.
      Inr (sort_key entry_text accountsMap))))"

text \<open>The accounts are processed one after the other; an exception ends the loop.\<close>

definition calculateCostOfSales ::
    "amount_lib \<Rightarrow> 'w bkper_app \<Rightarrow> context_params \<Rightarrow> string option \<Rightarrow> ('w, (string \<times> string) list) action" where
  "calculateCostOfSales A B contextParams toDate =
     bindA (readA (\<lambda>w. getAccountsToCalculate B w contextParams)) (\<lambda>accountsToCalculate.
       forA (\<lambda>(accountName, accountId) results.
         bindA (calculateCostOfSalesForAccount A B (it_id (cx_book contextParams)) accountId toDate) (\<lambda>summary.
           returnA (results @ [(accountName, s_result summary)])))
         accountsToCalculate [])"

section \<open>Accounts to reset\<close>

definition getAccountsToReset :: "'w bkper_app \<Rightarrow> 'w \<Rightarrow> context_params \<Rightarrow> account list result" where
  "getAccountsToReset B w contextParams =
     (let book = app_getBook B w (it_id (cx_book contextParams)) in
      bindR (require (Thrown noInventoryBook) (getInventoryBook B w book)) (\<lambda>inventoryBook.
        Inr (filter (\<lambda>a. a_type a = ASSET) (app_getAccounts B w inventoryBook))))"

text \<open>\<open>localeCompare\<close> is the comparison of the host for its locale, a parameter.\<close>

definition resetCostOfSales ::
    "amount_lib \<Rightarrow> 'w bkper_app \<Rightarrow> (string \<Rightarrow> string \<Rightarrow> jsnum) \<Rightarrow> context_params
     \<Rightarrow> ('w, (string \<times> string) list) action" where
  "resetCostOfSales A B localeCompare contextParams =
     bindA (readA (\<lambda>w. getAccountsToReset B w contextParams)) (\<lambda>accounts.
       forA (\<lambda>account results.
         bindA (resetCostOfSalesForAccount A B (it_id (cx_book contextParams)) (a_id account)) (\<lambda>summary.
           returnA (results @ [(a_name account, s_result summary)])))
         (sort_js (\<lambda>a b. localeCompare (a_name a) (a_name b)) accounts) [])"

section \<open>What the dialog is given\<close>

text \<open>The page and the parameters the client fetches afterwards describe the same objects.\<close>

definition params_of_template :: "template \<Rightarrow> context_params" where
  "params_of_template t = \<lparr>cx_book = te_book t, cx_account = te_account t, cx_group = te_group t\<rparr>"

lemma template_params:
  "getContextParams B w b a g =
     (case getBotViewTemplate B w b a g of Inl e \<Rightarrow> Inl e | Inr t \<Rightarrow> Inr (params_of_template t))"
  by (simp add: getContextParams_def getBotViewTemplate_def params_of_template_def require_def bindR_def Let_def
      split: option.splits sum.splits)

lemma asset_map_entries:
  assumes "map_inv m"
  shows "map_inv (fold (\<lambda>a m. if a_type a = ASSET then map_set (a_name a) (a_id a) m else m) accounts m)
    \<and> (\<forall>n. (map_get (fold (\<lambda>a m. if a_type a = ASSET then map_set (a_name a) (a_id a) m else m) accounts m) n \<noteq> None)
         \<longleftrightarrow> map_get m n \<noteq> None \<or> (\<exists>a \<in> set accounts. a_type a = ASSET \<and> a_name a = n))"
  using assms
  by (induction accounts arbitrary: m) (auto simp: js.inv_set js.get_set)

lemma asset_map_names:
  "distinct (map fst (asset_map accounts))"
  "set (map fst (asset_map accounts)) = a_name ` {a \<in> set accounts. a_type a = ASSET}"
proof -
  note e = asset_map_entries [OF js.inv_empty, of accounts, folded asset_map_def]
  from e show "distinct (map fst (asset_map accounts))" by (simp add: map_inv_def)
  have "n \<in> set (map fst (asset_map accounts)) \<longleftrightarrow> map_get (asset_map accounts) n \<noteq> None" for n
    by (force simp: map_get_def map_of_eq_None_iff)
  then show "set (map fst (asset_map accounts)) = a_name ` {a \<in> set accounts. a_type a = ASSET}"
    using e by (intro set_eqI) (auto simp: js.get_empty image_iff)
qed

end
