(* ===== verification/BotView.thy ===== *)
theory BotView
  imports MenuBot
begin

text \<open>
  \<^verbatim>\<open>menu/client/src/BotViewScript.ts\<close>: the dialog as a state machine. A function of the
  script is a function on the state of the page; \<^verbatim>\<open>google.script.run\<close> adds a call to the
  calls under way, and a step of the machine is the answer to such a call (the success or
  the failure handler runs) or a click on a button that is not disabled.
\<close>

section \<open>The page\<close>

datatype operation = Calculate | Reset

datatype server_call =
    GetLocation
  | GetContextParams request
  | GetAccountsToCalculate context_params
  | Validate string operation
  | Run operation "context_params option"

record view =
  v_params :: "context_params option"
  v_disabled :: bool
  v_list :: "string list"
  v_pending :: "server_call list"
  v_alerts :: "string list"

definition disableButtons :: "bool \<Rightarrow> view \<Rightarrow> view" where
  "disableButtons disable v = v\<lparr>v_disabled := disable\<rparr>"

definition run_server :: "server_call \<Rightarrow> view \<Rightarrow> view" where
  "run_server c v = v\<lparr>v_pending := v_pending v @ [c]\<rparr>"

text \<open>The page is loaded: the script asks for its location at once.\<close>

definition view_init :: view where
  "view_init = run_server GetLocation
     \<lparr>v_params = None, v_disabled = False, v_list = [], v_pending = [], v_alerts = []\<rparr>"

definition loadTemplate :: "request \<Rightarrow> view \<Rightarrow> view" where
  "loadTemplate location v = run_server (GetContextParams location) (disableButtons True v)"

definition setParams :: "context_params \<Rightarrow> view \<Rightarrow> view" where
  "setParams params v = run_server (GetAccountsToCalculate params) (v\<lparr>v_params := Some params\<rparr>)"

definition showAccountsList :: "(string \<times> string) list \<Rightarrow> view \<Rightarrow> view" where
  "showAccountsList accountsToCalculate v =
     disableButtons False
       (v\<lparr>v_list := v_list v @ map (\<lambda>a. ''<p>'' @ fst a @ ''</p>'') accountsToCalculate\<rparr>)"

text \<open>\<^verbatim>\<open>calculate\<close> and \<^verbatim>\<open>reset\<close> are the same function but for the operation they start.\<close>

definition start_operation :: "operation \<Rightarrow> view \<Rightarrow> view" where
  "start_operation op v =
     (let v = disableButtons True v in
      case v_params v of
        None \<Rightarrow> v
      | Some params \<Rightarrow> run_server (Validate (it_id (cx_book params)) op) v)"

definition view_calculate :: "view \<Rightarrow> view" where
  "view_calculate = start_operation Calculate"

definition view_reset :: "view \<Rightarrow> view" where
  "view_reset = start_operation Reset"

definition fireCalculateForAll :: "view \<Rightarrow> view" where
  "fireCalculateForAll v = run_server (Run Calculate (v_params v)) v"

definition fireResetForAll :: "view \<Rightarrow> view" where
  "fireResetForAll v = run_server (Run Reset (v_params v)) v"

definition fireForAll :: "operation \<Rightarrow> view \<Rightarrow> view" where
  "fireForAll op v = (case op of Calculate \<Rightarrow> fireCalculateForAll v | Reset \<Rightarrow> fireResetForAll v)"

lemma fireForAll_run: "fireForAll op v = run_server (Run op (v_params v)) v"
  by (cases op) (simp_all add: fireForAll_def fireCalculateForAll_def fireResetForAll_def)

definition showResults :: "(string \<times> string) list \<Rightarrow> view \<Rightarrow> view" where
  "showResults results v =
     disableButtons False
       (v\<lparr>v_list := map (\<lambda>a. ''<p>'' @ fst a @ '': &nbsp;'' @ snd a @ ''</p>'') results\<rparr>)"

definition showError :: "string \<Rightarrow> view \<Rightarrow> view" where
  "showError error v = v\<lparr>v_alerts := v_alerts v @ [error]\<rparr>"

text \<open>
  Closing the window raises an exception or not. A window that is still there afterwards,
  because the browser ignored the request, goes on unchanged.
\<close>

definition closeWindow :: "string option \<Rightarrow> view \<Rightarrow> view" where
  "closeWindow error v = (case error of None \<Rightarrow> v | Some m \<Rightarrow> showError m v)"

section \<open>Steps\<close>

text \<open>A call that was answered is no longer under way.\<close>

definition answered :: "server_call \<Rightarrow> view \<Rightarrow> view" where
  "answered c v = v\<lparr>v_pending := remove1 c (v_pending v)\<rparr>"

text \<open>The two calls of the start-up have no failure handler: their failure changes nothing.\<close>

definition has_failure_handler :: "server_call \<Rightarrow> bool" where
  "has_failure_handler c = (case c of Validate _ _ \<Rightarrow> True | Run _ _ \<Rightarrow> True | _ \<Rightarrow> False)"

inductive view_step :: "view \<Rightarrow> view \<Rightarrow> bool" where
  location: "GetLocation \<in> set (v_pending v) \<Longrightarrow> view_step v (loadTemplate l (answered GetLocation v))"
| params: "GetContextParams l \<in> set (v_pending v) \<Longrightarrow>
    view_step v (setParams ps (answered (GetContextParams l) v))"
| accounts: "GetAccountsToCalculate ps \<in> set (v_pending v) \<Longrightarrow>
    view_step v (showAccountsList xs (answered (GetAccountsToCalculate ps) v))"
| validated: "Validate b op \<in> set (v_pending v) \<Longrightarrow>
    view_step v (fireForAll op (answered (Validate b op) v))"
| results: "Run op ps \<in> set (v_pending v) \<Longrightarrow>
    view_step v (showResults xs (answered (Run op ps) v))"
| failure: "c \<in> set (v_pending v) \<Longrightarrow> c \<noteq> GetLocation \<Longrightarrow>
    view_step v (if has_failure_handler c then showError m (answered c v) else answered c v)"
| click_calculate: "\<not> v_disabled v \<Longrightarrow> view_step v (view_calculate v)"
| click_reset: "\<not> v_disabled v \<Longrightarrow> view_step v (view_reset v)"
| click_close: "\<not> v_disabled v \<Longrightarrow> view_step v (closeWindow error v)"

inductive view_reachable :: "view \<Rightarrow> bool" where
  start: "view_reachable view_init"
| step: "view_reachable v \<Longrightarrow> view_step v v' \<Longrightarrow> view_reachable v'"

inductive_cases view_stepE: "view_step v v'"

lemmas view_defs = disableButtons_def run_server_def loadTemplate_def setParams_def showAccountsList_def
  start_operation_def view_calculate_def view_reset_def fireForAll_run showResults_def showError_def answered_def
  closeWindow_def view_init_def Let_def

section \<open>One operation at a time\<close>

text \<open>
  The invariant: at most one call is under way, and the buttons are disabled while it is,
  except for the call for the location, during which there are no parameters yet.
\<close>

definition view_inv :: "view \<Rightarrow> bool" where
  "view_inv v =
     (length (v_pending v) \<le> 1
      \<and> (v_pending v \<noteq> [] \<longrightarrow> v_disabled v \<or> v_pending v = [GetLocation])
      \<and> (GetLocation \<in> set (v_pending v) \<longrightarrow> v_params v = None)
      \<and> (\<forall>op ps. Run op ps \<in> set (v_pending v) \<longrightarrow> v_params v = ps \<and> ps \<noteq> None)
      \<and> (\<forall>b op. Validate b op \<in> set (v_pending v) \<longrightarrow> (\<exists>ps. v_params v = Some ps \<and> b = it_id (cx_book ps))))"

lemma view_inv_init: "view_inv view_init"
  by (simp add: view_inv_def view_defs)

lemma view_inv_pending:
  assumes "view_inv v" and "c \<in> set (v_pending v)"
  shows "v_pending v = [c]"
  using assms by (cases "v_pending v") (auto simp: view_inv_def)

lemma view_inv_step:
  assumes "view_inv v" and "view_step v v'"
  shows "view_inv v'"
  using assms(2)
proof cases
  case (location l)
  with view_inv_pending [OF assms(1) location(2)] assms(1) show ?thesis by (simp add: view_inv_def view_defs)
next
  case (params l ps)
  with view_inv_pending [OF assms(1) params(2)] assms(1) show ?thesis by (simp add: view_inv_def view_defs)
next
  case (accounts ps xs)
  with view_inv_pending [OF assms(1) accounts(2)] show ?thesis by (simp add: view_inv_def view_defs)
next
  case (validated b op)
  with view_inv_pending [OF assms(1) validated(2)] assms(1) show ?thesis
    by (auto simp: view_inv_def view_defs split: option.splits)
next
  case (results op ps xs)
  with view_inv_pending [OF assms(1) results(2)] show ?thesis by (simp add: view_inv_def view_defs)
next
  case (failure c m)
  with view_inv_pending [OF assms(1) failure(2)] show ?thesis by (simp add: view_inv_def view_defs)
next
  case click_calculate
  with assms(1) show ?thesis by (auto simp: view_inv_def view_defs split: option.splits)
next
  case click_reset
  with assms(1) show ?thesis by (auto simp: view_inv_def view_defs split: option.splits)
next
  case (click_close error)
  with assms(1) show ?thesis by (cases error) (simp_all add: view_inv_def view_defs)
qed

lemma view_reachable_inv: "view_reachable v \<Longrightarrow> view_inv v"
  by (induction rule: view_reachable.induct) (auto intro: view_inv_init view_inv_step)

section \<open>Operations end\<close>

text \<open>How many answers the server still owes, once a call is under way.\<close>

fun call_rank :: "server_call \<Rightarrow> nat" where
  "call_rank GetLocation = 3"
| "call_rank (GetContextParams _) = 2"
| "call_rank (GetAccountsToCalculate _) = 1"
| "call_rank (Validate _ _) = 2"
| "call_rank (Run _ _) = 1"

lemma call_rank_pos [simp]: "0 < call_rank c" "call_rank c \<noteq> 0"
  by (cases c; simp)+

definition view_rank :: "view \<Rightarrow> nat" where
  "view_rank v = (\<Sum>c\<leftarrow>v_pending v. call_rank c)"

text \<open>A step that answers a call.\<close>

definition answer_step :: "view \<Rightarrow> view \<Rightarrow> bool" where
  "answer_step v v' = (view_step v v' \<and> v_pending v \<noteq> [] \<and> v_pending v' \<noteq> v_pending v)"

lemma answer_step_rank:
  assumes "view_inv v" and "answer_step v v'"
  shows "view_rank v' < view_rank v"
proof -
  have step: "view_step v v'" and ne: "v_pending v \<noteq> []" "v_pending v' \<noteq> v_pending v"
    using assms(2) by (simp_all add: answer_step_def)
  obtain c where c: "v_pending v = [c]"
    using ne(1) view_inv_pending [OF assms(1), of "hd (v_pending v)"] by simp
  from step c ne assms(1) show ?thesis
    by (cases rule: view_step.cases)
      (auto simp: view_rank_def view_defs view_inv_def split: option.splits if_splits)
qed

lemma view_rank_le_3:
  assumes "view_inv v"
  shows "view_rank v \<le> 3"
proof (cases "v_pending v")
  case (Cons c cs)
  then have "v_pending v = [c]" using view_inv_pending [OF assms, of c] by simp
  then show ?thesis by (cases c) (simp_all add: view_rank_def)
qed (simp add: view_rank_def)

lemma answer_steps_inv:
  assumes "view_inv v" and "(answer_step ^^ n) v u"
  shows "view_inv u"
  using assms(2)
proof (induction n arbitrary: u)
  case (Suc n)
  then obtain x where "(answer_step ^^ n) v x" and "answer_step x u" by auto
  then have "view_inv x" and "view_step x u" using Suc.IH by (blast, simp add: answer_step_def)
  then show ?case by (rule view_inv_step)
qed (simp add: assms(1))

lemma answer_steps_rank:
  "view_inv v \<Longrightarrow> (answer_step ^^ n) v v' \<Longrightarrow> n + view_rank v' \<le> view_rank v"
proof (induction n arbitrary: v')
  case (Suc n)
  then obtain u where u: "(answer_step ^^ n) v u" and step: "answer_step u v'" by auto
  from answer_step_rank [OF answer_steps_inv [OF Suc.prems(1) u] step] Suc.IH [OF Suc.prems(1) u] show ?case by simp
qed simp

end
