(* ===== verification/EventsService.thy ===== *)
theory EventsService
  imports Helper
begin

text \<open>
  The events package: the JSON payloads a webhook receives, the calls of the bkper-js
  library as a record of functions (a parameter of every definition that calls them), and
  \<^verbatim>\<open>events/src/BotService.ts\<close>. A call of the library may raise; calls that only read leave
  the state of the service alone.
\<close>

section \<open>Payloads\<close>

text \<open>Absent fields are \<open>None\<close>. A group carries the name of its parent, if it has one.\<close>

record group_payload =
  gp_name :: "string option"
  gp_parentName :: "string option"
  gp_properties :: "properties option"
  gp_hidden :: "bool option"

record account_payload =
  ap_id :: "string option"
  ap_name :: "string option"
  ap_type :: "account_type option"
  ap_properties :: "properties option"
  ap_archived :: "bool option"
  ap_groups :: "group_payload list option"

record transaction_payload =
  tp_id :: "string option"
  tp_date :: "string option"
  tp_dateValue :: "int option"
  tp_amount :: "string option"
  tp_description :: "string option"
  tp_posted :: bool
  tp_properties :: "properties option"
  tp_creditAccount :: "account_payload option"
  tp_debitAccount :: "account_payload option"
  tp_agentId :: "string option"
  tp_remoteIds :: "string list option"

text \<open>
  An event. The data may be missing, its object may be missing, and the operation in it
  may have no transaction.
\<close>

record event =
  ev_type :: string
  ev_book :: book
  ev_agentId :: "string option"
  ev_data :: "transaction_payload option option option"

definition tp_prop :: "transaction_payload \<Rightarrow> string \<Rightarrow> string option" where
  "tp_prop t k = (case tp_properties t of None \<Rightarrow> None | Some ps \<Rightarrow> ps k)"

text \<open>The answer of a handler; \<open>result_truthy\<close> is \<^verbatim>\<open>if (response.result)\<close>.\<close>

datatype result_value = RBool bool | RText string | RList "string list"

record event_result =
  er_result :: "result_value option"
  er_error :: "result_value option"
  er_warning :: "string option"

definition result_of :: "result_value \<Rightarrow> event_result" where
  "result_of v = \<lparr>er_result = Some v, er_error = None, er_warning = None\<rparr>"

definition error_of :: "string \<Rightarrow> event_result" where
  "error_of m = \<lparr>er_result = None, er_error = Some (RText m), er_warning = None\<rparr>"

fun value_truthy :: "result_value option \<Rightarrow> bool" where
  "value_truthy None = False"
| "value_truthy (Some (RBool b)) = b"
| "value_truthy (Some (RText s)) = (s \<noteq> [])"
| "value_truthy (Some (RList xs)) = True"

section \<open>The bkper-js library\<close>

text \<open>
  \<open>js_getBooks\<close> is the collection that comes with a book. \<open>js_undefined\<close> is how an absent
  value prints and \<open>js_noName\<close> the name of an account whose name was set to an absent
  value. \<open>js_message\<close> is \<^verbatim>\<open>error instanceof Error ? error.message : String(error)\<close>.
  Objects the library answers are new ones, so changing one does not change another.
\<close>

record 'w bkper_js =
  js_getBooks :: "'w \<Rightarrow> book \<Rightarrow> book list option"
  js_getBook :: "'w \<Rightarrow> string \<Rightarrow> book result"
  js_getAccount :: "'w \<Rightarrow> book \<Rightarrow> string option \<Rightarrow> account option result"
  js_getGroup :: "'w \<Rightarrow> book \<Rightarrow> string option \<Rightarrow> group option result"
  js_getGroups :: "'w \<Rightarrow> account \<Rightarrow> group list option result"
  js_listTransactions :: "'w \<Rightarrow> book \<Rightarrow> string option \<Rightarrow> transaction list result"
  js_getCreditAccount :: "'w \<Rightarrow> transaction \<Rightarrow> account option result"
  js_getDebitAccount :: "'w \<Rightarrow> transaction \<Rightarrow> account option result"
  js_getCreditAccountName :: "'w \<Rightarrow> transaction \<Rightarrow> string result"
  js_getDebitAccountName :: "'w \<Rightarrow> transaction \<Rightarrow> string result"
  js_createGroup :: "book \<Rightarrow> group \<Rightarrow> ('w, group) action"
  js_createAccount :: "book \<Rightarrow> account \<Rightarrow> ('w, account) action"
  js_updateAccount :: "account \<Rightarrow> ('w, unit) action"
  js_post :: "book \<Rightarrow> transaction \<Rightarrow> ('w, transaction) action"
  js_uncheck :: "transaction \<Rightarrow> ('w, transaction) action"
  js_trash :: "transaction \<Rightarrow> ('w, transaction) action"
  js_addGroup :: "group \<Rightarrow> account \<Rightarrow> account"
  js_parseDate :: "book \<Rightarrow> string \<Rightarrow> int"
  js_formatDate :: "int \<Rightarrow> string \<Rightarrow> string"
  js_getDateFormatted :: "transaction \<Rightarrow> string"
  js_undefined :: string
  js_noName :: string
  js_message :: "js_error \<Rightarrow> string"
  js_stack :: "js_error \<Rightarrow> string"

text \<open>An optional value in a template string.\<close>

definition js_show :: "'w bkper_js \<Rightarrow> string option \<Rightarrow> string" where
  "js_show S v = (case v of Some s \<Rightarrow> s | None \<Rightarrow> js_undefined S)"

definition getFirst :: "'a list \<Rightarrow> 'a option" where
  "getFirst xs = (case xs of [] \<Rightarrow> None | x # _ \<Rightarrow> Some x)"

section \<open>BotService\<close>

definition ev_isInventoryBook :: "book \<Rightarrow> bool" where
  "ev_isInventoryBook book = truthy (b_properties book INVENTORY_BOOK_PROP)"

definition ev_getQuantity :: "amount_lib \<Rightarrow> transaction_payload \<Rightarrow> amount option result" where
  "ev_getQuantity A t =
     (case tp_prop t QUANTITY_PROP of
        None \<Rightarrow> Inr None
      | Some quantityStr \<Rightarrow>
          if trim quantityStr = [] then Inr None
          else bindR (require LibraryError (am_new A (Some quantityStr))) (\<lambda>q. Inr (Some q)))"

definition ev_getInventoryBook :: "'w bkper_js \<Rightarrow> 'w \<Rightarrow> book \<Rightarrow> book option" where
  "ev_getInventoryBook S w book =
     (case js_getBooks S w book of
        None \<Rightarrow> None
      | Some connectedBooks \<Rightarrow> List.find ev_isInventoryBook connectedBooks)"

definition ev_getBookExcCode :: "book \<Rightarrow> string option" where
  "ev_getBookExcCode book =
     (case b_properties book EXC_CODE_PROP of
        Some v \<Rightarrow> Some v | None \<Rightarrow> b_properties book ''exchange_code'')"

definition ev_getFinancialBook :: "'w bkper_js \<Rightarrow> book \<Rightarrow> string option \<Rightarrow> ('w, book option) action" where
  "ev_getFinancialBook S book excCode =
     readA (\<lambda>w. case js_getBooks S w book of
        None \<Rightarrow> Inr None
      | Some connectedBooks \<Rightarrow>
          (case List.find (\<lambda>b. excCode = ev_getBookExcCode b) connectedBooks of
             None \<Rightarrow> Inr None
           | Some connectedBook \<Rightarrow> bindR (js_getBook S w (b_id connectedBook)) (\<lambda>b. Inr (Some b))))"

text \<open>The first exchange code among groups that is not blank.\<close>

fun first_exchange :: "string option list \<Rightarrow> string option" where
  "first_exchange [] = None"
| "first_exchange (c # cs) =
     (case c of
        Some excCode \<Rightarrow> if trim excCode \<noteq> [] then Some excCode else first_exchange cs
      | None \<Rightarrow> first_exchange cs)"

definition exchangeCodeOfAccount :: "'w bkper_js \<Rightarrow> account \<Rightarrow> ('w, string option) action" where
  "exchangeCodeOfAccount S account =
     (if a_type account = INCOMING \<or> a_type account = OUTGOING then returnA None
      else bindA (readA (\<lambda>w. js_getGroups S w account)) (\<lambda>groups.
        returnA (case groups of None \<Rightarrow> None
                 | Some gs \<Rightarrow> first_exchange (map (\<lambda>g. g_properties g EXC_CODE_PROP) gs))))"

definition exchangeCodeOfPayload :: "account_payload \<Rightarrow> string option" where
  "exchangeCodeOfPayload account =
     (if ap_type account = Some INCOMING \<or> ap_type account = Some OUTGOING then None
      else case ap_groups account of
             None \<Rightarrow> None
           | Some groups \<Rightarrow> first_exchange (map (\<lambda>g.
               case gp_properties g of None \<Rightarrow> None | Some ps \<Rightarrow> ps EXC_CODE_PROP) groups))"

definition ev_isSale :: "'w bkper_js \<Rightarrow> transaction \<Rightarrow> ('w, bool) action" where
  "ev_isSale S t =
     (if t_posted t then bindA (readA (\<lambda>w. js_getDebitAccount S w t)) (\<lambda>a.
        returnA (map_option a_type a = Some OUTGOING)) else returnA False)"

definition ev_isPurchase :: "'w bkper_js \<Rightarrow> transaction \<Rightarrow> ('w, bool) action" where
  "ev_isPurchase S t =
     (if t_posted t then bindA (readA (\<lambda>w. js_getCreditAccount S w t)) (\<lambda>a.
        returnA (map_option a_type a = Some INCOMING)) else returnA False)"

definition ev_getGoodAccount :: "'w bkper_js \<Rightarrow> transaction \<Rightarrow> ('w, account option) action" where
  "ev_getGoodAccount S goodTransaction =
     bindA (ev_isSale S goodTransaction) (\<lambda>sale.
       if sale then readA (\<lambda>w. js_getCreditAccount S w goodTransaction)
       else bindA (ev_isPurchase S goodTransaction) (\<lambda>purchase.
         if purchase then readA (\<lambda>w. js_getDebitAccount S w goodTransaction) else returnA None))"

definition buildBookAnchor :: "book \<Rightarrow> string" where
  "buildBookAnchor book =
     ''<a href='' @ [CHR 0x27] @ ''https://app.bkper.com/b/#transactions:bookId='' @ b_id book
     @ [CHR 0x27] @ ''>'' @ b_name book @ ''</a>''"

definition uncheckAndTrash :: "'w bkper_js \<Rightarrow> transaction \<Rightarrow> ('w, transaction) action" where
  "uncheckAndTrash S t =
     bindA (if t_checked t then js_uncheck S t else returnA t) (js_trash S)"

definition ev_getCOGSCalculationDateValue :: "account \<Rightarrow> jsnum option" where
  "ev_getCOGSCalculationDateValue account =
     (let cogsCalcDate = a_prop account COGS_CALC_DATE_PROP
      in if truthy cogsCalcDate then Some (string_to_number (replaceAll_dash (the cogsCalcDate))) else None)"

text \<open>Setting the flag and writing the account.\<close>

definition flagForRebuild :: "'w bkper_js \<Rightarrow> account \<Rightarrow> ('w, unit) action" where
  "flagForRebuild S account = js_updateAccount S (set_account_prop NEEDS_REBUILD_PROP (Some ''TRUE'') account)"

definition rebuild_message :: "'w bkper_js \<Rightarrow> book \<Rightarrow> ('w, string) action" where
  "rebuild_message S financialBook =
     readA (\<lambda>w. Inr (case ev_getInventoryBook S w financialBook of
        Some b \<Rightarrow> buildBookAnchor b @ '': Flagging account for rebuild''
      | None \<Rightarrow> ''Flagging account for rebuild''))"

definition flagInventoryAccountForRebuild ::
    "'w bkper_js \<Rightarrow> book \<Rightarrow> transaction \<Rightarrow> ('w, string option) action" where
  "flagInventoryAccountForRebuild S financialBook inventoryTransaction =
     bindA (ev_getGoodAccount S inventoryTransaction) (\<lambda>inventoryAccount.
       case inventoryAccount of
         None \<Rightarrow> returnA None
       | Some account \<Rightarrow>
           bindA (flagForRebuild S account) (\<lambda>_.
           bindA (rebuild_message S financialBook) (\<lambda>m. returnA (Some m))))"

definition flagInventoryAccountForRebuildIfNeeded ::
    "'w bkper_js \<Rightarrow> book \<Rightarrow> transaction \<Rightarrow> ('w, string option) action" where
  "flagInventoryAccountForRebuildIfNeeded S financialBook inventoryTransaction =
     bindA (ev_getGoodAccount S inventoryTransaction) (\<lambda>inventoryAccount.
       case inventoryAccount of
         None \<Rightarrow> returnA None
       | Some account \<Rightarrow>
           (case ev_getCOGSCalculationDateValue account of
              None \<Rightarrow> returnA None
            | Some lastTxDate \<Rightarrow>
                if js_le (Num (of_int (t_dateValue inventoryTransaction))) lastTxDate
                then bindA (flagForRebuild S account) (\<lambda>_.
                     bindA (rebuild_message S financialBook) (\<lambda>m. returnA (Some m)))
                else returnA None))"

definition ev_getAccountQuery :: "string \<Rightarrow> string option \<Rightarrow> string option \<Rightarrow> string" where
  "ev_getAccountQuery goodAccountName beforeDate afterDate =
     ''account:'' @ [CHR 0x27] @ goodAccountName @ [CHR 0x27]
     @ (if truthy afterDate then '' after:'' @ the afterDate else [])
     @ (if truthy beforeDate then '' before:'' @ the beforeDate else [])"

text \<open>Both packages send the same queries.\<close>

lemma ev_getAccountQuery_eq: "ev_getAccountQuery = getAccountQuery"
  by (simp add: fun_eq_iff ev_getAccountQuery_def getAccountQuery_def Let_def)

end
