(* ===== verification/EventHandlers.thy ===== *)
theory EventHandlers
  imports EventsService
begin

text \<open>
  The template methods of the event handlers (\<^verbatim>\<open>EventHandler.ts\<close>,
  \<^verbatim>\<open>EventHandlerTransaction.ts\<close>) as functions of what the subclasses override, and the
  handlers that do not create transactions: the interceptor that flags accounts, the
  handlers of posted, unchecked and updated transactions.
\<close>

section \<open>EventHandler\<close>

text \<open>What the handler makes of the text a subclass returned.\<close>

definition interpret_response :: "string option \<Rightarrow> event_result" where
  "interpret_response response =
     (if \<not> truthy response then result_of (RBool False)
      else
        let text = the response;
            parts = js_split text '' / '';
            warned = str_includes text ''WARNING'';
            warningMsg = (if warned \<and> 1 < length parts then Some (parts ! 1) else None);
            text = (if warned then parts ! 0 else text)
        in if str_includes text ''ERROR'' then error_of text
           else \<lparr>er_result = Some (RList [text]), er_error = None, er_warning = warningMsg\<rparr>)"

text \<open>\<^verbatim>\<open>try ... catch\<close> around an action: the exception becomes an answer.\<close>

definition catchA :: "('w, 'a) action \<Rightarrow> (js_error \<Rightarrow> 'a) \<Rightarrow> ('w, 'a) action" where
  "catchA m k w = (case m w of (Inl e, w') \<Rightarrow> (Inr (k e), w') | (Inr x, w') \<Rightarrow> (Inr x, w'))"

definition eh_handleEvent ::
    "'w bkper_js \<Rightarrow> (book \<Rightarrow> event \<Rightarrow> ('w, event_result) action)
     \<Rightarrow> (book \<Rightarrow> book \<Rightarrow> event \<Rightarrow> ('w, string option) action) \<Rightarrow> event \<Rightarrow> ('w, event_result) action" where
  "eh_handleEvent S intercept processObject event =
     bindA (intercept (ev_book event) event) (\<lambda>interceptionResponse.
       if value_truthy (er_result interceptionResponse) then returnA interceptionResponse
       else bindA (readA (\<lambda>w. Inr (ev_getInventoryBook S w (ev_book event)))) (\<lambda>inventoryBook.
         case inventoryBook of
           None \<Rightarrow> returnA (result_of
             (RText ''Inventory book not found in the collection (property inventory_book = true)''))
         | Some b \<Rightarrow>
             catchA (bindA (processObject (ev_book event) b event) (\<lambda>response.
                returnA (interpret_response response)))
               (\<lambda>error. error_of (js_message S error))))"

definition matchGoodExchange :: "string \<Rightarrow> string \<Rightarrow> bool" where
  "matchGoodExchange goodExcCode excCode = (trim goodExcCode = excCode)"

section \<open>EventHandlerTransaction\<close>

definition getTransactionQuery :: "'w bkper_js \<Rightarrow> transaction_payload \<Rightarrow> string" where
  "getTransactionQuery S t = ''remoteId:'' @ js_show S (tp_id t)"

definition getGoodExcCodeFromTransaction ::
    "'w bkper_js \<Rightarrow> transaction_payload \<Rightarrow> book \<Rightarrow> ('w, string option) action" where
  "getGoodExcCodeFromTransaction S t financialBook =
     (case tp_properties t of
        None \<Rightarrow> returnA None
      | Some properties \<Rightarrow>
          bindA (readA (\<lambda>w. js_getAccount S w financialBook (properties GOOD_PROP))) (\<lambda>goodAccount.
            case goodAccount of
              Some account \<Rightarrow> exchangeCodeOfAccount S account
            | None \<Rightarrow> returnA (case tp_debitAccount t of
                         None \<Rightarrow> None | Some account \<Rightarrow> exchangeCodeOfPayload account)))"

text \<open>
  \<open>query\<close>, \<open>found\<close> and \<open>notFound\<close> are the methods of the subclass.
\<close>

definition processObject ::
    "'w bkper_js \<Rightarrow> (transaction_payload \<Rightarrow> string result) \<Rightarrow> (book \<Rightarrow> transaction \<Rightarrow> ('w, string option) action)
     \<Rightarrow> (book \<Rightarrow> transaction_payload \<Rightarrow> string option \<Rightarrow> ('w, string option) action)
     \<Rightarrow> book \<Rightarrow> book \<Rightarrow> event \<Rightarrow> ('w, string option) action" where
  "processObject S query found notFound financialBook inventoryBook event =
     (case ev_data event of
        None \<Rightarrow> returnA None
      | Some object \<Rightarrow>
          bindA (liftR (require TypeError object)) (\<lambda>operation.
            case operation of
              None \<Rightarrow> returnA None
            | Some t \<Rightarrow>
                if \<not> tp_posted t then returnA None
                else bindA (getGoodExcCodeFromTransaction S t financialBook) (\<lambda>goodExcCode.
                  let excCode = ev_getBookExcCode financialBook in
                  if truthy goodExcCode \<and> truthy excCode \<and> \<not> matchGoodExchange (the goodExcCode) (the excCode)
                  then returnA None
                  else bindA (liftR (query t)) (\<lambda>q.
                    bindA (readA (\<lambda>w. js_listTransactions S w inventoryBook (Some q))) (\<lambda>txs.
                      case getFirst txs of
                        Some goodTransaction \<Rightarrow> found inventoryBook goodTransaction
                      | None \<Rightarrow> notFound inventoryBook t goodExcCode)))))"

section \<open>InterceptorFlagRebuild\<close>

text \<open>Somebody else than the bot touched a transaction of the inventory book.\<close>

definition flagRebuild_intercept :: "'w bkper_js \<Rightarrow> book \<Rightarrow> event \<Rightarrow> ('w, event_result) action" where
  "flagRebuild_intercept S eventBook event =
     (if ev_isInventoryBook eventBook \<and> ev_agentId event \<noteq> Some AGENT_ID then
        (case ev_data event of
           None \<Rightarrow> returnA (result_of (RBool False))
         | Some None \<Rightarrow> returnA (result_of (RBool False))
         | Some (Some operation) \<Rightarrow>
             bindA (liftR (require TypeError operation)) (\<lambda>transactionPayload.
             bindA (readA (\<lambda>w. js_listTransactions S w eventBook (tp_id transactionPayload))) (\<lambda>txs.
             bindA (case getFirst txs of None \<Rightarrow> returnA None | Some t \<Rightarrow> ev_getGoodAccount S t) (\<lambda>goodAccount.
               case goodAccount of
                 None \<Rightarrow> returnA (result_of (RBool False))
               | Some account \<Rightarrow>
                   if a_prop account NEEDS_REBUILD_PROP = None
                   then bindA (flagForRebuild S account) (\<lambda>_.
                     let msg = ''Flagging account '' @ a_name account @ '' for rebuild'' in
                     returnA \<lparr>er_result = Some (RText msg), er_error = None, er_warning = Some msg\<rparr>)
                   else returnA (result_of (RBool False))))))
      else returnA (result_of (RBool False)))"

section \<open>Posted, unchecked, updated\<close>

definition posted_handleEvent :: "'w bkper_js \<Rightarrow> event \<Rightarrow> ('w, event_result) action" where
  "posted_handleEvent S event =
     (if ev_isInventoryBook (ev_book event) then
        (case ev_data event of
           None \<Rightarrow> returnA (result_of (RBool False))
         | Some None \<Rightarrow> returnA (result_of (RBool False))
         | Some (Some operation) \<Rightarrow>
             bindA (liftR (require TypeError operation)) (\<lambda>transactionPayload.
             bindA (readA (\<lambda>w. js_listTransactions S w (ev_book event) (tp_id transactionPayload))) (\<lambda>txs.
             bindA (case getFirst txs of None \<Rightarrow> returnA () | Some t \<Rightarrow>
                      bindA (uncheckAndTrash S t) (\<lambda>_. returnA ())) (\<lambda>_.
               returnA \<lparr>er_result = None, er_error = None,
                 er_warning = Some (''You can'' @ [CHR 0x27]
                   @ ''t post directly in the Inventory book. Transaction deleted.'')\<rparr>))))
      else returnA (result_of (RBool False)))"

definition unchecked_handleEvent :: "'w bkper_js \<Rightarrow> event \<Rightarrow> ('w, event_result) action" where
  "unchecked_handleEvent S event =
     bindA (flagRebuild_intercept S (ev_book event) event) (\<lambda>response.
       returnA (if value_truthy (er_result response) then response else result_of (RBool False)))"

text \<open>No method of the handler of updates is implemented; nothing dispatches to it.\<close>

definition updated_handleEvent :: "'w bkper_js \<Rightarrow> event \<Rightarrow> ('w, event_result) action" where
  "updated_handleEvent S =
     eh_handleEvent S (\<lambda>_ _. returnA (result_of (RBool False)))
       (processObject S (\<lambda>_. Inl (Thrown ''Method not implemented.''))
          (\<lambda>_ _. throwA (Thrown ''Method not implemented.''))
          (\<lambda>_ _ _. throwA (Thrown ''Method not implemented.'')))"

end
