(* ===== verification/CheckedHandler.thy ===== *)
theory CheckedHandler
  imports EventHandlers
begin

text \<open>
  \<^verbatim>\<open>events/src/EventHandlerTransactionChecked.ts\<close>: a checked transaction of a financial
  book is replicated in the inventory book, as a sale, a purchase or a credit note.
\<close>

section \<open>Accounts of the inventory book\<close>

definition payload_name :: "'w bkper_js \<Rightarrow> account_payload \<Rightarrow> string" where
  "payload_name S a = (case ap_name a of Some n \<Rightarrow> n | None \<Rightarrow> js_noName S)"

text \<open>The group of the inventory book with the name of a group of the financial book.\<close>

definition ensure_group :: "'w bkper_js \<Rightarrow> book \<Rightarrow> group_payload \<Rightarrow> ('w, group \<times> bool) action" where
  "ensure_group S inventoryBook financialGroup =
     bindA (readA (\<lambda>w. js_getGroup S w inventoryBook (gp_name financialGroup))) (\<lambda>inventoryGroup.
       case inventoryGroup of
         Some g \<Rightarrow> returnA (g, False)
       | None \<Rightarrow>
           bindA (if truthy (gp_parentName financialGroup)
                  then readA (\<lambda>w. js_getGroup S w inventoryBook (gp_parentName financialGroup)) else returnA None) (\<lambda>parent.
           bindA (js_createGroup S inventoryBook
                    \<lparr>g_id = [], g_name = (case gp_name financialGroup of Some n \<Rightarrow> n | None \<Rightarrow> []),
                     g_properties = (case gp_properties financialGroup of Some p \<Rightarrow> p | None \<Rightarrow> Map.empty),
                     g_parent = map_option g_id parent,
                     g_hidden = (case gp_hidden financialGroup of Some b \<Rightarrow> b | None \<Rightarrow> False)\<rparr>) (\<lambda>g.
           returnA (g, True))))"

text \<open>The loop over the groups: each is added to the account; the flag notes a new group.\<close>

definition add_groups ::
    "'w bkper_js \<Rightarrow> book \<Rightarrow> group_payload list \<Rightarrow> account \<times> bool \<Rightarrow> ('w, account \<times> bool) action" where
  "add_groups S inventoryBook =
     forA (\<lambda>financialGroup (account, needsUpdate).
       bindA (ensure_group S inventoryBook financialGroup) (\<lambda>(g, created).
         returnA (js_addGroup S g account, needsUpdate \<or> created)))"

definition financial_groups :: "account_payload \<Rightarrow> group_payload list" where
  "financial_groups a = (case ap_groups a of Some gs \<Rightarrow> gs | None \<Rightarrow> [])"

definition financial_properties :: "account_payload \<Rightarrow> properties" where
  "financial_properties a = (case ap_properties a of Some p \<Rightarrow> p | None \<Rightarrow> Map.empty)"

definition financial_archived :: "account_payload \<Rightarrow> bool" where
  "financial_archived a = (case ap_archived a of Some b \<Rightarrow> b | None \<Rightarrow> False)"

definition createConnectedInventoryAccountOnPurchase ::
    "'w bkper_js \<Rightarrow> book \<Rightarrow> account_payload \<Rightarrow> ('w, account) action" where
  "createConnectedInventoryAccountOnPurchase S inventoryBook financialAccount =
     (let inventoryAccount = (new_account (payload_name S financialAccount) ASSET)
            \<lparr>a_properties := financial_properties financialAccount,
             a_archived := financial_archived financialAccount\<rparr>
      in bindA (add_groups S inventoryBook (financial_groups financialAccount) (inventoryAccount, False))
           (\<lambda>(inventoryAccount, _). js_createAccount S inventoryBook inventoryAccount))"

definition createConnectedInventoryAccountOnSale ::
    "'w bkper_js \<Rightarrow> book \<Rightarrow> string option \<Rightarrow> ('w, account) action" where
  "createConnectedInventoryAccountOnSale S inventoryBook goodAccountName =
     js_createAccount S inventoryBook
       (new_account (case goodAccountName of Some n \<Rightarrow> n | None \<Rightarrow> js_noName S) ASSET)"

text \<open>
  The properties of the account are always written: \<^verbatim>\<open>getProperties() != properties\<close> compares
  two different objects.
\<close>

definition checkInventoryAccount :: "'w bkper_js \<Rightarrow> book \<Rightarrow> account_payload \<Rightarrow> ('w, bool) action" where
  "checkInventoryAccount S inventoryBook financialAccount =
     bindA (readA (\<lambda>w. js_getAccount S w inventoryBook (ap_name financialAccount))) (\<lambda>found.
       case found of
         None \<Rightarrow> returnA False
       | Some inventoryAccount \<Rightarrow>
           let inventoryAccount = inventoryAccount\<lparr>a_properties := financial_properties financialAccount,
                 a_archived := financial_archived financialAccount\<rparr>
           in bindA (add_groups S inventoryBook (financial_groups financialAccount) (inventoryAccount, True))
                (\<lambda>(inventoryAccount, needsUpdate).
                   bindA (if needsUpdate then js_updateAccount S inventoryAccount else returnA ())
                     (\<lambda>_. returnA True)))"

text \<open>An account by its name, created with the given type when the book has none.\<close>

definition ensure_account :: "'w bkper_js \<Rightarrow> book \<Rightarrow> string \<Rightarrow> account_type \<Rightarrow> ('w, account) action" where
  "ensure_account S inventoryBook name ty =
     bindA (readA (\<lambda>w. js_getAccount S w inventoryBook (Some name))) (\<lambda>found.
       case found of
         Some a \<Rightarrow> returnA a
       | None \<Rightarrow> js_createAccount S inventoryBook (new_account name ty))"

definition checkLastTxDate :: "'w bkper_js \<Rightarrow> account \<Rightarrow> transaction_payload \<Rightarrow> ('w, bool) action" where
  "checkLastTxDate S goodAccount t =
     (case (ev_getCOGSCalculationDateValue goodAccount, tp_dateValue t) of
        (Some lastTxDate, Some d) \<Rightarrow>
          if js_le (Num (of_int d)) lastTxDate
          then bindA (flagForRebuild S goodAccount) (\<lambda>_. returnA True) else returnA False
      | _ \<Rightarrow> returnA False)"

section \<open>The three kinds of transactions\<close>

definition payload_amount :: "amount_lib \<Rightarrow> transaction_payload \<Rightarrow> amount result" where
  "payload_amount A t =
     (case tp_amount t of None \<Rightarrow> Inr (am_ofNumber A (Num 0)) | Some s \<Rightarrow> require LibraryError (am_new A (Some s)))"

definition payload_description :: "transaction_payload \<Rightarrow> string" where
  "payload_description t = (case tp_description t of Some s \<Rightarrow> s | None \<Rightarrow> [])"

definition sale_transaction ::
    "amount_lib \<Rightarrow> transaction_payload \<Rightarrow> amount \<Rightarrow> account \<Rightarrow> account \<Rightarrow> string option \<Rightarrow> amount \<Rightarrow> transaction" where
  "sale_transaction A t quantity inventoryAccount inventorySellAccount goodExcCode saleAmount =
     new_transaction (the (tp_date t)) quantity inventoryAccount inventorySellAccount (payload_description t)
       (Map.empty
         (SALE_INVOICE_PROP := tp_prop t SALE_INVOICE_PROP, ORDER_PROP := tp_prop t ORDER_PROP,
          SALE_AMOUNT_PROP := Some (am_toString A saleAmount), EXC_CODE_PROP := goodExcCode))
       [the (tp_id t)] False"

definition purchase_transaction ::
    "amount_lib \<Rightarrow> transaction_payload \<Rightarrow> amount \<Rightarrow> account \<Rightarrow> account \<Rightarrow> string option \<Rightarrow> amount \<Rightarrow> transaction" where
  "purchase_transaction A t quantity inventoryBuyAccount inventoryAccount goodExcCode cost =
     new_transaction (the (tp_date t)) quantity inventoryBuyAccount inventoryAccount (payload_description t)
       (Map.empty
         (PURCHASE_CODE_PROP := tp_prop t PURCHASE_CODE_PROP,
          ORIGINAL_QUANTITY_PROP := Some (am_toString A quantity),
          GOOD_PURCHASE_COST_PROP := Some (am_toString A cost), ORDER_PROP := tp_prop t ORDER_PROP,
          EXC_CODE_PROP := goodExcCode, TOTAL_COST_PROP := Some (am_toString A cost)))
       [the (tp_id t)] False"

definition credit_transaction ::
    "transaction_payload \<Rightarrow> amount \<Rightarrow> account \<Rightarrow> account \<Rightarrow> string option \<Rightarrow> transaction" where
  "credit_transaction t quantity inventoryAccount inventoryBuyAccount goodExcCode =
     new_transaction (the (tp_date t)) quantity inventoryAccount inventoryBuyAccount (payload_description t)
       (Map.empty
         (CREDIT_NOTE_PROP := tp_prop t CREDIT_NOTE_PROP, PURCHASE_CODE_PROP := tp_prop t PURCHASE_CODE_PROP,
          ORDER_PROP := tp_prop t ORDER_PROP, EXC_CODE_PROP := goodExcCode))
       [the (tp_id t)] False"

text \<open>The answer after a transaction was posted; \<open>from\<close> and \<open>to\<close> are the names it prints.\<close>

definition posted_response ::
    "amount_lib \<Rightarrow> 'w bkper_js \<Rightarrow> string \<Rightarrow> book \<Rightarrow> string \<Rightarrow> account \<Rightarrow> transaction \<Rightarrow> transaction_payload
     \<Rightarrow> ('w, string option) action" where
  "posted_response A S label inventoryBook from inventoryAccount newTransaction t =
     (let record = t_date newTransaction @ '' '' @ am_toString A (t_amount newTransaction) @ '' '' @ from @ '' ''
            @ a_name inventoryAccount @ '' '' @ t_description newTransaction;
          response = label @ '': '' @ buildBookAnchor inventoryBook @ '': '' @ record
      in bindA (checkLastTxDate S inventoryAccount t) (\<lambda>needsRebuild.
           returnA (Some (if needsRebuild
             then response @ '' / WARNING: Transaction date is before the last COGS calculation date. Flagging account ''
                    @ a_name inventoryAccount @ '' for rebuild''
             else response))))"

definition checked_sell ::
    "amount_lib \<Rightarrow> 'w bkper_js \<Rightarrow> book \<Rightarrow> transaction_payload \<Rightarrow> amount \<Rightarrow> string option \<Rightarrow> ('w, string option) action" where
  "checked_sell A S inventoryBook t quantity goodExcCode =
     bindA (readA (\<lambda>w. js_getAccount S w inventoryBook (tp_prop t GOOD_PROP))) (\<lambda>found.
     bindA (case found of Some a \<Rightarrow> returnA a
            | None \<Rightarrow> createConnectedInventoryAccountOnSale S inventoryBook (tp_prop t GOOD_PROP)) (\<lambda>inventoryAccount.
     bindA (ensure_account S inventoryBook GOOD_SELL_ACCOUNT_NAME OUTGOING) (\<lambda>inventorySellAccount.
     bindA (liftR (payload_amount A t)) (\<lambda>saleAmount.
     bindA (js_post S inventoryBook
              (sale_transaction A t quantity inventoryAccount inventorySellAccount goodExcCode saleAmount)) (\<lambda>newTransaction.
     posted_response A S ''SELL'' inventoryBook (a_name inventoryAccount) inventoryAccount newTransaction t)))))"

definition checked_buy ::
    "amount_lib \<Rightarrow> 'w bkper_js \<Rightarrow> book \<Rightarrow> transaction_payload \<Rightarrow> account_payload \<Rightarrow> amount \<Rightarrow> string option
     \<Rightarrow> ('w, string option) action" where
  "checked_buy A S inventoryBook t financialDebitAccount quantity goodExcCode =
     bindA (readA (\<lambda>w. js_getAccount S w inventoryBook (ap_name financialDebitAccount))) (\<lambda>found.
     bindA (case found of
              None \<Rightarrow> createConnectedInventoryAccountOnPurchase S inventoryBook financialDebitAccount
            | Some a \<Rightarrow> bindA (checkInventoryAccount S inventoryBook financialDebitAccount) (\<lambda>_. returnA a))
       (\<lambda>inventoryAccount.
     bindA (ensure_account S inventoryBook GOOD_BUY_ACCOUNT_NAME INCOMING) (\<lambda>inventoryBuyAccount.
     bindA (liftR (payload_amount A t)) (\<lambda>cost.
     bindA (js_post S inventoryBook
              (purchase_transaction A t quantity inventoryBuyAccount inventoryAccount goodExcCode cost)) (\<lambda>newTransaction.
     posted_response A S ''BUY'' inventoryBook (a_name inventoryBuyAccount) inventoryAccount newTransaction t)))))"

definition checked_credit ::
    "amount_lib \<Rightarrow> 'w bkper_js \<Rightarrow> book \<Rightarrow> transaction_payload \<Rightarrow> account_payload \<Rightarrow> amount \<Rightarrow> string option
     \<Rightarrow> ('w, string option) action" where
  "checked_credit A S inventoryBook t financialCreditAccount quantity goodExcCode =
     bindA (readA (\<lambda>w. js_getAccount S w inventoryBook (ap_name financialCreditAccount))) (\<lambda>found.
     bindA (case found of
              None \<Rightarrow> createConnectedInventoryAccountOnPurchase S inventoryBook financialCreditAccount
            | Some a \<Rightarrow> returnA a) (\<lambda>inventoryAccount.
     bindA (ensure_account S inventoryBook GOOD_BUY_ACCOUNT_NAME INCOMING) (\<lambda>inventoryBuyAccount.
     bindA (js_post S inventoryBook
              (credit_transaction t quantity inventoryAccount inventoryBuyAccount goodExcCode)) (\<lambda>newTransaction.
     posted_response A S ''CREDIT'' inventoryBook (a_name inventoryAccount) inventoryAccount newTransaction t))))"

section \<open>The handler\<close>

definition checked_notFound ::
    "amount_lib \<Rightarrow> 'w bkper_js \<Rightarrow> book \<Rightarrow> transaction_payload \<Rightarrow> string option \<Rightarrow> ('w, string option) action" where
  "checked_notFound A S inventoryBook t goodExcCode =
     (case (tp_debitAccount t, tp_creditAccount t, tp_properties t) of
        (Some debitAccount, Some creditAccount, Some properties) \<Rightarrow>
          if truthy (tp_date t) \<and> truthy (tp_id t) then
            bindA (liftR (ev_getQuantity A t)) (\<lambda>quantity.
              case quantity of
                None \<Rightarrow> returnA None
              | Some q \<Rightarrow>
                  if q = 0 then returnA None
                  else if truthy (properties SALE_INVOICE_PROP) then checked_sell A S inventoryBook t q goodExcCode
                  else if truthy (properties PURCHASE_INVOICE_PROP)
                  then checked_buy A S inventoryBook t debitAccount q goodExcCode
                  else if truthy (properties CREDIT_NOTE_PROP)
                  then checked_credit A S inventoryBook t creditAccount q goodExcCode
                  else returnA None)
          else returnA None
      | _ \<Rightarrow> returnA None)"

definition checked_found ::
    "amount_lib \<Rightarrow> 'w bkper_js \<Rightarrow> book \<Rightarrow> transaction \<Rightarrow> ('w, string option) action" where
  "checked_found A S inventoryBook goodTransaction =
     bindA (readA (\<lambda>w. js_getCreditAccountName S w goodTransaction)) (\<lambda>creditName.
     bindA (readA (\<lambda>w. js_getDebitAccountName S w goodTransaction)) (\<lambda>debitName.
     returnA (Some (''FOUND: '' @ buildBookAnchor inventoryBook @ '' '' @ t_date goodTransaction @ '' ''
       @ am_toString A (t_amount goodTransaction) @ '' '' @ creditName @ '' '' @ debitName @ '' ''
       @ t_description goodTransaction))))"

definition checked_handleEvent :: "amount_lib \<Rightarrow> 'w bkper_js \<Rightarrow> event \<Rightarrow> ('w, event_result) action" where
  "checked_handleEvent A S =
     eh_handleEvent S (flagRebuild_intercept S)
       (processObject S (\<lambda>t. Inr (getTransactionQuery S t)) (checked_found A S) (checked_notFound A S))"

end
