(* ===== verification/DeleteHandlers.thy ===== *)
theory DeleteHandlers
  imports CheckedHandler
begin

text \<open>
  Deletions: \<^verbatim>\<open>InterceptorOrderProcessorDelete.ts\<close> with its two subclasses, one for the
  financial books and one for the inventory book, the handler of deleted transactions,
  and the dispatch of \<^verbatim>\<open>index.ts\<close>.
\<close>

section \<open>InterceptorOrderProcessorDelete\<close>

text \<open>What the cascade reads of the deleted transaction, an object or a payload.\<close>

record deleted_tx =
  dt_id :: "string option"
  dt_originalQuantity :: "string option"
  dt_accountName :: string

definition deleted_of_payload :: "'w bkper_js \<Rightarrow> transaction_payload \<Rightarrow> deleted_tx" where
  "deleted_of_payload S t =
     \<lparr>dt_id = tp_id t, dt_originalQuantity = tp_prop t ORIGINAL_QUANTITY_PROP,
      dt_accountName = js_show S (case tp_debitAccount t of None \<Rightarrow> None | Some a \<Rightarrow> ap_name a)\<rparr>"

definition deleted_of_transaction :: "'w bkper_js \<Rightarrow> transaction \<Rightarrow> ('w, deleted_tx) action" where
  "deleted_of_transaction S t =
     bindA (readA (\<lambda>w. js_getDebitAccountName S w t)) (\<lambda>name.
       returnA \<lparr>dt_id = Some (t_id t), dt_originalQuantity = t_prop t ORIGINAL_QUANTITY_PROP,
                dt_accountName = name\<rparr>)"

text \<open>The transactions of the good that were split off the deleted one are trashed.\<close>

definition trash_splits ::
    "'w bkper_js \<Rightarrow> string option \<Rightarrow> transaction list \<Rightarrow> transaction list \<Rightarrow> ('w, transaction list) action" where
  "trash_splits S transactionId =
     forA (\<lambda>t responses.
       if t_prop t PARENT_ID = transactionId
       then bindA (uncheckAndTrash S t) (\<lambda>t'. returnA (responses @ [t']))
       else returnA responses)"

definition some_if_any :: "'a list \<Rightarrow> 'a list option" where
  "some_if_any xs = (if xs = [] then None else Some xs)"

definition cascadeDeleteInventoryTransactions ::
    "'w bkper_js \<Rightarrow> book \<Rightarrow> deleted_tx \<Rightarrow> ('w, transaction list option) action" where
  "cascadeDeleteInventoryTransactions S inventoryBook deletedTx =
     (if truthy (dt_originalQuantity deletedTx) then
        bindA (readA (\<lambda>w. js_listTransactions S w inventoryBook
                 (Some (''account:'' @ [CHR 0x27] @ dt_accountName deletedTx @ [CHR 0x27])))) (\<lambda>goodAccountTransactions.
        bindA (trash_splits S (dt_id deletedTx) goodAccountTransactions []) (\<lambda>responses.
        returnA (some_if_any responses)))
      else returnA None)"

text \<open>The cost of sales transaction of a sale carries the identifier of the sale.\<close>

definition cascadeDeleteFinancialTransactions ::
    "'w bkper_js \<Rightarrow> book \<Rightarrow> string option \<Rightarrow> ('w, transaction list option) action" where
  "cascadeDeleteFinancialTransactions S financialBook remoteId =
     bindA (readA (\<lambda>w. js_listTransactions S w financialBook (Some (''remoteId:'' @ js_show S remoteId)))) (\<lambda>txs.
       case getFirst txs of
         None \<Rightarrow> returnA None
       | Some tx \<Rightarrow> bindA (uncheckAndTrash S tx) (\<lambda>tx. returnA (Some [tx])))"

definition buildDeleteResponse :: "amount_lib \<Rightarrow> 'w bkper_js \<Rightarrow> transaction \<Rightarrow> ('w, string) action" where
  "buildDeleteResponse A S tx =
     bindA (readA (\<lambda>w. js_getCreditAccountName S w tx)) (\<lambda>creditName.
     bindA (readA (\<lambda>w. js_getDebitAccountName S w tx)) (\<lambda>debitName.
     returnA (''DELETED: '' @ js_getDateFormatted S tx @ '' '' @ am_toString A (t_amount tx) @ '' ''
       @ creditName @ '' '' @ debitName @ '' '' @ t_description tx)))"

definition buildDeleteResults ::
    "amount_lib \<Rightarrow> 'w bkper_js \<Rightarrow> book option \<Rightarrow> transaction list \<Rightarrow> ('w, string list) action" where
  "buildDeleteResults A S book responses =
     forA (\<lambda>response results.
       bindA (buildDeleteResponse A S response) (\<lambda>text.
         returnA (results @ [case book of Some b \<Rightarrow> buildBookAnchor b @ '': '' @ text | None \<Rightarrow> text])))
       responses []"

definition deleteTransactionByRemoteId ::
    "'w bkper_js \<Rightarrow> book \<Rightarrow> string option \<Rightarrow> ('w, transaction option) action" where
  "deleteTransactionByRemoteId S book remoteId =
     bindA (if truthy remoteId
            then bindA (readA (\<lambda>w. js_listTransactions S w book (Some (''remoteId:'' @ the remoteId))))
                   (\<lambda>txs. returnA (getFirst txs))
            else returnA None) (\<lambda>tx.
       case tx of
         None \<Rightarrow> returnA None
       | Some tx \<Rightarrow> bindA (uncheckAndTrash S tx) (\<lambda>tx. returnA (Some tx)))"

section \<open>A transaction of a financial book was deleted\<close>

definition deleteOnInventoryBook ::
    "'w bkper_js \<Rightarrow> book \<Rightarrow> string option \<Rightarrow> ('w, transaction list option) action" where
  "deleteOnInventoryBook S financialBook remoteId =
     bindA (readA (\<lambda>w. Inr (ev_getInventoryBook S w financialBook))) (\<lambda>inventoryBook.
       case inventoryBook of
         None \<Rightarrow> returnA None
       | Some inventoryBook \<Rightarrow>
           bindA (deleteTransactionByRemoteId S inventoryBook remoteId) (\<lambda>deletedInventoryTx.
             case deletedInventoryTx of
               None \<Rightarrow> returnA None
             | Some tx \<Rightarrow>
                 bindA (deleted_of_transaction S tx) (\<lambda>deletedTx.
                 bindA (cascadeDeleteInventoryTransactions S inventoryBook deletedTx) (\<lambda>inventoryResponses.
                 bindA (cascadeDeleteFinancialTransactions S financialBook (Some (t_id tx))) (\<lambda>financialResponses.
                   returnA (Some (tx # (case inventoryResponses of Some ts \<Rightarrow> ts | None \<Rightarrow> [])
                     @ (case financialResponses of Some ts \<Rightarrow> ts | None \<Rightarrow> []))))))))"

definition df_getAccountQuery ::
    "'w bkper_js \<Rightarrow> book \<Rightarrow> transaction_payload \<Rightarrow> ('w, string) action" where
  "df_getAccountQuery S inventoryBook t =
     (case tp_creditAccount t of
        Some creditAccount \<Rightarrow>
          if truthy (tp_date t) then
            let transactionDate = js_parseDate S inventoryBook (the (tp_date t));
                timeRange = getTimeRange ADDITIONAL_COSTS_CREDITS_QUERY_RANGE;
                beforeDateIsoString = js_formatDate S (transactionDate + timeRange) (b_timeZone inventoryBook);
                afterDateIsoString = js_formatDate S (transactionDate - timeRange) (b_timeZone inventoryBook)
            in bindA (readA (\<lambda>w. js_getAccount S w inventoryBook (ap_name creditAccount))) (\<lambda>inventoryAccount.
                 returnA (case inventoryAccount of
                   Some a \<Rightarrow> if a_name a = [] then []
                     else ev_getAccountQuery (a_name a) (Some beforeDateIsoString) (Some afterDateIsoString)
                 | None \<Rightarrow> []))
          else returnA []
      | None \<Rightarrow> returnA [])"

text \<open>The purchase was deleted: its replica, the parts of it and its costs of sales go.\<close>

definition df_purchase ::
    "amount_lib \<Rightarrow> 'w bkper_js \<Rightarrow> book \<Rightarrow> transaction_payload \<Rightarrow> string list \<Rightarrow> ('w, string list) action" where
  "df_purchase A S financialBook t responses =
     (if tp_prop t QUANTITY_PROP \<noteq> None \<and> tp_prop t PURCHASE_CODE_PROP \<noteq> None
         \<and> tp_prop t PURCHASE_CODE_PROP = tp_prop t PURCHASE_INVOICE_PROP then
        bindA (deleteOnInventoryBook S financialBook (tp_id t)) (\<lambda>deletedTxs.
          case deletedTxs of
            None \<Rightarrow> returnA responses
          | Some txs \<Rightarrow>
              bindA (buildDeleteResults A S (Some financialBook) txs) (\<lambda>results.
              bindA (flagInventoryAccountForRebuildIfNeeded S financialBook (hd txs)) (\<lambda>rebuildFlagMsg.
                returnA (responses @ results @ (if truthy rebuildFlagMsg then [the rebuildFlagMsg] else [])))))
      else returnA responses)"

text \<open>The purchase an additional cost belongs to, if a calculation has already used it.\<close>

definition used_by_fifo :: "amount_lib \<Rightarrow> transaction \<Rightarrow> bool result" where
  "used_by_fifo A t =
     bindR (case t_prop t ORIGINAL_QUANTITY_PROP of
              Some v \<Rightarrow> require LibraryError (am_new A (Some v)) | None \<Rightarrow> Inr (am_ofNumber A (Num 0)))
       (\<lambda>originalQuantity. Inr (\<not> js_eq (am_toNumber A originalQuantity) (am_toNumber A (t_amount t))))"

definition df_additional_cost ::
    "amount_lib \<Rightarrow> 'w bkper_js \<Rightarrow> book \<Rightarrow> transaction_payload \<Rightarrow> account_payload \<Rightarrow> string list
     \<Rightarrow> ('w, string list) action" where
  "df_additional_cost A S financialBook t creditAccount responses =
     (if tp_prop t PURCHASE_CODE_PROP \<noteq> None \<and> tp_prop t PURCHASE_CODE_PROP \<noteq> tp_prop t PURCHASE_INVOICE_PROP then
        bindA (readA (\<lambda>w. Inr (ev_getInventoryBook S w financialBook))) (\<lambda>inventoryBook.
          case inventoryBook of
            None \<Rightarrow> returnA responses
          | Some inventoryBook \<Rightarrow>
              bindA (readA (\<lambda>w. js_getAccount S w inventoryBook (ap_name creditAccount))) (\<lambda>goodAccount.
                case goodAccount of
                  None \<Rightarrow> returnA responses
                | Some goodAccount \<Rightarrow>
                    bindA (df_getAccountQuery S inventoryBook t) (\<lambda>query.
                    bindA (readA (\<lambda>w. js_listTransactions S w inventoryBook (Some query))) (\<lambda>transactions.
                      case List.find (\<lambda>x. t_prop x PURCHASE_CODE_PROP = tp_prop t PURCHASE_CODE_PROP) transactions of
                        None \<Rightarrow> returnA responses
                      | Some x \<Rightarrow>
                          bindA (liftR (used_by_fifo A x)) (\<lambda>used.
                            if used then
                              bindA (flagForRebuild S goodAccount) (\<lambda>_.
                                returnA (responses @ [''Flagging account '' @ a_name goodAccount @ '' for rebuild'']))
                            else returnA responses)))))
      else returnA responses)"

definition df_sale ::
    "amount_lib \<Rightarrow> 'w bkper_js \<Rightarrow> book \<Rightarrow> transaction_payload \<Rightarrow> account_payload \<Rightarrow> string list
     \<Rightarrow> ('w, string list) action" where
  "df_sale A S financialBook t debitAccount responses =
     (if tp_prop t GOOD_PROP \<noteq> None \<and> ap_type debitAccount = Some INCOMING then
        bindA (deleteOnInventoryBook S financialBook (tp_id t)) (\<lambda>deletedTxs.
          case deletedTxs of
            None \<Rightarrow> returnA responses
          | Some txs \<Rightarrow>
              bindA (flagInventoryAccountForRebuildIfNeeded S financialBook (hd txs)) (\<lambda>rebuildFlagMsg.
              bindA (buildDeleteResults A S (Some financialBook) txs) (\<lambda>results.
                returnA (responses @ results @ (if truthy rebuildFlagMsg then [the rebuildFlagMsg] else [])))))
      else returnA responses)"

text \<open>The loop over the remote identifiers ends at the first that names a transaction.\<close>

fun df_cogs_loop ::
    "'w bkper_js \<Rightarrow> book \<Rightarrow> book \<Rightarrow> string list \<Rightarrow> string list \<Rightarrow> ('w, string list) action" where
  "df_cogs_loop S financialBook inventoryBook [] responses = returnA responses"
| "df_cogs_loop S financialBook inventoryBook (remoteId # remoteIds) responses =
     bindA (readA (\<lambda>w. js_listTransactions S w inventoryBook (Some remoteId))) (\<lambda>txs.
       case getFirst txs of
         None \<Rightarrow> df_cogs_loop S financialBook inventoryBook remoteIds responses
       | Some tx \<Rightarrow>
           bindA (flagInventoryAccountForRebuild S financialBook tx) (\<lambda>response.
             returnA (if truthy response then responses @ [the response] else responses)))"

definition is_deleted_cogs :: "transaction_payload \<Rightarrow> bool" where
  "is_deleted_cogs t =
     (tp_agentId t = Some AGENT_ID
      \<and> (case tp_description t of Some d \<Rightarrow> str_includes d COGS_HASHTAG | None \<Rightarrow> False))"

definition df_cogs ::
    "'w bkper_js \<Rightarrow> book \<Rightarrow> transaction_payload \<Rightarrow> string list \<Rightarrow> ('w, string list) action" where
  "df_cogs S financialBook t responses =
     (if is_deleted_cogs t then
        bindA (readA (\<lambda>w. Inr (ev_getInventoryBook S w financialBook))) (\<lambda>inventoryBook.
          case (inventoryBook, tp_remoteIds t) of
            (Some b, Some remoteIds) \<Rightarrow> df_cogs_loop S financialBook b remoteIds responses
          | _ \<Rightarrow> returnA responses)
      else returnA responses)"

definition deleteFinancial_intercept ::
    "amount_lib \<Rightarrow> 'w bkper_js \<Rightarrow> book \<Rightarrow> event \<Rightarrow> ('w, event_result) action" where
  "deleteFinancial_intercept A S financialBook event =
     (case ev_data event of
        None \<Rightarrow> returnA (result_of (RBool False))
      | Some object \<Rightarrow>
          bindA (liftR (require TypeError object)) (\<lambda>operation.
            case operation of
              None \<Rightarrow> returnA (result_of (RBool False))
            | Some t \<Rightarrow>
                if \<not> tp_posted t then returnA (result_of (RBool False))
                else
                  (case (tp_properties t, tp_debitAccount t, tp_creditAccount t) of
                     (Some properties, Some debitAccount, Some creditAccount) \<Rightarrow>
                       if truthy (tp_id t) then
                         bindA (df_purchase A S financialBook t []) (\<lambda>responses.
                         bindA (df_additional_cost A S financialBook t creditAccount responses) (\<lambda>responses.
                         bindA (df_sale A S financialBook t debitAccount responses) (\<lambda>responses.
                         bindA (df_cogs S financialBook t responses) (\<lambda>responses.
                           returnA (result_of (if responses \<noteq> [] then RList responses else RBool False))))))
                       else returnA (result_of (RBool False))
                   | _ \<Rightarrow> returnA (result_of (RBool False)))))"

section \<open>A transaction of the inventory book was deleted\<close>

definition dg_getGoodAccount ::
    "'w bkper_js \<Rightarrow> book \<Rightarrow> transaction_payload \<Rightarrow> ('w, account option) action" where
  "dg_getGoodAccount S inventoryBook t =
     (let account_id = (\<lambda>a. case a of None \<Rightarrow> None | Some x \<Rightarrow> ap_id x);
          account_ty = (\<lambda>a. case a of None \<Rightarrow> None | Some x \<Rightarrow> ap_type x)
      in if account_ty (tp_debitAccount t) = Some INCOMING
         then readA (\<lambda>w. js_getAccount S w inventoryBook (account_id (tp_creditAccount t)))
         else if account_ty (tp_creditAccount t) = Some OUTGOING
         then readA (\<lambda>w. js_getAccount S w inventoryBook (account_id (tp_debitAccount t)))
         else returnA None)"

definition dg_root_purchase ::
    "amount_lib \<Rightarrow> 'w bkper_js \<Rightarrow> book \<Rightarrow> transaction_payload \<Rightarrow> account \<Rightarrow> ('w, event_result) action" where
  "dg_root_purchase A S inventoryBook t goodAccount =
     bindA (liftR (require LibraryError (am_new A (tp_prop t ORIGINAL_QUANTITY_PROP)))) (\<lambda>originalQuantity.
     bindA (liftR (payload_amount A t)) (\<lambda>amt.
       if \<not> js_eq (am_toNumber A originalQuantity) (am_toNumber A amt) then
         bindA (flagForRebuild S goodAccount) (\<lambda>_.
         bindA (cascadeDeleteInventoryTransactions S inventoryBook (deleted_of_payload S t)) (\<lambda>responses.
         bindA (case responses of None \<Rightarrow> returnA [] | Some txs \<Rightarrow> buildDeleteResults A S None txs) (\<lambda>results.
           returnA (result_of (RList ((''Flagging account '' @ a_name goodAccount @ '' for rebuild'') # results))))))
       else returnA (result_of (RBool False))))"

definition deleteGoods_intercept ::
    "amount_lib \<Rightarrow> 'w bkper_js \<Rightarrow> book \<Rightarrow> event \<Rightarrow> ('w, event_result) action" where
  "deleteGoods_intercept A S inventoryBook event =
     bindA (liftR (require TypeError (case ev_data event of None \<Rightarrow> None | Some object \<Rightarrow> object))) (\<lambda>operation.
       case operation of
         None \<Rightarrow> returnA (result_of (RBool False))
       | Some t \<Rightarrow>
           if \<not> tp_posted t then returnA (result_of (RBool False))
           else bindA (dg_getGoodAccount S inventoryBook t) (\<lambda>goodAccount.
             case goodAccount of
               None \<Rightarrow> returnA (result_of (RBool False))
             | Some goodAccount \<Rightarrow>
                 if truthy (tp_prop t ORIGINAL_QUANTITY_PROP)
                 then dg_root_purchase A S inventoryBook t goodAccount
                 else bindA (exchangeCodeOfAccount S goodAccount) (\<lambda>goodExcCode.
                   bindA (ev_getFinancialBook S inventoryBook goodExcCode) (\<lambda>financialBook.
                     case financialBook of
                       None \<Rightarrow> returnA (result_of (RBool False))
                     | Some fb \<Rightarrow>
                         bindA (cascadeDeleteFinancialTransactions S fb (tp_id t)) (\<lambda>responses.
                           case responses of
                             None \<Rightarrow> returnA (result_of (RBool False))
                           | Some txs \<Rightarrow> bindA (buildDeleteResults A S (Some fb) txs) (\<lambda>results.
                               returnA (result_of (RList results))))))))"

section \<open>The handler of deletions and the dispatch of events\<close>

definition deleted_handleEvent :: "amount_lib \<Rightarrow> 'w bkper_js \<Rightarrow> event \<Rightarrow> ('w, event_result) action" where
  "deleted_handleEvent A S =
     eh_handleEvent S
       (\<lambda>book event. if ev_isInventoryBook book then deleteGoods_intercept A S book event
                     else deleteFinancial_intercept A S book event)
       (processObject S (\<lambda>t. Inr (getTransactionQuery S t)) (\<lambda>_ _. returnA None) (\<lambda>_ _ _. returnA None))"

definition index_dispatch :: "amount_lib \<Rightarrow> 'w bkper_js \<Rightarrow> event \<Rightarrow> ('w, event_result) action" where
  "index_dispatch A S event =
     (if ev_type event = ''TRANSACTION_POSTED'' then posted_handleEvent S event
      else if ev_type event = ''TRANSACTION_CHECKED'' then checked_handleEvent A S event
      else if ev_type event = ''TRANSACTION_UNCHECKED'' then unchecked_handleEvent S event
      else if ev_type event = ''TRANSACTION_DELETED'' then deleted_handleEvent A S event
      else returnA (result_of (RBool False)))"

text \<open>The catch clause around the dispatch.\<close>

definition error_answer :: "'w bkper_js \<Rightarrow> js_error \<Rightarrow> event_result" where
  "error_answer S err =
     \<lparr>er_result = None,
      er_error = Some (if js_stack S err \<noteq> [] then RList (js_split (js_stack S err) [CHR 0x0A])
                       else RText (js_message S err)),
      er_warning = None\<rparr>"

text \<open>Reading the type of a missing body is inside the \<^verbatim>\<open>try\<close> as well.\<close>

definition index_handleEvent :: "amount_lib \<Rightarrow> 'w bkper_js \<Rightarrow> event option \<Rightarrow> ('w, event_result) action" where
  "index_handleEvent A S body =
     catchA (bindA (liftR (require TypeError body)) (index_dispatch A S)) (error_answer S)"

end
