(* ===== verification/DecimalLibrary.thy ===== *)
theory DecimalLibrary
  imports Bkper
begin

text \<open>
  An executable instance of the parameter \<open>amount_lib\<close>, used by the examples: amounts are
  printed in exponent notation (a half is \<^verbatim>\<open>50e-2\<close>) and read back exactly, a quotient is
  cut after twenty decimal places, numbers are the nearest doubles.
\<close>

section \<open>Every decimal has the form \<open>n / 10^d\<close> with its own denominator \<open>d\<close>\<close>

lemma dvd_power_ten:
  fixes d :: nat
  assumes "d dvd 10 ^ j" and "0 < d"
  shows "d dvd 10 ^ d"
  using assms
proof (induction d rule: less_induct)
  case (less d)
  show ?case
  proof (cases "d = 1")
    case True
    then show ?thesis by simp
  next
    case False
    define g where "g = gcd d 10"
    have "g \<noteq> 1"
    proof
      assume "g = 1"
      then have "coprime d 10" by (simp add: g_def coprime_iff_gcd_eq_1)
      then have "coprime d (10 ^ j)" by simp
      with less.prems(1) have "d dvd 1" by (meson coprime_common_divisor dvd_refl)
      with False show False by simp
    qed
    moreover have "g \<noteq> 0" by (simp add: g_def)
    ultimately have g: "1 < g" by simp
    obtain e where e: "d = g * e" unfolding g_def by (metis dvdE gcd_dvd1)
    have e0: "0 < e" and ed: "e < d" using less.prems(2) g by (auto simp: e)
    moreover have "e dvd 10 ^ j" using less.prems(1) e by (metis dvd_mult_right)
    ultimately have "e dvd 10 ^ e" by (intro less.IH)
    moreover have "g dvd 10" by (simp add: g_def)
    ultimately have "d dvd 10 ^ Suc e" by (simp add: e mult_dvd_mono)
    also have "10 ^ Suc e dvd (10 :: nat) ^ d" using ed by (intro le_imp_power_dvd) simp
    finally show ?thesis .
  qed
qed

text \<open>The numerator of an amount over \<open>10^d\<close>.\<close>

definition denominator :: "amount \<Rightarrow> nat" where
  "denominator x = nat (snd (quotient_of (rat_of_amount x)))"

definition numerator :: "amount \<Rightarrow> int" where
  "numerator x = \<lfloor>rat_of_amount x * 10 ^ denominator x\<rfloor>"

lemma rat_of_amount_decimal: "is_decimal (rat_of_amount x)"
  by transfer simp

lemma decimal_numerator: "decimal (numerator x) (denominator x) = x"
proof -
  obtain n d where nd: "quotient_of (rat_of_amount x) = (n, d)" by force
  have q: "rat_of_amount x = of_int n / of_int d" using nd by (rule quotient_of_div)
  have d: "0 < d" using nd by (rule quotient_of_denom_pos)
  obtain k m where "rat_of_amount x * 10 ^ k = of_int m"
    using rat_of_amount_decimal [of x] by (auto simp: is_decimal_def)
  then have "of_int (n * 10 ^ k) = (of_int (m * d) :: rat)"
    using d by (simp add: q field_simps)
  then have "d dvd n * 10 ^ k" by (simp only: of_int_eq_iff) simp
  moreover have "coprime n d" using nd by (rule quotient_of_coprime)
  ultimately have "d dvd 10 ^ k" by (simp add: coprime_commute coprime_dvd_mult_right_iff)
  then have "nat d dvd 10 ^ k" using d
    by (metis int_dvd_int_iff of_nat_numeral of_nat_power zero_less_imp_eq_int nat_int)
  with d have "nat d dvd 10 ^ nat d" by (intro dvd_power_ten) simp_all
  then obtain c where c: "10 ^ nat d = nat d * c" by (auto simp: dvd_def)
  have "(10 :: rat) ^ nat d = of_int d * of_nat c"
    using arg_cong [OF c, of "of_nat :: nat \<Rightarrow> rat"] d by simp
  moreover have "denominator x = nat d" by (simp add: denominator_def nd)
  ultimately have "rat_of_amount x * 10 ^ denominator x = of_int (n * int c)"
    using d by (simp add: q)
  then have "rat_of_amount (decimal (numerator x) (denominator x)) = rat_of_amount x"
    by (simp add: numerator_def field_simps)
  then show ?thesis by (simp only: rat_of_amount_eq_iff)
qed

section \<open>Printing and reading\<close>

definition show_amount :: "amount \<Rightarrow> string" where
  "show_amount x =
     (if numerator x < 0 then ''-'' else []) @ show_nat (nat \<bar>numerator x\<bar>) @ ''e-''
     @ show_nat (denominator x)"

definition read_unsigned :: "string \<Rightarrow> (int \<times> nat) option" where
  "read_unsigned s =
     (let ds = takeWhile is_digit s; r = dropWhile is_digit s
      in if ds \<noteq> [] \<and> prefix ''e-'' r \<and> drop 2 r \<noteq> [] \<and> list_all is_digit (drop 2 r)
         then Some (int (digits_value ds), digits_value (drop 2 r)) else None)"

definition read_amount :: "string \<Rightarrow> amount option" where
  "read_amount s =
     (case s of
        c # r \<Rightarrow> if c = CHR ''-'' then map_option (\<lambda>(n, k). decimal (- n) k) (read_unsigned r)
                else map_option (\<lambda>(n, k). decimal n k) (read_unsigned s)
      | [] \<Rightarrow> None)"

lemma read_unsigned_show:
  "read_unsigned (show_nat n @ ''e-'' @ show_nat k) = Some (int n, k)"
proof -
  have e: "\<not> is_digit CHR ''e''" by (simp add: is_digit_def code_unit_def)
  have ds: "takeWhile is_digit (show_nat n @ ''e-'' @ show_nat k) = show_nat n"
    using e by (subst takeWhile_append2) (auto simp: show_nat_is_digit)
  have r: "dropWhile is_digit (show_nat n @ ''e-'' @ show_nat k) = ''e-'' @ show_nat k"
    using e by (subst dropWhile_append2) (auto simp: show_nat_is_digit)
  show ?thesis
    by (simp only: read_unsigned_def ds r Let_def) (simp add: list_all_iff show_nat_is_digit)
qed

lemma read_show_amount [simp]: "read_amount (show_amount x) = Some x"
proof (cases "numerator x < 0")
  case True
  then show ?thesis
    by (simp add: read_amount_def show_amount_def read_unsigned_show [simplified] decimal_numerator)
next
  case False
  obtain c r where cr: "show_nat (nat (numerator x)) = c # r"
    by (cases "show_nat (nat (numerator x))") auto
  then have "is_digit c" using show_nat_is_digit [of c "nat (numerator x)"] by simp
  then have "c \<noteq> CHR ''-''" using nondigit_chars by auto
  with False cr read_unsigned_show [of "nat (numerator x)" "denominator x"] show ?thesis
    by (simp add: read_amount_def show_amount_def decimal_numerator)
qed

definition amount_of_number :: "jsnum \<Rightarrow> amount" where
  "amount_of_number v =
     (case v of Num q \<Rightarrow> (case quotient_of q of (n, d) \<Rightarrow> decimal (n * (10 ^ nat d div d)) (nat d)) | _ \<Rightarrow> 0)"

definition decimal_lib :: amount_lib where
  "decimal_lib =
     \<lparr>am_new = (\<lambda>s. case s of None \<Rightarrow> None | Some v \<Rightarrow> read_amount v),
      am_ofNumber = amount_of_number,
      am_toString = show_amount,
      am_toNumber = (\<lambda>x. rnd64 (rat_of_amount x)),
      am_div = (\<lambda>x y. if y = 0 then None
                      else Some (decimal \<lfloor>rat_of_amount x / rat_of_amount y * 10 ^ 20\<rfloor> 20)),
      am_round = (\<lambda>x d. decimal (round (rat_of_amount x * 10 ^ d)) d)\<rparr>"

lemma decimal_lib_laws [simp]: "amount_laws decimal_lib"
  by (simp add: amount_laws_def prints_exactly_def divides_nonzero_def rounds_zero_def decimal_lib_def)
    (simp flip: rat_of_amount_eq_iff)

lemma decimal_lib_simps [simp]:
  "am_new decimal_lib None = None"
  "am_toNumber decimal_lib x = rnd64 (rat_of_amount x)"
  by (simp_all add: decimal_lib_def)

end
