(* ===== verification/DemoService.thy ===== *)
theory DemoService
  imports DecimalLibrary
begin

text \<open>
  An executable instance of the parameter \<open>bkper_app\<close>, used by the examples: a collection of
  one inventory book and one financial book, held in memory, with a record of the calls
  that changed it. A query returns the transactions of the book (the examples hold one
  good).
\<close>

datatype call =
    BatchCreate string "transaction list"
  | BatchUpdate string "transaction list"
  | BatchTrash string "transaction list"
  | CreateAccount string account
  | UpdateAccount string account
  | Uncheck transaction
  | Trash transaction

record demo =
  d_transactions :: "string \<Rightarrow> transaction list"
  d_accounts :: "string \<Rightarrow> account list"
  d_locked :: "string list"
  d_calls :: "call list"

definition demo_book :: "string \<Rightarrow> nat \<Rightarrow> properties \<Rightarrow> book" where
  "demo_book i digits props =
     \<lparr>b_id = i, b_name = i, b_properties = props, b_fractionDigits = digits, b_timeZone = ''UTC''\<rparr>"

definition inventory_book :: book where
  "inventory_book = demo_book ''inv'' 0 [INVENTORY_BOOK_PROP \<mapsto> ''true'']"

definition financial_book :: book where
  "financial_book = demo_book ''fin'' 2 [EXC_CODE_PROP \<mapsto> ''USD'']"

definition log_call :: "call \<Rightarrow> demo \<Rightarrow> demo" where
  "log_call c w = w\<lparr>d_calls := d_calls w @ [c]\<rparr>"

definition demo_app :: "demo bkper_app" where
  "demo_app =
     \<lparr>app_getBook = (\<lambda>w i. if i = ''inv'' then inventory_book else financial_book),
      app_getBooks = (\<lambda>w b. Some [inventory_book, financial_book]),
      app_getAccount = (\<lambda>w b n. case n of None \<Rightarrow> None
         | Some s \<Rightarrow> List.find (\<lambda>a. a_id a = s \<or> a_name a = s) (d_accounts w (b_id b))),
      app_getAccounts = (\<lambda>w b. d_accounts w (b_id b)),
      app_getGroup = (\<lambda>w b n. None),
      app_getGroupAccounts = (\<lambda>w b g. []),
      app_getTransactions = (\<lambda>w b q. d_transactions w (b_id b)),
      app_getBacklogCount = (\<lambda>w b. 0),
      app_isLocked = (\<lambda>w b t. t_date t \<in> set (d_locked w)),
      app_batchCreateTransactions = (\<lambda>b ts. log_call (BatchCreate (b_id b) ts)),
      app_batchUpdateTransactions = (\<lambda>b ts k. log_call (BatchUpdate (b_id b) ts)),
      app_batchTrashTransactions = (\<lambda>b ts k. log_call (BatchTrash (b_id b) ts)),
      app_uncheckTransaction = (\<lambda>t. log_call (Uncheck t)),
      app_trashTransaction = (\<lambda>t. log_call (Trash t)),
      app_createAccount = (\<lambda>b a w. (a\<lparr>a_id := a_name a\<rparr>,
         log_call (CreateAccount (b_id b) a)
           (w\<lparr>d_accounts := (d_accounts w)(b_id b := d_accounts w (b_id b) @ [a\<lparr>a_id := a_name a\<rparr>])\<rparr>))),
      app_updateAccount = (\<lambda>b a. log_call (UpdateAccount (b_id b) a)),
      app_uuid = (\<lambda>w n. ''uuid-'' @ show_nat n),
      app_today = (\<lambda>w b. ''2024-12-31''),
      app_parseDate = (\<lambda>b s. 0),
      app_formatDate = (\<lambda>t z. ''2024-01-01''),
      app_toLocal = (\<lambda>t. t),
      app_toUTC = (\<lambda>t. t),
      app_absent = ''null'',
      app_nullAccount = new_account [] ASSET\<rparr>"

section \<open>A good with two purchases and one sale\<close>

definition usd_group :: group where
  "usd_group = \<lparr>g_id = ''g'', g_name = ''Goods'', g_properties = [EXC_CODE_PROP \<mapsto> ''USD''],
     g_parent = None, g_hidden = False\<rparr>"

definition widget :: account where
  "widget = \<lparr>a_id = ''w'', a_name = ''Widget'', a_type = ASSET, a_properties = Map.empty,
     a_archived = False, a_groups = Some [Some usd_group]\<rparr>"

definition buy_account :: account where "buy_account = new_account ''Buy'' INCOMING"
definition sell_account :: account where "sell_account = new_account ''Sell'' OUTGOING"

definition demo_tx :: "string \<Rightarrow> int \<Rightarrow> amount \<Rightarrow> account \<Rightarrow> account \<Rightarrow> properties \<Rightarrow> transaction" where
  "demo_tx i day q credit debit props =
     \<lparr>t_id = i, t_date = ''2024-01-05'', t_dateValue = day, t_amount = q, t_creditAccount = credit,
      t_debitAccount = debit, t_description = i, t_properties = props, t_remoteIds = [],
      t_checked = False, t_posted = True, t_trashed = False, t_agentId = Some AGENT_ID,
      t_createdAt = Some 0\<rparr>"

definition demo_purchase :: "string \<Rightarrow> int \<Rightarrow> amount \<Rightarrow> amount \<Rightarrow> transaction" where
  "demo_purchase i day q c =
     demo_tx i day q buy_account widget
       [PURCHASE_CODE_PROP \<mapsto> i, ORIGINAL_QUANTITY_PROP \<mapsto> show_amount q,
        GOOD_PURCHASE_COST_PROP \<mapsto> show_amount c, TOTAL_COST_PROP \<mapsto> show_amount c]"

definition demo_sale :: "string \<Rightarrow> int \<Rightarrow> amount \<Rightarrow> transaction" where
  "demo_sale i day q = demo_tx i day q widget sell_account [SALE_INVOICE_PROP \<mapsto> i]"

definition demo_transactions :: "transaction list" where
  "demo_transactions =
     [demo_purchase ''p1'' 20240105 10 100, demo_purchase ''p2'' 20240110 5 60,
      demo_sale ''s1'' 20240115 12]"

definition demo_world :: demo where
  "demo_world =
     \<lparr>d_transactions = (\<lambda>b. if b = ''inv'' then demo_transactions else []),
      d_accounts = (\<lambda>b. [widget]), d_locked = [], d_calls = []\<rparr>"

lemmas demo_tx_defs = demo_tx_def demo_purchase_def demo_sale_def demo_transactions_def
lemmas demo_defs = demo_app_def demo_world_def inventory_book_def financial_book_def demo_book_def
  widget_def buy_account_def sell_account_def usd_group_def new_account_def log_call_def

end
