(* ===== verification/DemoEvents.thy ===== *)
theory DemoEvents
  imports DeleteHandlers DemoService
begin

text \<open>
  An executable instance of the parameter \<open>bkper_js\<close>, used by the examples of the event
  handlers: the collection of \<open>DemoService\<close>, in which a query \<^verbatim>\<open>remoteId:x\<close> finds the
  transactions with the remote identifier \<open>x\<close> and any other query finds the transaction
  with that identifier.
\<close>

definition find_remote :: "string \<Rightarrow> transaction list \<Rightarrow> transaction list" where
  "find_remote q ts =
     (if prefix ''remoteId:'' q then filter (\<lambda>t. drop 9 q \<in> set (t_remoteIds t)) ts
      else filter (\<lambda>t. t_id t = q) ts)"

text \<open>The collection keeps the types of the two accounts the bot reserves.\<close>

definition reserve :: "string \<Rightarrow> account \<Rightarrow> account" where
  "reserve n a =
     (if n = GOOD_BUY_ACCOUNT_NAME then a\<lparr>a_type := INCOMING\<rparr>
      else if n = GOOD_SELL_ACCOUNT_NAME then a\<lparr>a_type := OUTGOING\<rparr> else a)"

definition demo_js :: "demo bkper_js" where
  "demo_js =
     \<lparr>js_getBooks = (\<lambda>w b. Some [inventory_book, financial_book]),
      js_getBook = (\<lambda>w i. Inr (if i = ''inv'' then inventory_book else financial_book)),
      js_getAccount = (\<lambda>w b n. Inr (case n of None \<Rightarrow> None
         | Some s \<Rightarrow> map_option (reserve s)
             (List.find (\<lambda>a. a_id a = s \<or> a_name a = s) (d_accounts w (b_id b))))),
      js_getGroup = (\<lambda>w b n. Inr None),
      js_getGroups = (\<lambda>w a. Inr (Some [usd_group])),
      js_listTransactions = (\<lambda>w b q. Inr (case q of None \<Rightarrow> [] | Some s \<Rightarrow> find_remote s (d_transactions w (b_id b)))),
      js_getCreditAccount = (\<lambda>w t. Inr (Some (t_creditAccount t))),
      js_getDebitAccount = (\<lambda>w t. Inr (Some (t_debitAccount t))),
      js_getCreditAccountName = (\<lambda>w t. Inr (a_name (t_creditAccount t))),
      js_getDebitAccountName = (\<lambda>w t. Inr (a_name (t_debitAccount t))),
      js_createGroup = (\<lambda>b g w. (Inr (g\<lparr>g_id := g_name g\<rparr>), w)),
      js_createAccount = (\<lambda>b a w. (Inr (a\<lparr>a_id := a_name a\<rparr>),
         log_call (CreateAccount (b_id b) a)
           (w\<lparr>d_accounts := (d_accounts w)(b_id b := d_accounts w (b_id b) @ [a\<lparr>a_id := a_name a\<rparr>])\<rparr>))),
      js_updateAccount = (\<lambda>a w. (Inr (), log_call (UpdateAccount ''inv'' a) w)),
      js_post = (\<lambda>b t w. let t = t\<lparr>t_id := ''n'' @ show_nat (length (d_transactions w (b_id b))),
           t_posted := True, t_agentId := Some AGENT_ID, t_createdAt := Some 0\<rparr>
         in (Inr t, log_call (BatchCreate (b_id b) [t])
               (w\<lparr>d_transactions := (d_transactions w)(b_id b := d_transactions w (b_id b) @ [t])\<rparr>))),
      js_uncheck = (\<lambda>t w. (Inr (t\<lparr>t_checked := False\<rparr>), log_call (Uncheck t) w)),
      js_trash = (\<lambda>t w. (Inr (t\<lparr>t_trashed := True\<rparr>), log_call (Trash t) w)),
      js_addGroup = (\<lambda>g a. a\<lparr>a_groups := Some (case a_groups a of None \<Rightarrow> [Some g] | Some gs \<Rightarrow> gs @ [Some g])\<rparr>),
      js_parseDate = (\<lambda>b s. 0),
      js_formatDate = (\<lambda>t z. ''2024-01-01''),
      js_getDateFormatted = t_date,
      js_undefined = ''undefined'',
      js_noName = [],
      js_message = (\<lambda>e. case e of Thrown m \<Rightarrow> m | _ \<Rightarrow> ''error''),
      js_stack = (\<lambda>e. [])\<rparr>"

text \<open>A purchase and a sale in the financial book, as the webhook reports them.\<close>

definition widget_payload :: account_payload where
  "widget_payload =
     \<lparr>ap_id = Some ''fw'', ap_name = Some ''Widget'', ap_type = Some ASSET, ap_properties = None,
      ap_archived = None,
      ap_groups = Some [\<lparr>gp_name = Some ''Goods'', gp_parentName = None,
        gp_properties = Some [EXC_CODE_PROP \<mapsto> ''USD''], gp_hidden = None\<rparr>]\<rparr>"

definition supplier_payload :: account_payload where
  "supplier_payload =
     \<lparr>ap_id = Some ''fs'', ap_name = Some ''Supplier'', ap_type = Some LIABILITY, ap_properties = None,
      ap_archived = None, ap_groups = None\<rparr>"

definition demo_payload ::
    "string \<Rightarrow> amount \<Rightarrow> amount \<Rightarrow> account_payload \<Rightarrow> account_payload \<Rightarrow> properties \<Rightarrow> transaction_payload" where
  "demo_payload i q c credit debit props =
     \<lparr>tp_id = Some i, tp_date = Some ''2024-01-05'', tp_dateValue = Some 20240105,
      tp_amount = Some (show_amount c), tp_description = Some ''goods'', tp_posted = True,
      tp_properties = Some (props(QUANTITY_PROP \<mapsto> show_amount q)), tp_creditAccount = Some credit,
      tp_debitAccount = Some debit, tp_agentId = None, tp_remoteIds = None\<rparr>"

definition purchase_payload :: transaction_payload where
  "purchase_payload =
     demo_payload ''f1'' 10 100 supplier_payload widget_payload
       [PURCHASE_CODE_PROP \<mapsto> ''c1'', PURCHASE_INVOICE_PROP \<mapsto> ''c1'']"

definition sale_payload :: transaction_payload where
  "sale_payload =
     demo_payload ''f2'' 4 80 supplier_payload supplier_payload
       [SALE_INVOICE_PROP \<mapsto> ''i1'', GOOD_PROP \<mapsto> ''Widget'']"

definition demo_event :: "string \<Rightarrow> book \<Rightarrow> transaction_payload \<Rightarrow> event" where
  "demo_event ty b t = \<lparr>ev_type = ty, ev_book = b, ev_agentId = None, ev_data = Some (Some (Some t))\<rparr>"

lemmas payload_defs = widget_payload_def supplier_payload_def demo_payload_def purchase_payload_def sale_payload_def

lemma trim_show_amount: "trim (show_amount x) \<noteq> []"
  by (rule trim_nonblank) (auto simp: show_amount_def is_space_def code_unit_def)

end
