(* ===== verification/FifoSpec.thy ===== *)
theory FifoSpec
  imports Amount
begin

text \<open>
  The contract of inventory costing, free of transactions and properties: a stock is a
  list of layers, oldest first, each a quantity with its total cost; an issue takes a
  quantity from the oldest layers and returns what could not be covered, the cost of what
  was taken and the remaining layers. The unit cost of a layer is a parameter, because
  the service computes it by a division whose rounding is the library's own.
\<close>

type_synonym layer = "amount \<times> amount"

fun fifo_issue :: "(amount \<Rightarrow> amount \<Rightarrow> amount) \<Rightarrow> amount \<Rightarrow> layer list \<Rightarrow> amount \<times> amount \<times> layer list" where
  "fifo_issue u n [] = (n, 0, [])"
| "fifo_issue u n ((q, c) # ls) =
     (if q \<le> n then
        (if n = q then (0, c, ls)
         else case fifo_issue u (n - q) ls of (left, cost, ls') \<Rightarrow> (left, c + cost, ls'))
      else (0, n * u c q, (q - n, c - n * u c q) # ls))"

definition stock_quantity :: "layer list \<Rightarrow> amount" where
  "stock_quantity ls = sum_list (map fst ls)"

definition stock_value :: "layer list \<Rightarrow> amount" where
  "stock_value ls = sum_list (map snd ls)"

definition stock_ok :: "layer list \<Rightarrow> bool" where
  "stock_ok ls = (\<forall>(q, c) \<in> set ls. 0 < q)"

lemma stock_simps [simp]:
  "stock_quantity [] = 0" "stock_value [] = 0" "stock_ok []"
  "stock_quantity (l # ls) = fst l + stock_quantity ls"
  "stock_value (l # ls) = snd l + stock_value ls"
  "stock_ok (l # ls) \<longleftrightarrow> 0 < fst l \<and> stock_ok ls"
  "stock_quantity (ls @ ms) = stock_quantity ls + stock_quantity ms"
  "stock_value (ls @ ms) = stock_value ls + stock_value ms"
  by (auto simp: stock_quantity_def stock_value_def stock_ok_def)

section \<open>Any costing method that conserves quantity and value\<close>

text \<open>Issuing several quantities one after the other: what each left uncovered and cost.\<close>

fun issue_all :: "(amount \<Rightarrow> 's \<Rightarrow> amount \<times> amount \<times> 's) \<Rightarrow> amount list \<Rightarrow> 's \<Rightarrow> (amount \<times> amount) list \<times> 's" where
  "issue_all issue [] s = ([], s)"
| "issue_all issue (n # ns) s =
     (case issue n s of (left, cost, s') \<Rightarrow>
        case issue_all issue ns s' of (rs, s'') \<Rightarrow> ((left, cost) # rs, s''))"

locale valued_stock =
  fixes quantity :: "'s \<Rightarrow> amount" and val :: "'s \<Rightarrow> amount" and ok :: "'s \<Rightarrow> bool"
    and issue :: "amount \<Rightarrow> 's \<Rightarrow> amount \<times> amount \<times> 's"
  assumes issue_quantity: "issue n s = (left, cost, s') \<Longrightarrow> quantity s = n - left + quantity s'"
    and issue_value: "issue n s = (left, cost, s') \<Longrightarrow> val s = cost + val s'"
    and issue_ok: "issue n s = (left, cost, s') \<Longrightarrow> ok s \<Longrightarrow> 0 \<le> n \<Longrightarrow> ok s'"
    and issue_covered:
      "issue n s = (left, cost, s') \<Longrightarrow> ok s \<Longrightarrow> 0 \<le> n \<Longrightarrow> n \<le> quantity s \<Longrightarrow> left = 0"
begin

theorem issue_all_value: "issue_all issue ns s = (rs, s') \<Longrightarrow> val s = sum_list (map snd rs) + val s'"
proof (induction ns arbitrary: s rs s')
  case Nil
  then show ?case by simp
next
  case (Cons n ns)
  obtain left cost t where i: "issue n s = (left, cost, t)" by (cases "issue n s")
  obtain us v where a: "issue_all issue ns t = (us, v)" by force
  from Cons.prems i a have "rs = (left, cost) # us" and "v = s'" by auto
  with Cons.IH [OF a] issue_value [OF i] show ?case by (simp add: algebra_simps)
qed

theorem issue_all_quantity:
  "issue_all issue ns s = (rs, s') \<Longrightarrow> quantity s = sum_list ns - sum_list (map fst rs) + quantity s'"
proof (induction ns arbitrary: s rs s')
  case Nil
  then show ?case by simp
next
  case (Cons n ns)
  obtain left cost t where i: "issue n s = (left, cost, t)" by (cases "issue n s")
  obtain us v where a: "issue_all issue ns t = (us, v)" by force
  from Cons.prems i a have "rs = (left, cost) # us" and "v = s'" by auto
  with Cons.IH [OF a] issue_quantity [OF i] show ?case by (simp add: algebra_simps)
qed

text \<open>When the quantities together do not exceed the stock, every issue is covered.\<close>

theorem issue_all_covered:
  assumes "issue_all issue ns s = (rs, s')" and "ok s" and "\<forall>n \<in> set ns. 0 \<le> n"
    and "sum_list ns \<le> quantity s"
  shows "\<forall>(left, cost) \<in> set rs. left = 0"
  using assms
proof (induction ns arbitrary: s rs s')
  case Nil
  then show ?case by simp
next
  case (Cons n ns)
  obtain left cost t where i: "issue n s = (left, cost, t)" by (cases "issue n s")
  obtain us v where a: "issue_all issue ns t = (us, v)" by force
  from Cons.prems i a have rs: "rs = (left, cost) # us" by auto
  have n: "0 \<le> n" and ns: "0 \<le> sum_list ns"
    using Cons.prems(3) by (auto intro: sum_list_nonneg)
  with Cons.prems(4) have "n \<le> quantity s" by simp
  with i Cons.prems(2) n have left: "left = 0" by (rule issue_covered)
  have "ok t" using i Cons.prems(2) n by (rule issue_ok)
  moreover have "sum_list ns \<le> quantity t"
    using Cons.prems(4) issue_quantity [OF i] left by simp
  ultimately have "\<forall>(left, cost) \<in> set us. left = 0"
    using Cons.IH [OF a] Cons.prems(3) by simp
  with rs left show ?case by simp
qed

end

section \<open>FIFO\<close>

lemma fifo_issue_quantity:
  "fifo_issue u n ls = (left, cost, ls') \<Longrightarrow> stock_quantity ls = n - left + stock_quantity ls'"
  by (induction u n ls arbitrary: left cost ls' rule: fifo_issue.induct)
    (auto split: if_splits prod.splits)

lemma fifo_issue_value:
  "fifo_issue u n ls = (left, cost, ls') \<Longrightarrow> stock_value ls = cost + stock_value ls'"
  by (induction u n ls arbitrary: left cost ls' rule: fifo_issue.induct)
    (auto split: if_splits prod.splits simp: algebra_simps)

lemma fifo_issue_ok:
  "fifo_issue u n ls = (left, cost, ls') \<Longrightarrow> stock_ok ls \<Longrightarrow> stock_ok ls'"
  by (induction u n ls arbitrary: left cost ls' rule: fifo_issue.induct)
    (auto split: if_splits prod.splits)

lemma stock_quantity_nonneg: "stock_ok ls \<Longrightarrow> 0 \<le> stock_quantity ls"
  by (induction ls) auto

lemma fifo_issue_covered:
  "fifo_issue u n ls = (left, cost, ls') \<Longrightarrow> stock_ok ls \<Longrightarrow> 0 \<le> n \<Longrightarrow> n \<le> stock_quantity ls
   \<Longrightarrow> left = 0"
  by (induction u n ls arbitrary: left cost ls' rule: fifo_issue.induct)
    (auto split: if_splits prod.splits)

interpretation fifo_stock: valued_stock stock_quantity stock_value stock_ok "fifo_issue u" for u
  by unfold_locales
    (blast intro: fifo_issue_quantity fifo_issue_value fifo_issue_ok fifo_issue_covered)+

text \<open>
  First in, first out: an issue leaves a suffix of the layers untouched, and what it
  leaves of the layer before that suffix is a part of that layer.
\<close>

theorem fifo_issue_oldest_first:
  assumes "fifo_issue u n ls = (left, cost, ls')"
  shows "(\<exists>used. ls = used @ ls' \<and> cost = stock_value used \<and> n - left = stock_quantity used)
       \<or> (\<exists>used q c rest m. ls = used @ (q, c) # rest \<and> m < q \<and> left = 0
             \<and> n = stock_quantity used + m \<and> cost = stock_value used + m * u c q
             \<and> ls' = (q - m, c - m * u c q) # rest)"
  using assms
proof (induction u n ls arbitrary: left cost ls' rule: fifo_issue.induct)
  case (1 u n)
  then show ?case by simp
next
  case (2 u n q c ls)
  consider (partly) "\<not> q \<le> n" | (exact) "n = q" | (more) "q < n" by force
  then show ?case
  proof cases
    case partly
    with "2.prems" show ?thesis
      by (intro disjI2 exI [of _ "[]"] exI [of _ q] exI [of _ c] exI [of _ ls] exI [of _ n]) auto
  next
    case exact
    with "2.prems" show ?thesis by (intro disjI1 exI [of _ "[(q, c)]"]) auto
  next
    case more
    obtain cost' where rec: "fifo_issue u (n - q) ls = (left, cost', ls')" and cost: "cost = c + cost'"
      using "2.prems" more by (auto split: prod.splits)
    from more "2.IH" [OF _ _ rec] consider
        used where "ls = used @ ls'" "cost' = stock_value used" "n - q - left = stock_quantity used"
      | used p d rest m where "ls = used @ (p, d) # rest" "m < p" "left = 0"
          "n - q = stock_quantity used + m" "cost' = stock_value used + m * u d p"
          "ls' = (p - m, d - m * u d p) # rest"
      by auto
    then show ?thesis
    proof cases
      case 1
      then show ?thesis
        by (intro disjI1 exI [of _ "(q, c) # used"]) (auto simp: cost algebra_simps)
    next
      case 2
      then show ?thesis
        by (intro disjI2 exI [of _ "(q, c) # used"] exI [of _ p] exI [of _ d] exI [of _ rest] exI [of _ m])
          (auto simp: cost algebra_simps)
    qed
  qed
qed

end
