(* ===== verification/FifoRefinement.thy ===== *)
theory FifoRefinement
  imports CalculateService FifoSpec
begin

text \<open>
  The loop over the purchases implements the FIFO issue of \<open>FifoSpec\<close>: the unchecked
  purchases, in list order, are the layers; their quantity is the amount of the
  transaction and their cost is the recorded total cost with the additional costs and
  credit notes that have not been counted yet.
\<close>

section \<open>Purchases as layers\<close>

definition layer_cost :: "amount_lib \<Rightarrow> 'w bkper_app \<Rightarrow> 'w \<Rightarrow> book \<Rightarrow> transaction \<Rightarrow> amount" where
  "layer_cost A B w financialBook t =
     (case (am_new A (t_prop t TOTAL_COST_PROP), purchase_costs B w financialBook t) of
        (Some c, Inr (additional, credits)) \<Rightarrow> c + additional - credits
      | _ \<Rightarrow> 0)"

definition unit_cost :: "amount_lib \<Rightarrow> amount \<Rightarrow> amount \<Rightarrow> amount" where
  "unit_cost A c q = (case am_div A c q of Some u \<Rightarrow> u | None \<Rightarrow> 0)"

definition layer_of :: "amount_lib \<Rightarrow> 'w bkper_app \<Rightarrow> 'w \<Rightarrow> book \<Rightarrow> transaction \<Rightarrow> layer" where
  "layer_of A B w financialBook t = (t_amount t, layer_cost A B w financialBook t)"

definition layers :: "amount_lib \<Rightarrow> 'w bkper_app \<Rightarrow> 'w \<Rightarrow> book \<Rightarrow> store \<Rightarrow> ref list \<Rightarrow> layer list" where
  "layers A B w financialBook h rs =
     map (\<lambda>r. layer_of A B w financialBook (h r)) (filter (\<lambda>r. \<not> t_checked (h r)) rs)"

text \<open>A purchase the loop can process: what it reads is there and its quantity is positive.\<close>

definition purchase_ready :: "amount_lib \<Rightarrow> 'w bkper_app \<Rightarrow> 'w \<Rightarrow> book \<Rightarrow> transaction \<Rightarrow> bool" where
  "purchase_ready A B w financialBook t =
     (0 < t_amount t
      \<and> am_new A (t_prop t ORIGINAL_QUANTITY_PROP) \<noteq> None
      \<and> am_new A (t_prop t TOTAL_COST_PROP) \<noteq> None
      \<and> (case purchase_costs B w financialBook t of Inr _ \<Rightarrow> True | Inl _ \<Rightarrow> False)
      \<and> t_prop t PURCHASE_CODE_PROP \<noteq> None)"

definition purchases_ready :: "amount_lib \<Rightarrow> 'w bkper_app \<Rightarrow> 'w \<Rightarrow> book \<Rightarrow> store \<Rightarrow> ref list \<Rightarrow> bool" where
  "purchases_ready A B w financialBook h rs =
     (distinct rs \<and> (\<forall>r \<in> set rs. t_checked (h r) \<or> purchase_ready A B w financialBook (h r)))"

lemma layers_simps [simp]:
  "layers A B w fb h [] = []"
  "layers A B w fb h (r # rs) =
     (if t_checked (h r) then layers A B w fb h rs else layer_of A B w fb (h r) # layers A B w fb h rs)"
  by (simp_all add: layers_def)

lemma layers_upd_notin [simp]:
  "r \<notin> set rs \<Longrightarrow> layers A B w fb (h(r := t)) rs = layers A B w fb h rs"
  by (induction rs) auto

lemma stock_ok_layers: "purchases_ready A B w fb h rs \<Longrightarrow> stock_ok (layers A B w fb h rs)"
  by (induction rs) (auto simp: purchases_ready_def layer_of_def purchase_ready_def)

section \<open>One purchase\<close>

lemma read_purchase_ready:
  assumes "amount_laws A" and "purchase_ready A B w fb t"
  obtains pinfo where "read_purchase A B w fb t = Inr pinfo"
    and "pi_transactionQuantity pinfo = t_amount t"
    and "pi_updatedCost pinfo = layer_cost A B w fb t"
    and "pi_costOfSalePerUnit pinfo = unit_cost A (layer_cost A B w fb t) (t_amount t)"
proof -
  from assms(2) obtain oq c ad cr where
    r: "am_new A (t_prop t ORIGINAL_QUANTITY_PROP) = Some oq" "am_new A (t_prop t TOTAL_COST_PROP) = Some c"
       "purchase_costs B w fb t = Inr (ad, cr)" and "t_amount t \<noteq> 0"
    by (auto simp: purchase_ready_def split: sum.splits)
  moreover from this assms(1) obtain u where "am_div A (c + ad - cr) (t_amount t) = Some u"
    using am_div_Some by blast
  ultimately show thesis
    by (intro that) (auto simp: read_purchase_def layer_cost_def unit_cost_def Let_def)
qed

text \<open>What is left of a split purchase is a layer with the rest of quantity and cost.\<close>

lemma remaining_purchase_layer:
  assumes "amount_laws A"
  shows "layer_of A B w fb (remaining_purchase A q c pinfo t) = (q, c)"
    and "t_checked (remaining_purchase A q c pinfo t) = t_checked t"
    and "0 < q \<Longrightarrow> purchase_ready A B w fb t \<Longrightarrow> purchase_ready A B w fb (remaining_purchase A q c pinfo t)"
  using assms
  by (simp_all add: remaining_purchase_def layer_of_def layer_cost_def purchase_costs_def
      purchase_ready_def Let_def)

lemma liquidated_purchase_checked [simp]: "t_checked (liquidated_purchase A sale pinfo t)"
  by (simp add: liquidated_purchase_def)

lemma liquidate_purchase_simps [simp]:
  "ss_store (liquidate_purchase A B w s r pinfo st) =
     (ss_store st)(r := liquidated_purchase A (ss_store st s) pinfo (ss_store st r))"
  "soldQuantity (liquidate_purchase A B w s r pinfo st) = soldQuantity st - pi_transactionQuantity pinfo"
  "saleCost (liquidate_purchase A B w s r pinfo st) = saleCost st + pi_updatedCost pinfo"
  "purchaseLogEntries (liquidate_purchase A B w s r pinfo st) \<noteq> []"
  "cp_financialToCreate (ss_processor (liquidate_purchase A B w s r pinfo st)) =
     cp_financialToCreate (ss_processor st)"
  "cp_inventoryBook (ss_processor (liquidate_purchase A B w s r pinfo st)) = cp_inventoryBook (ss_processor st)"
  "cp_financialBook (ss_processor (liquidate_purchase A B w s r pinfo st)) = cp_financialBook (ss_processor st)"
  by (simp_all add: liquidate_purchase_def Let_def)

lemma split_purchase_ready:
  assumes "t_prop (ss_store st r) PURCHASE_CODE_PROP \<noteq> None"
  obtains st' where "split_purchase A B w s r pinfo st = Inr st'"
    and "soldQuantity st' = 0"
    and "saleCost st' = saleCost st + soldQuantity st * pi_costOfSalePerUnit pinfo"
    and "ss_store st' = (ss_store st)(r := remaining_purchase A
           (pi_transactionQuantity pinfo - soldQuantity st)
           (pi_updatedCost pinfo - soldQuantity st * pi_costOfSalePerUnit pinfo) pinfo (ss_store st r))"
    and "purchaseLogEntries st' \<noteq> []"
    and "cp_financialToCreate (ss_processor st') = cp_financialToCreate (ss_processor st)"
    and "cp_books (ss_processor st') = cp_books (ss_processor st)"
proof -
  from assms obtain code where code: "t_prop (ss_store st r) PURCHASE_CODE_PROP = Some code" by auto
  then obtain st' where eq: "split_purchase A B w s r pinfo st = Inr st'"
    by (simp add: split_purchase_def generateId_def Let_def)
  with code show thesis
    by (intro that [OF eq]) (auto simp: split_purchase_def generateId_def Let_def)
qed

section \<open>The loop\<close>

text \<open>What the loop from \<open>st\<close> owes the specification when it ends in \<open>st'\<close>.\<close>

definition issued ::
    "amount_lib \<Rightarrow> 'w bkper_app \<Rightarrow> 'w \<Rightarrow> book \<Rightarrow> ref list \<Rightarrow> sale_state \<Rightarrow> amount \<times> amount \<times> layer list
     \<Rightarrow> sale_state \<Rightarrow> bool" where
  "issued A B w fb rs st res st' =
     (case res of (left, cost, ls') \<Rightarrow>
        soldQuantity st' = left \<and> saleCost st' = saleCost st + cost
        \<and> layers A B w fb (ss_store st') rs = ls'
        \<and> purchases_ready A B w fb (ss_store st') rs
        \<and> (\<forall>i. i \<notin> set rs \<longrightarrow> ss_store st' i = ss_store st i)
        \<and> (layers A B w fb (ss_store st) rs \<noteq> [] \<or> purchaseLogEntries st \<noteq> []
             \<longrightarrow> purchaseLogEntries st' \<noteq> [])
        \<and> cp_financialToCreate (ss_processor st') = cp_financialToCreate (ss_processor st)
        \<and> cp_books (ss_processor st') = cp_books (ss_processor st))"

lemma issued_skip:
  assumes "issued A B w fb rs st res st'" and "t_checked (ss_store st r)" and "r \<notin> set rs"
  shows "issued A B w fb (r # rs) st res st'"
  using assms by (auto simp: issued_def purchases_ready_def split: prod.splits)

lemma issued_consume:
  assumes "issued A B w fb rs (liquidate_purchase A B w s r pinfo st) (left, cost, ls') st'"
    and "r \<notin> set rs"
  shows "issued A B w fb (r # rs) st (left, pi_updatedCost pinfo + cost, ls') st'"
  using assms by (auto simp: issued_def purchases_ready_def)

lemma issued_exact:
  assumes "purchases_ready A B w fb (ss_store st) rs" and "r \<notin> set rs"
    and "soldQuantity st = pi_transactionQuantity pinfo"
  shows "issued A B w fb (r # rs) st (0, pi_updatedCost pinfo, layers A B w fb (ss_store st) rs)
           (liquidate_purchase A B w s r pinfo st)"
  using assms by (auto simp: issued_def purchases_ready_def)

lemma issued_split:
  assumes "amount_laws A" and "purchases_ready A B w fb (ss_store st) rs" and "r \<notin> set rs"
    and "purchase_ready A B w fb (ss_store st r)" and "\<not> t_checked (ss_store st r)"
    and "soldQuantity st < pi_transactionQuantity pinfo"
  obtains st' where "split_purchase A B w s r pinfo st = Inr st'" and "soldQuantity st' = 0"
    and "issued A B w fb (r # rs) st
           (0, soldQuantity st * pi_costOfSalePerUnit pinfo,
            (pi_transactionQuantity pinfo - soldQuantity st,
             pi_updatedCost pinfo - soldQuantity st * pi_costOfSalePerUnit pinfo)
            # layers A B w fb (ss_store st) rs) st'"
proof -
  have "t_prop (ss_store st r) PURCHASE_CODE_PROP \<noteq> None"
    using assms(4) by (simp add: purchase_ready_def)
  from split_purchase_ready [OF this, of A B w s pinfo] obtain st' where
    st': "split_purchase A B w s r pinfo st = Inr st'" "soldQuantity st' = 0"
    "saleCost st' = saleCost st + soldQuantity st * pi_costOfSalePerUnit pinfo"
    "ss_store st' = (ss_store st)(r := remaining_purchase A
           (pi_transactionQuantity pinfo - soldQuantity st)
           (pi_updatedCost pinfo - soldQuantity st * pi_costOfSalePerUnit pinfo) pinfo (ss_store st r))"
    "purchaseLogEntries st' \<noteq> []"
    "cp_financialToCreate (ss_processor st') = cp_financialToCreate (ss_processor st)"
    "cp_books (ss_processor st') = cp_books (ss_processor st)"
    by metis
  have "purchase_ready A B w fb (ss_store st' r)"
    using assms(4,6) by (simp add: st' remaining_purchase_layer(3) [OF assms(1)])
  with assms remaining_purchase_layer(1,2) [OF assms(1)] show thesis
    by (intro that [OF st'(1,2)]) (auto simp: issued_def purchases_ready_def st'(2-))
qed

theorem purchase_loop_refines:
  assumes "amount_laws A"
    and "purchases_ready A B w fb (ss_store st) rs"
  shows "\<exists>st'. purchase_loop A B w fb s rs st = Inr st'
    \<and> issued A B w fb rs st
         (fifo_issue (unit_cost A) (soldQuantity st) (layers A B w fb (ss_store st) rs)) st'"
  using assms(2)
proof (induction rs arbitrary: st)
  case Nil
  then show ?case by (simp add: issued_def)
next
  case (Cons r rs)
  let ?h = "ss_store st" and ?n = "soldQuantity st"
  have rs: "purchases_ready A B w fb ?h rs" and r: "r \<notin> set rs"
    using Cons.prems by (auto simp: purchases_ready_def)
  show ?case
  proof (cases "t_checked (?h r)")
    case True
    with Cons.IH [OF rs] r show ?thesis by (auto intro: issued_skip)
  next
    case False
    then have ready: "purchase_ready A B w fb (?h r)"
      using Cons.prems by (simp add: purchases_ready_def)
    let ?q = "t_amount (?h r)" and ?c = "layer_cost A B w fb (?h r)"
    obtain pinfo where pinfo: "read_purchase A B w fb (?h r) = Inr pinfo" "pi_transactionQuantity pinfo = ?q"
      "pi_updatedCost pinfo = ?c" "pi_costOfSalePerUnit pinfo = unit_cost A ?c ?q"
      using read_purchase_ready [OF assms(1) ready] by blast
    let ?st1 = "liquidate_purchase A B w s r pinfo st"
    have rs1: "purchases_ready A B w fb (ss_store ?st1) rs"
      using rs r by (auto simp: purchases_ready_def)
    consider (partly) "?n < ?q" | (exact) "?n = ?q" | (more) "?q < ?n" by force
    then show ?thesis
    proof cases
      case partly
      obtain st' where "split_purchase A B w s r pinfo st = Inr st'" "soldQuantity st' = 0"
        "issued A B w fb (r # rs) st (0, ?n * unit_cost A ?c ?q,
           (?q - ?n, ?c - ?n * unit_cost A ?c ?q) # layers A B w fb ?h rs) st'"
        using issued_split [OF assms(1) rs r ready False, of pinfo s] partly pinfo by auto
      with partly False show ?thesis by (simp add: process_purchase_def pinfo layer_of_def)
    next
      case exact
      with False issued_exact [OF rs r, of pinfo s] show ?thesis
        by (simp add: process_purchase_def pinfo layer_of_def)
    next
      case more
      obtain left cost ls' where
        rest: "fifo_issue (unit_cost A) (?n - ?q) (layers A B w fb ?h rs) = (left, cost, ls')"
        by (cases "fifo_issue (unit_cost A) (?n - ?q) (layers A B w fb ?h rs)")
      have "fifo_issue (unit_cost A) (soldQuantity ?st1) (layers A B w fb (ss_store ?st1) rs) = (left, cost, ls')"
        using rest r by (simp add: pinfo)
      with Cons.IH [OF rs1] obtain st' where "purchase_loop A B w fb s rs ?st1 = Inr st'"
        "issued A B w fb rs ?st1 (left, cost, ls') st'"
        by metis
      with more False issued_consume [OF _ r, of A B w fb s pinfo st left cost ls' st'] show ?thesis
        by (simp add: process_purchase_def pinfo layer_of_def rest)
    qed
  qed
qed

section \<open>One sale\<close>

definition start_sale :: "ref \<Rightarrow> store \<times> calc_processor \<Rightarrow> sale_state" where
  "start_sale s hp =
     \<lparr>ss_store = fst hp, ss_processor = snd hp, soldQuantity = t_amount (fst hp s), saleCost = 0,
      purchaseLogEntries = []\<rparr>"

lemma start_sale_simps [simp]:
  "ss_store (start_sale s hp) = fst hp" "ss_processor (start_sale s hp) = snd hp"
  "soldQuantity (start_sale s hp) = t_amount (fst hp s)" "saleCost (start_sale s hp) = 0"
  "purchaseLogEntries (start_sale s hp) = []"
  by (simp_all add: start_sale_def)

lemma settle_sale_simps [simp]:
  "saleCost (settle_sale A B w ib s st) = saleCost st"
  "i \<noteq> s \<Longrightarrow> ss_store (settle_sale A B w ib s st) i = ss_store st i"
  "t_id (ss_store (settle_sale A B w ib s st) s) = t_id (ss_store st s)"
  "t_amount (ss_store (settle_sale A B w ib s st) s) = t_amount (ss_store st s)"
  "cp_financialToCreate (ss_processor (settle_sale A B w ib s st)) = cp_financialToCreate (ss_processor st)"
  "cp_inventoryBook (ss_processor (settle_sale A B w ib s st)) = cp_inventoryBook (ss_processor st)"
  "cp_financialBook (ss_processor (settle_sale A B w ib s st)) = cp_financialBook (ss_processor st)"
  by (simp_all add: settle_sale_def Let_def)

lemma settle_sale_covered:
  assumes "am_round A (soldQuantity st) (b_fractionDigits ib) = 0" and "purchaseLogEntries st \<noteq> []"
  shows "t_checked (ss_store (settle_sale A B w ib s st) s)"
    and "t_prop (ss_store (settle_sale A B w ib s st) s) TOTAL_COST_PROP = Some (am_toString A (saleCost st))"
  using assms by (simp_all add: settle_sale_def Let_def)

lemma settle_sale_open:
  "am_round A (soldQuantity st) (b_fractionDigits ib) \<noteq> 0 \<Longrightarrow> settle_sale A B w ib s st = st"
  by (simp add: settle_sale_def)

lemma layers_cong:
  "(\<And>r. r \<in> set rs \<Longrightarrow> h r = h' r) \<Longrightarrow> layers A B w fb h rs = layers A B w fb h' rs"
  by (induction rs) auto

lemma purchases_ready_cong:
  "(\<And>r. r \<in> set rs \<Longrightarrow> h r = h' r) \<Longrightarrow> purchases_ready A B w fb h rs = purchases_ready A B w fb h' rs"
  by (auto simp: purchases_ready_def)

text \<open>
  What processing one sale leaves behind: the layers of the specification, a cost of
  sales transaction of the issued cost under the identifier of the sale, and a sale that
  is closed with that cost exactly when its quantity is covered.
\<close>

definition sale_processed ::
    "amount_lib \<Rightarrow> 'w bkper_app \<Rightarrow> 'w \<Rightarrow> book \<Rightarrow> book \<Rightarrow> ref \<Rightarrow> ref list \<Rightarrow> store \<times> calc_processor
     \<Rightarrow> amount \<times> amount \<times> layer list \<Rightarrow> store \<times> calc_processor \<Rightarrow> bool" where
  "sale_processed A B w fb ib s purchases hp res hp' =
     (case res of (left, cost, ls') \<Rightarrow>
        layers A B w fb (fst hp') purchases = ls'
        \<and> purchases_ready A B w fb (fst hp') purchases
        \<and> (\<forall>i. i \<notin> set purchases \<and> i \<noteq> s \<longrightarrow> fst hp' i = fst hp i)
        \<and> t_id (fst hp' s) = t_id (fst hp s) \<and> t_amount (fst hp' s) = t_amount (fst hp s)
        \<and> (am_round A left (b_fractionDigits ib) = 0 \<and> layers A B w fb (fst hp) purchases \<noteq> []
             \<longrightarrow> t_checked (fst hp' s) \<and> t_prop (fst hp' s) TOTAL_COST_PROP = Some (am_toString A cost))
        \<and> (am_round A left (b_fractionDigits ib) \<noteq> 0 \<longrightarrow> fst hp' s = fst hp s)
        \<and> (\<exists>cogs. t_amount cogs = cost
             \<and> cp_financialToCreate (snd hp') = map_set (t_id (fst hp s)) cogs (cp_financialToCreate (snd hp)))
        \<and> cp_books (snd hp') = cp_books (snd hp))"

lemma addCostOfSales_processor:
  assumes "costOfSalesAccount B fb w = (acc, w')"
  obtains cogs where "t_amount cogs = cost" and "t_remoteIds cogs = [t_id sale]"
    and "addCostOfSales A B fb sale cost p w = (cp_setFinancialBookTransactionToCreate B w' cogs p, w')"
proof -
  let ?cogs = "costOfSaleTransaction A B (app_getAccount B w' fb (Some (a_name (t_creditAccount sale)))) acc sale cost"
  have "t_amount ?cogs = cost" and "t_remoteIds ?cogs = [t_id sale]"
    by (simp_all add: costOfSaleTransaction_def)
  with assms show thesis by (intro that [of ?cogs]) (simp_all add: addCostOfSales_def)
qed

lemma set_financial_simps [simp]:
  "t_remoteIds t = [k] \<Longrightarrow> cp_financialToCreate (cp_setFinancialBookTransactionToCreate B w t p) =
     map_set k t (cp_financialToCreate p)"
  by (simp add: processor_defs getRemoteId_def)

lemma process_sale_refines:
  assumes "amount_laws A" and "purchases_ready A B w fb (fst hp) purchases" and "s \<notin> set purchases"
    and "costOfSalesAccount B fb w = (acc, w')"
  shows "\<exists>hp'. processSale A B fb ib s purchases hp w = (Inr hp', w')
    \<and> sale_processed A B w fb ib s purchases hp
         (fifo_issue (unit_cost A) (t_amount (fst hp s)) (layers A B w fb (fst hp) purchases)) hp'"
proof -
  let ?res = "fifo_issue (unit_cost A) (t_amount (fst hp s)) (layers A B w fb (fst hp) purchases)"
  obtain left cost ls' where res: "?res = (left, cost, ls')" by (cases ?res)
  from purchase_loop_refines [OF assms(1), of B w fb "start_sale s hp" purchases s] assms(2) res
  obtain st where loop: "purchase_loop A B w fb s purchases (start_sale s hp) = Inr st"
    and st: "issued A B w fb purchases (start_sale s hp) (left, cost, ls') st"
    by auto
  let ?st = "settle_sale A B w ib s st"
  obtain cogs where cogs: "t_amount cogs = saleCost st" "t_remoteIds cogs = [t_id (ss_store ?st s)]"
    "addCostOfSales A B fb (ss_store ?st s) (saleCost ?st) (ss_processor ?st) w =
       (cp_setFinancialBookTransactionToCreate B w' cogs (ss_processor ?st), w')"
    using addCostOfSales_processor [OF assms(4)] by (metis settle_sale_simps(1))
  have run: "processSale A B fb ib s purchases hp w =
      (Inr (ss_store ?st, cp_setFinancialBookTransactionToCreate B w' cogs (ss_processor ?st)), w')"
    using loop cogs(3) by (simp add: processSale_def start_sale_def Let_def)
  have same: "ss_store ?st r = ss_store st r" if "r \<in> set purchases" for r
    using that assms(3) by (metis settle_sale_simps(2))
  note frame = layers_cong [of purchases, OF same] purchases_ready_cong [of purchases, OF same]
  have "sale_processed A B w fb ib s purchases hp (left, cost, ls')
      (ss_store ?st, cp_setFinancialBookTransactionToCreate B w' cogs (ss_processor ?st))"
    using st assms(3) cogs(1,2)
    by (auto simp: sale_processed_def issued_def settle_sale_covered [simplified] settle_sale_open frame)
  with run res show ?thesis by auto
qed

section \<open>All sales of a run\<close>

text \<open>
  The state of the service changes during the run only when the cost of sales account is
  created. Documented behaviour: a new account is found under its name, and neither the
  transactions nor the accounts that were there are affected.
\<close>

definition account_creation_frame :: "'w bkper_app \<Rightarrow> bool" where
  "account_creation_frame B =
     (\<forall>b a w a' w'. app_getAccount B w b (Some (a_name a)) = None
        \<and> app_createAccount B b a w = (a', w') \<longrightarrow>
        app_getTransactions B w' = app_getTransactions B w
        \<and> app_getAccount B w' b (Some (a_name a)) = Some a'
        \<and> (\<forall>n x. app_getAccount B w b n = Some x \<longrightarrow> app_getAccount B w' b n = Some x))"

lemma costOfSalesAccount_frame:
  assumes "account_creation_frame B" and "costOfSalesAccount B fb w = (acc, w')"
  shows "app_getTransactions B w' = app_getTransactions B w"
    and "app_getAccount B w fb n = Some x \<Longrightarrow> app_getAccount B w' fb n = Some x"
proof -
  have name: "a_name (new_account COGS_ACCOUNT OUTGOING) = COGS_ACCOUNT" by (simp add: new_account_def)
  have "w' = w \<or> (app_getTransactions B w' = app_getTransactions B w
      \<and> (\<forall>n x. app_getAccount B w fb n = Some x \<longrightarrow> app_getAccount B w' fb n = Some x))"
  proof (cases "app_getAccount B w fb (Some COGS_ACCOUNT)")
    case None
    then have "app_createAccount B fb (new_account COGS_ACCOUNT OUTGOING) w = (acc, w')"
      using assms(2) by (simp add: costOfSalesAccount_def)
    with None name assms(1) show ?thesis unfolding account_creation_frame_def by metis
  next
    case (Some a)
    with assms(2) show ?thesis by (simp add: costOfSalesAccount_def)
  qed
  then show "app_getTransactions B w' = app_getTransactions B w"
    and "app_getAccount B w fb n = Some x \<Longrightarrow> app_getAccount B w' fb n = Some x"
    by auto
qed

lemma purchase_costs_frame:
  assumes "account_creation_frame B" and "costOfSalesAccount B fb w = (acc, w')"
    and "purchase_costs B w fb t = Inr x"
  shows "purchase_costs B w' fb t = Inr x"
  using assms(3) costOfSalesAccount_frame [OF assms(1,2)]
  by (auto simp: purchase_costs_def getAdditionalCostsAndCreditNotes_def Let_def split: if_splits)

lemma purchase_ready_frame:
  assumes "account_creation_frame B" and "costOfSalesAccount B fb w = (acc, w')"
    and "purchase_ready A B w fb t"
  shows "purchase_ready A B w' fb t" and "layer_cost A B w' fb t = layer_cost A B w fb t"
proof -
  from assms(3) obtain x where "purchase_costs B w fb t = Inr x"
    by (auto simp: purchase_ready_def split: sum.splits)
  moreover from purchase_costs_frame [OF assms(1,2) this] have "purchase_costs B w' fb t = Inr x" .
  ultimately show "purchase_ready A B w' fb t" and "layer_cost A B w' fb t = layer_cost A B w fb t"
    using assms(3) by (simp_all add: purchase_ready_def layer_cost_def)
qed

lemma purchases_frame:
  assumes "account_creation_frame B" and "costOfSalesAccount B fb w = (acc, w')"
    and "purchases_ready A B w fb h rs"
  shows "purchases_ready A B w' fb h rs" and "layers A B w' fb h rs = layers A B w fb h rs"
proof -
  from assms(3) show "purchases_ready A B w' fb h rs"
    by (auto simp: purchases_ready_def intro: purchase_ready_frame [OF assms(1,2)])
  from assms(3) show "layers A B w' fb h rs = layers A B w fb h rs"
    by (auto simp: layers_def purchases_ready_def layer_of_def purchase_ready_frame [OF assms(1,2)])
qed

text \<open>
  What the loop over the sales leaves when it runs to its end: the stock of the
  specification after all issues, one cost of sales transaction per sale with the issued
  cost, and every covered sale closed with that cost.
\<close>

definition sales_processed ::
    "amount_lib \<Rightarrow> 'w bkper_app \<Rightarrow> 'w \<Rightarrow> book \<Rightarrow> ref list \<Rightarrow> ref list \<Rightarrow> store \<times> calc_processor
     \<Rightarrow> (amount \<times> amount) list \<times> layer list \<Rightarrow> store \<times> calc_processor \<Rightarrow> bool" where
  "sales_processed A B w fb purchases sales hp res hp' =
     (case res of (rs, ls') \<Rightarrow>
        layers A B w fb (fst hp') purchases = ls'
        \<and> purchases_ready A B w fb (fst hp') purchases
        \<and> (\<exists>cogs. map t_amount cogs = map snd rs
             \<and> cp_financialToCreate (snd hp') =
                 js.set_all (zip (map (\<lambda>s. t_id (fst hp s)) sales) cogs) (cp_financialToCreate (snd hp)))
        \<and> (\<forall>i < length sales. fst (rs ! i) = 0 \<and> 0 < t_amount (fst hp (sales ! i)) \<longrightarrow>
             t_checked (fst hp' (sales ! i))
             \<and> t_prop (fst hp' (sales ! i)) TOTAL_COST_PROP = Some (am_toString A (snd (rs ! i))))
        \<and> (\<forall>i. i \<notin> set purchases \<and> i \<notin> set sales \<longrightarrow> fst hp' i = fst hp i))"

lemma issue_all_length: "issue_all f ns s = (rs, s') \<Longrightarrow> length rs = length ns"
  by (induction ns arbitrary: s rs s') (auto split: prod.splits)

lemma sales_processed_step:
  assumes "amount_laws A"
    and "sale_processed A B w fb ib s purchases hp (left, cost, ls) hp1"
    and "fifo_issue u (t_amount (fst hp s)) (layers A B w fb (fst hp) purchases) = (left, cost, ls)"
    and "sales_processed A B w'' fb purchases sales hp1 (rs, ls') hp2"
    and "s \<notin> set sales" and "s \<notin> set purchases" and "set sales \<inter> set purchases = {}"
  shows "sales_processed A B w'' fb purchases (s # sales) hp ((left, cost) # rs, ls') hp2"
proof -
  have same: "fst hp1 i = fst hp i" if "i \<in> set sales" for i
    using assms(2,5,7) that by (auto simp: sale_processed_def)
  have ids: "map (\<lambda>s. t_id (fst hp1 s)) sales = map (\<lambda>s. t_id (fst hp s)) sales"
    by (rule map_cong) (simp_all add: same)
  have s: "fst hp2 s = fst hp1 s" using assms(4,5,6) by (simp add: sales_processed_def)
  have closed: "t_checked (fst hp2 s) \<and> t_prop (fst hp2 s) TOTAL_COST_PROP = Some (am_toString A cost)"
    if "left = 0" and "0 < t_amount (fst hp s)"
  proof -
    have "layers A B w fb (fst hp) purchases \<noteq> []" using assms(3) that by auto
    with assms(1,2) that show ?thesis by (simp add: sale_processed_def s)
  qed
  obtain c where c: "t_amount c = cost"
    "cp_financialToCreate (snd hp1) = map_set (t_id (fst hp s)) c (cp_financialToCreate (snd hp))"
    using assms(2) by (auto simp: sale_processed_def)
  obtain cogs where cogs: "map t_amount cogs = map snd rs"
    "cp_financialToCreate (snd hp2) =
       js.set_all (zip (map (\<lambda>s. t_id (fst hp s)) sales) cogs) (cp_financialToCreate (snd hp1))"
    using assms(4) unfolding sales_processed_def ids by auto
  have "\<exists>cogs. map t_amount cogs = cost # map snd rs \<and> cp_financialToCreate (snd hp2) =
      js.set_all (zip (t_id (fst hp s) # map (\<lambda>s. t_id (fst hp s)) sales) cogs) (cp_financialToCreate (snd hp))"
    using c cogs by (intro exI [of _ "c # cogs"]) (simp add: js.set_all_def)
  with assms(2,4) closed same show ?thesis
    by (auto simp: sales_processed_def sale_processed_def nth_Cons split: nat.splits)
qed

theorem sales_loop_refines:
  assumes "amount_laws A" and "account_creation_frame B"
    and "purchases_ready A B w fb (fst hp) purchases"
    and "distinct sales" and "set sales \<inter> set purchases = {}"
  shows "\<exists>res w'. sales_loop A B fb ib summary purchases sales hp w = (Inr res, w')
    \<and> (res = Inl (lockError summary) \<or>
       (\<exists>hp'. res = Inr hp' \<and> sales_processed A B w' fb purchases sales hp
          (issue_all (fifo_issue (unit_cost A)) (map (\<lambda>s. t_amount (fst hp s)) sales)
             (layers A B w fb (fst hp) purchases)) hp'))"
  using assms(3-5)
proof (induction sales arbitrary: hp w)
  case Nil
  then show ?case by (cases hp) (auto simp: sales_processed_def js.set_all_def)
next
  case (Cons s sales)
  obtain acc w1 where w1: "costOfSalesAccount B fb w = (acc, w1)" by force
  obtain left cost ls where
    i: "fifo_issue (unit_cost A) (t_amount (fst hp s)) (layers A B w fb (fst hp) purchases) = (left, cost, ls)"
    by (metis prod_cases3)
  have s: "s \<notin> set purchases" "s \<notin> set sales" "set sales \<inter> set purchases = {}"
    using Cons.prems(2,3) by auto
  obtain hp1 where run: "processSale A B fb ib s purchases hp w = (Inr hp1, w1)"
    and proc: "sale_processed A B w fb ib s purchases hp (left, cost, ls) hp1"
    using process_sale_refines [OF assms(1) Cons.prems(1) s(1) w1, of ib] i by metis
  show ?case
  proof (cases "cp_isAnyTransactionLocked (snd hp1)")
    case True
    with run show ?thesis by simp
  next
    case False
    have ready1: "purchases_ready A B w fb (fst hp1) purchases" and ls: "layers A B w fb (fst hp1) purchases = ls"
      using proc by (simp_all add: sale_processed_def)
    note frame = purchases_frame [OF assms(2) w1 ready1]
    have amounts: "map (\<lambda>s. t_amount (fst hp1 s)) sales = map (\<lambda>s. t_amount (fst hp s)) sales"
      using proc s by (intro map_cong) (auto simp: sale_processed_def)
    obtain rs ls' where
      rest: "issue_all (fifo_issue (unit_cost A)) (map (\<lambda>s. t_amount (fst hp s)) sales) ls = (rs, ls')" by force
    from Cons.IH [OF frame(1)] Cons.prems(2) s(3) obtain res w' where
      loop: "sales_loop A B fb ib summary purchases sales hp1 w1 = (Inr res, w')" and
      res: "res = Inl (lockError summary) \<or>
        (\<exists>hp'. res = Inr hp' \<and> sales_processed A B w' fb purchases sales hp1 (rs, ls') hp')"
      by (auto simp: amounts frame(2) ls rest)
    have "sales_processed A B w' fb purchases (s # sales) hp ((left, cost) # rs, ls') hp'"
      if "sales_processed A B w' fb purchases sales hp1 (rs, ls') hp'" for hp'
      using sales_processed_step [OF assms(1) proc i that] s by simp
    with run False loop res show ?thesis by (auto simp: i rest)
  qed
qed

end
