(* ===== verification/RunInvariant.thy ===== *)
theory RunInvariant
  imports FifoRefinement
begin

text \<open>
  Invariants of a run: what the setters of the processor keep, and what the changes of the
  working copies a run makes keep, holds from the first credit note to the batches. The
  contract is a locale; the lock note, the keys of the batches, the absence of new open
  sales and the origin of the created parts are instances of it.
\<close>

lemma tx_frame [simp]:
  "t_date (liquidated_purchase A sale pinfo t) = t_date t" "t_id (liquidated_purchase A sale pinfo t) = t_id t"
  "t_date (remaining_purchase A q c pinfo t) = t_date t" "t_id (remaining_purchase A q c pinfo t) = t_id t"
  by (simp_all add: liquidated_purchase_def remaining_purchase_def Let_def)

text \<open>What no step of a run changes of a transaction: date, identifier and kind; a check mark stays.\<close>

definition tx_kept :: "transaction \<Rightarrow> transaction \<Rightarrow> bool" where
  "tx_kept t t' =
     (t_date t' = t_date t \<and> t_id t' = t_id t \<and> t_posted t' = t_posted t
      \<and> t_creditAccount t' = t_creditAccount t \<and> t_debitAccount t' = t_debitAccount t
      \<and> (t_checked t \<longrightarrow> t_checked t'))"

lemma tx_kept_refl [simp]: "tx_kept t t"
  by (simp add: tx_kept_def)

lemma tx_kept_steps [simp]:
  "tx_kept t (liquidated_purchase A sale pinfo t)" "tx_kept t (remaining_purchase A q c pinfo t)"
  "tx_kept t (t\<lparr>t_amount := x\<rparr>)" "tx_kept t (t\<lparr>t_checked := True\<rparr>)"
  "tx_kept t ((set_prop k v t')\<lparr>t_checked := True\<rparr>) = tx_kept t (t'\<lparr>t_checked := True\<rparr>)"
  by (simp_all add: tx_kept_def liquidated_purchase_def remaining_purchase_def set_prop_def Let_def)

lemma tx_kept_set_prop [simp]: "tx_kept t (set_prop k v t') = tx_kept t t'"
  by (simp add: tx_kept_def set_prop_def)

text \<open>
  What a run creates in the inventory book: a checked part of a transaction it worked on,
  which it names as the parent, and never a transaction with a log or an original quantity
  of its own.
\<close>

definition part_of :: "transaction \<Rightarrow> transaction \<Rightarrow> bool" where
  "part_of t part =
     (t_checked part \<and> t_prop part PARENT_ID = Some (t_id t)
      \<and> t_prop part PURCHASE_LOG_PROP = None \<and> t_prop part ORIGINAL_QUANTITY_PROP = None)"

lemma created_parts [simp]:
  "t_id t' = t_id t \<Longrightarrow> part_of t (splitted_purchase A sale q c pinfo code i t')"
  "part_of t (credit_note_split t q code cn)"
  by (simp_all add: part_of_def splitted_purchase_def credit_note_split_def new_transaction_def)

lemma map_set_same: "map_get m k = Some v \<Longrightarrow> map_set k v m = m"
  unfolding map_get_def map_set_def by (induction m) (auto split: if_splits)

lemma get_in_values: "map_get m k = Some v \<Longrightarrow> v \<in> set (map_values m)"
  by (force simp: map_get_def map_values_def dest: map_of_SomeD)

text \<open>The invariant may speak of the purchases \<open>R\<close> of the run.\<close>

locale run_invariant =
  fixes B :: "'w bkper_app" and R :: "ref set" and I :: "'w \<Rightarrow> store \<Rightarrow> calc_processor \<Rightarrow> bool"
  assumes inv_create: "I w h p \<Longrightarrow> r \<in> R \<Longrightarrow> part_of (h r) t \<Longrightarrow>
             I w h (cp_setInventoryBookTransactionToCreate B w t p)"
    and inv_update: "I w h p \<Longrightarrow> I w h (cp_setInventoryBookTransactionToUpdate B w h r p)"
    and inv_financial: "I w h p \<Longrightarrow> I w h (cp_setFinancialBookTransactionToCreate B w t p)"
    and inv_generated: "I w h p \<Longrightarrow> I w h (p\<lparr>cp_generated := n\<rparr>)"
    and inv_store: "I w h p \<Longrightarrow> (\<And>r. tx_kept (h r) (h' r)) \<Longrightarrow> I w h' p"
    and inv_account: "I w h p \<Longrightarrow> costOfSalesAccount B fb w = (a, w') \<Longrightarrow> I w' h p"
begin

lemmas intros = inv_update inv_financial inv_generated

lemma inv_process_purchase:
  assumes "process_purchase A B w fb s r st = Inr st'" and "I w (ss_store st) (ss_processor st)" and "r \<in> R"
  shows "I w (ss_store st') (ss_processor st')"
proof -
  note keep = inv_store [OF assms(2)]
  from assms(1) show ?thesis
    by (auto simp: process_purchase_def liquidate_purchase_def split_purchase_def generateId_def Let_def
        intro!: intros inv_create [OF _ assms(3)] keep split: if_splits)
qed

lemma inv_purchase_loop:
  assumes "purchase_loop A B w fb s rs st = Inr st'" and "I w (ss_store st) (ss_processor st)" and "set rs \<subseteq> R"
  shows "I w (ss_store st') (ss_processor st')"
  using assms
proof (induction rs arbitrary: st)
  case Nil
  then show ?case by simp
next
  case (Cons r rs)
  then show ?case
    by (auto split: if_splits) (metis inv_process_purchase)+
qed

lemma inv_settle_sale:
  assumes "I w (ss_store st) (ss_processor st)"
  shows "I w (ss_store (settle_sale A B w ib s st)) (ss_processor (settle_sale A B w ib s st))"
  using assms by (auto simp: settle_sale_def Let_def intro!: intros inv_store [OF assms])

lemma inv_processSale:
  assumes "processSale A B fb ib s purchases (h, p) w = (Inr (h', p'), w')" and "I w h p"
    and "set purchases \<subseteq> R"
  shows "I w' h' p'"
proof -
  obtain acc w1 where w1: "costOfSalesAccount B fb w = (acc, w1)" by force
  from assms(1) obtain st where loop: "purchase_loop A B w fb s purchases (start_sale s (h, p)) = Inr st"
    and rest: "h' = ss_store (settle_sale A B w ib s st)" "w' = w1"
      "\<exists>t. p' = cp_setFinancialBookTransactionToCreate B w1 t (ss_processor (settle_sale A B w ib s st))"
    by (auto simp: processSale_def start_sale_def addCostOfSales_def w1 Let_def split: sum.splits)
  from inv_purchase_loop [OF loop _ assms(3)] assms(2) have "I w (ss_store st) (ss_processor st)" by simp
  from inv_account [OF inv_settle_sale [OF this] w1] rest show ?thesis
    by (auto intro: inv_financial)
qed

lemma inv_sales_loop:
  assumes "sales_loop A B fb ib summary purchases sales (h, p) w = (Inr (Inr (h', p')), w')" and "I w h p"
    and "set purchases \<subseteq> R"
  shows "I w' h' p'"
  using assms(1,2)
proof (induction sales arbitrary: h p w)
  case Nil
  then show ?case by simp
next
  case (Cons s sales)
  from Cons.prems(1) obtain h1 p1 w1 where
    run: "processSale A B fb ib s purchases (h, p) w = (Inr (h1, p1), w1)"
    and rest: "sales_loop A B fb ib summary purchases sales (h1, p1) w1 = (Inr (Inr (h', p')), w')"
    by (auto split: prod.splits sum.splits if_splits)
  from Cons.IH [OF rest inv_processSale [OF run Cons.prems(2) assms(3)]] show ?case .
qed

lemma inv_credit_note_step:
  assumes "credit_note_step A B w summary cn (h, p, m) = Inr (Inr (h', p', m'))" and "I w h p"
    and "set (map_values m) \<subseteq> R"
  shows "I w h' p' \<and> map_values m' = map_values m"
proof (cases "map_get m (t_prop (h (snd cn)) PURCHASE_CODE_PROP)")
  case None
  with assms show ?thesis by (auto simp: credit_note_step_def split: prod.splits)
next
  case (Some r)
  let ?h1 = "\<lambda>q. h(r := (h r)\<lparr>t_amount := q\<rparr>)"
  let ?h2 = "\<lambda>q. (?h1 q)(snd cn := (?h1 q (snd cn))\<lparr>t_checked := True\<rparr>)"
  have r: "r \<in> R" using get_in_values [OF Some] assms(3) by blast
  from assms(1) Some obtain q t where new: "h' = ?h2 q"
    "p' = cp_setInventoryBookTransactionToUpdate B w h' (snd cn)
            (cp_setInventoryBookTransactionToUpdate B w (?h1 q) r (cp_setInventoryBookTransactionToCreate B w t p))"
    and t: "part_of (h r) t" and m: "m' = m"
    by (auto simp: credit_note_step_def map_set_same Let_def split: prod.splits if_splits)
  have "I w (?h1 q) (cp_setInventoryBookTransactionToCreate B w t p)"
    by (rule inv_store [OF inv_create [OF assms(2) r t]]) simp_all
  then have "I w (?h1 q)
      (cp_setInventoryBookTransactionToUpdate B w (?h1 q) r (cp_setInventoryBookTransactionToCreate B w t p))"
    by (intro intros)
  then have "I w (?h2 q)
      (cp_setInventoryBookTransactionToUpdate B w (?h1 q) r (cp_setInventoryBookTransactionToCreate B w t p))"
    by (rule inv_store) simp_all
  with new m show ?thesis by (simp only: inv_update)
qed

lemma inv_credit_note_loop:
  assumes "credit_note_loop A B w summary cns (h, p, m) = Inr (Inr (h', p', m'))" and "I w h p"
    and "set (map_values m) \<subseteq> R"
  shows "I w h' p' \<and> map_values m' = map_values m"
  using assms
proof (induction cns arbitrary: h p m)
  case Nil
  then show ?case by simp
next
  case (Cons cn cns)
  from Cons.prems(1) obtain h1 p1 m1 where
    step: "credit_note_step A B w summary cn (h, p, m) = Inr (Inr (h1, p1, m1))"
    and rest: "credit_note_loop A B w summary cns (h1, p1, m1) = Inr (Inr (h', p', m'))"
    by (auto split: sum.splits)
  from Cons.IH [OF rest] inv_credit_note_step [OF step Cons.prems(2,3)] Cons.prems(3) show ?case by simp
qed

end

section \<open>The keys of the batches\<close>

text \<open>
  The collections of a processor are well-formed: no key twice, every transaction under
  its own identifier.
\<close>

definition keyed_by :: "('v \<Rightarrow> 'k) \<Rightarrow> ('k, 'v) js_map \<Rightarrow> bool" where
  "keyed_by f m = (map_inv m \<and> (\<forall>(k, v) \<in> set m. k = f v))"

definition batches_keyed :: "store \<Rightarrow> calc_processor \<Rightarrow> bool" where
  "batches_keyed h p =
     (keyed_by getRemoteId (cp_inventoryToCreate p) \<and> keyed_by (\<lambda>r. t_id (h r)) (cp_inventoryToUpdate p)
      \<and> keyed_by getRemoteId (cp_financialToCreate p))"

lemma set_map_set: "set (map_set k v m) \<subseteq> insert (k, v) (set m)"
  by (induction m) (auto simp: map_set_def)

lemma keyed_by_empty [simp]: "keyed_by f map_empty"
  by (simp add: keyed_by_def js.inv_empty) (simp add: map_empty_def)

lemma keyed_by_set: "keyed_by f m \<Longrightarrow> k = f v \<Longrightarrow> keyed_by f (map_set k v m)"
  using set_map_set [of k v m] js.inv_set by (fastforce simp: keyed_by_def)

lemma keyed_by_distinct:
  assumes "keyed_by f m"
  shows "distinct (map f (map_values m))"
proof -
  have "map f (map snd m) = map fst m" using assms by (auto simp: keyed_by_def)
  then show ?thesis using assms by (simp add: keyed_by_def map_values_def map_inv_def del: map_map)
qed

lemma batches_keyed_new: "batches_keyed h (new_CalculateCostOfSalesProcessor ib fb)"
  by (simp add: batches_keyed_def new_CalculateCostOfSalesProcessor_def)

interpretation keyed: run_invariant B UNIV "\<lambda>_. batches_keyed" for B
proof unfold_locales
  fix w h p t r n
  assume I: "batches_keyed h p"
  then show "batches_keyed h (cp_setInventoryBookTransactionToCreate B w t p)"
    and "batches_keyed h (cp_setInventoryBookTransactionToUpdate B w h r p)"
    and "batches_keyed h (cp_setFinancialBookTransactionToCreate B w t p)"
    by (simp_all add: batches_keyed_def processor_defs keyed_by_set)
  from I show "batches_keyed h (p\<lparr>cp_generated := n\<rparr>)" by (simp add: batches_keyed_def)
  show "batches_keyed h' p" if "\<And>r. tx_kept (h r) (h' r)" for h'
    using I that by (simp add: batches_keyed_def tx_kept_def)
qed

lemma batches_keyed_distinct:
  assumes "batches_keyed h p"
  shows "distinct (map getRemoteId (map_values (cp_inventoryToCreate p)))"
    and "distinct (map (\<lambda>r. t_id (h r)) (map_values (cp_inventoryToUpdate p)))"
    and "distinct (map getRemoteId (map_values (cp_financialToCreate p)))"
  using assms keyed_by_distinct by (auto simp: batches_keyed_def)

end
