(* ===== verification/CalculateLocks.thy ===== *)
theory CalculateLocks
  imports RunInvariant
begin

text \<open>
  The lock guard over a whole calculation: the note of locked transactions that the
  processor keeps covers every transaction of its collections, through all steps of a
  run, so a run that reaches the batches sends no locked transaction.
\<close>

section \<open>What the service promises about locks\<close>

text \<open>
  Documented behaviour: a transaction is locked by the lock date or the closing date of
  its book, so the answer depends on the date of the transaction, and creating an account
  does not change it.
\<close>

definition locks_stable :: "'w bkper_app \<Rightarrow> bool" where
  "locks_stable B =
     ((\<forall>w b t t'. t_date t = t_date t' \<longrightarrow> app_isLocked B w b t = app_isLocked B w b t')
      \<and> (\<forall>w b a. app_isLocked B (snd (app_createAccount B b a w)) = app_isLocked B w))"

lemma locks_stable_date:
  "locks_stable B \<Longrightarrow> t_date t = t_date t' \<Longrightarrow> app_isLocked B w b t = app_isLocked B w b t'"
  unfolding locks_stable_def by blast

lemma locks_stable_costOfSalesAccount:
  assumes "locks_stable B" and "costOfSalesAccount B fb w = (acc, w')"
  shows "app_isLocked B w' = app_isLocked B w"
proof -
  have create: "app_isLocked B (snd (app_createAccount B b a w)) = app_isLocked B w" for b a
    using assms(1) by (simp add: locks_stable_def)
  show ?thesis
    using assms(2) create [of fb "new_account COGS_ACCOUNT OUTGOING"]
    by (simp add: costOfSalesAccount_def split: option.splits)
qed

section \<open>The note covers the collections\<close>

definition unlocked :: "'w bkper_app \<Rightarrow> 'w \<Rightarrow> store \<Rightarrow> calc_processor \<Rightarrow> bool" where
  "unlocked B w h p =
     ((\<forall>t \<in> set (map_values (cp_inventoryToCreate p)). \<not> app_isLocked B w (cp_inventoryBook p) t)
      \<and> (\<forall>r \<in> set (map_values (cp_inventoryToUpdate p)). \<not> app_isLocked B w (cp_inventoryBook p) (h r))
      \<and> (\<forall>t \<in> set (map_values (cp_financialToCreate p)). \<not> app_isLocked B w (cp_financialBook p) t))"

definition lock_noted :: "'w bkper_app \<Rightarrow> 'w \<Rightarrow> store \<Rightarrow> calc_processor \<Rightarrow> bool" where
  "lock_noted B w h p = (cp_isAnyTransactionLocked p \<or> unlocked B w h p)"

lemma values_map_set: "set (map_values (map_set k v m)) \<subseteq> insert v (set (map_values m))"
  by (induction m) (auto simp: map_values_def map_set_def split: if_splits)

lemma values_map_setD:
  "x \<in> set (map_values (map_set k v m)) \<Longrightarrow> x = v \<or> x \<in> set (map_values m)"
  using values_map_set [of k v m] by blast

lemma lock_noted_new: "lock_noted B w h (new_CalculateCostOfSalesProcessor ib fb)"
  by (simp add: lock_noted_def unlocked_def new_CalculateCostOfSalesProcessor_def js.values_empty)

lemma lock_noted_generateId [simp]:
  "lock_noted B w h (p\<lparr>cp_generated := n\<rparr>) = lock_noted B w h p"
  by (simp add: lock_noted_def unlocked_def)

lemma lock_noted_create:
  "lock_noted B w h p \<Longrightarrow> lock_noted B w h (cp_setInventoryBookTransactionToCreate B w t p)"
  by (auto simp: lock_noted_def unlocked_def processor_defs dest!: values_map_setD)

lemma lock_noted_update:
  "lock_noted B w h p \<Longrightarrow> lock_noted B w h (cp_setInventoryBookTransactionToUpdate B w h r p)"
  by (auto simp: lock_noted_def unlocked_def processor_defs dest!: values_map_setD)

lemma lock_noted_financial:
  "lock_noted B w h p \<Longrightarrow> lock_noted B w h (cp_setFinancialBookTransactionToCreate B w t p)"
  by (auto simp: lock_noted_def unlocked_def processor_defs dest!: values_map_setD)

lemma lock_noted_store:
  assumes "locks_stable B" and "lock_noted B w h p" and "\<And>r. t_date (h' r) = t_date (h r)"
  shows "lock_noted B w h' p"
  using assms(2) locks_stable_date [OF assms(1) assms(3)] by (simp add: lock_noted_def unlocked_def)

lemma lock_noted_world:
  "app_isLocked B w' = app_isLocked B w \<Longrightarrow> lock_noted B w' h p = lock_noted B w h p"
  by (simp add: lock_noted_def unlocked_def)

section \<open>Every step of a run keeps the note\<close>

text \<open>The locks themselves do not change during a run either.\<close>

lemma lock_run_invariant:
  assumes "locks_stable B"
  shows "run_invariant B UNIV (\<lambda>w h p. lock_noted B w h p \<and> app_isLocked B w = locks)"
proof unfold_locales
  fix w h p t r n
  assume I: "lock_noted B w h p \<and> app_isLocked B w = locks"
  then show "lock_noted B w h (cp_setInventoryBookTransactionToCreate B w t p) \<and> app_isLocked B w = locks"
    and "lock_noted B w h (cp_setInventoryBookTransactionToUpdate B w h r p) \<and> app_isLocked B w = locks"
    and "lock_noted B w h (cp_setFinancialBookTransactionToCreate B w t p) \<and> app_isLocked B w = locks"
    and "lock_noted B w h (p\<lparr>cp_generated := n\<rparr>) \<and> app_isLocked B w = locks"
    by (simp_all add: lock_noted_create lock_noted_update lock_noted_financial)
  show "lock_noted B w h' p \<and> app_isLocked B w = locks" if "\<And>r. tx_kept (h r) (h' r)" for h'
    using I lock_noted_store [where h = h and h' = h' and w = w and p = p, OF assms] that
    by (simp add: tx_kept_def)
  show "lock_noted B w' h p \<and> app_isLocked B w' = locks"
    if "costOfSalesAccount B fb w = (a, w')" for fb a w'
    using I locks_stable_costOfSalesAccount [OF assms that] lock_noted_world by metis
qed

text \<open>A run with sales that returns no error has read the note.\<close>

lemma sales_loop_unlocked:
  assumes "sales_loop A B fb ib summary purchases sales hp w = (Inr (Inr (h', p')), w')"
    and "sales \<noteq> [] \<or> \<not> cp_isAnyTransactionLocked (snd hp)"
  shows "\<not> cp_isAnyTransactionLocked p'"
  using assms by (induction sales arbitrary: hp w) (auto split: prod.splits sum.splits if_splits)

lemma lock_noted_sales_loop:
  assumes "locks_stable B"
    and "sales_loop A B fb ib summary purchases sales (h, p) w = (Inr (Inr (h', p')), w')"
    and "lock_noted B w h p" and "sales \<noteq> [] \<or> \<not> cp_isAnyTransactionLocked p"
  shows "unlocked B w' h' p' \<and> app_isLocked B w' = app_isLocked B w"
  using run_invariant.inv_sales_loop [OF lock_run_invariant [OF assms(1)] assms(2) _ subset_UNIV] assms(3,4)
    sales_loop_unlocked [OF assms(2)] by (simp add: lock_noted_def)

lemma lock_noted_credit_note_loop:
  assumes "locks_stable B" and "credit_note_loop A B w summary cns (h, p, m) = Inr (Inr (h', p', m'))"
    and "lock_noted B w h p"
  shows "lock_noted B w h' p'"
  using run_invariant.inv_credit_note_loop [OF lock_run_invariant [OF assms(1)] assms(2) _ subset_UNIV] assms(3) by simp

section \<open>A book without locks\<close>

text \<open>Where nothing is locked a run is never stopped by the note.\<close>

definition no_lock :: "'w bkper_app \<Rightarrow> 'w \<Rightarrow> bool" where
  "no_lock B w = (\<forall>b t. \<not> app_isLocked B w b t)"

lemma lock_free_invariant:
  assumes "locks_stable B"
  shows "run_invariant B UNIV (\<lambda>w h p. \<not> cp_isAnyTransactionLocked p \<and> no_lock B w)"
proof unfold_locales
  fix w h r n and p :: calc_processor and t
  assume I: "\<not> cp_isAnyTransactionLocked p \<and> no_lock B w"
  then show "\<not> cp_isAnyTransactionLocked (cp_setInventoryBookTransactionToCreate B w t p) \<and> no_lock B w"
    and "\<not> cp_isAnyTransactionLocked (cp_setInventoryBookTransactionToUpdate B w h r p) \<and> no_lock B w"
    and "\<not> cp_isAnyTransactionLocked (cp_setFinancialBookTransactionToCreate B w t p) \<and> no_lock B w"
    and "\<not> cp_isAnyTransactionLocked (p\<lparr>cp_generated := n\<rparr>) \<and> no_lock B w"
    by (simp_all add: processor_defs no_lock_def)
  show "\<not> cp_isAnyTransactionLocked p \<and> no_lock B w'" if "costOfSalesAccount B fb w = (a, w')" for fb a w'
    using I locks_stable_costOfSalesAccount [OF assms that] by (simp add: no_lock_def)
qed

lemma sales_loop_lock_free:
  assumes "locks_stable B" and "\<not> cp_isAnyTransactionLocked (snd hp)" and "no_lock B w"
  shows "fst (sales_loop A B fb ib summary purchases sales hp w) \<noteq> Inr (Inl s)"
  using assms(2,3)
proof (induction sales arbitrary: hp w)
  case Nil
  then show ?case by simp
next
  case (Cons x sales)
  have "\<not> cp_isAnyTransactionLocked p' \<and> no_lock B w'"
    if "processSale A B fb ib x purchases hp w = (Inr (h', p'), w')" for h' p' w'
    using run_invariant.inv_processSale [OF lock_free_invariant [OF assms(1)], of A fb ib x purchases "fst hp" "snd hp"]
      Cons.prems that by simp
  then show ?case using Cons.IH by (auto split: prod.splits sum.splits)
qed

lemma lock_free_run:
  assumes "locks_stable B" and "no_lock B w"
    and "credit_note_loop A B w summary cns (h, new_CalculateCostOfSalesProcessor ib' fb', m) = Inr (Inr (h1, p1, m1))"
  shows "fst (sales_loop A B fb ib summary purchases sales (h1, p1) w) \<noteq> Inr (Inl s)"
proof -
  have "\<not> cp_isAnyTransactionLocked p1"
    using run_invariant.inv_credit_note_loop [OF lock_free_invariant [OF assms(1)] assms(3) _ subset_UNIV] assms(2)
    by (simp add: new_CalculateCostOfSalesProcessor_def)
  then show ?thesis by (intro sales_loop_lock_free [OF assms(1) _ assms(2)]) simp
qed

end
