(* ===== verification/CalculateProperties.thy ===== *)
theory CalculateProperties
  imports CalculateLocks DemoService
begin

text \<open>
  The properties of the calculation service: what a sale costs, which purchases it uses,
  what a run books and what it leaves in stock, and when nothing is written.
\<close>

section \<open>The order in which purchases are used\<close>

lemma process_purchase_frame:
  assumes "process_purchase A B w fb s r st = Inr st'"
  shows "i \<noteq> r \<Longrightarrow> ss_store st' i = ss_store st i"
    and "soldQuantity st' = 0 \<or> t_checked (ss_store st' r)"
  using assms
  by (auto simp: process_purchase_def split_purchase_def Let_def split: if_splits prod.splits)

lemma purchase_loop_prefix:
  assumes "purchase_loop A B w fb s rs st = Inr st'" and "distinct rs"
  shows "\<exists>k. (\<forall>i < k. i < length rs \<longrightarrow> t_checked (ss_store st' (rs ! i)))
           \<and> (\<forall>i. k < i \<and> i < length rs \<longrightarrow> ss_store st' (rs ! i) = ss_store st (rs ! i))
           \<and> (\<forall>i. i \<notin> set rs \<longrightarrow> ss_store st' i = ss_store st i)"
  using assms
proof (induction rs arbitrary: st)
  case Nil
  then show ?case by auto
next
  case (Cons r rs)
  have notr: "rs ! i \<noteq> r" if "i < length rs" for i using that Cons.prems(2) by auto
  have extend: ?case
    if rest: "purchase_loop A B w fb s rs st1 = Inr st'" and r: "t_checked (ss_store st1 r)"
      and frame: "\<And>i. i \<noteq> r \<Longrightarrow> ss_store st1 i = ss_store st i" for st1
  proof -
    from Cons.IH [OF rest] Cons.prems(2) obtain k where
      k: "\<forall>i < k. i < length rs \<longrightarrow> t_checked (ss_store st' (rs ! i))"
         "\<forall>i. k < i \<and> i < length rs \<longrightarrow> ss_store st' (rs ! i) = ss_store st1 (rs ! i)"
         "\<forall>i. i \<notin> set rs \<longrightarrow> ss_store st' i = ss_store st1 i"
      by auto
    with notr r frame Cons.prems(2) show ?thesis
      by (intro exI [of _ "Suc k"]) (auto simp: nth_Cons split: nat.splits)
  qed
  show ?case
  proof (cases "t_checked (ss_store st r)")
    case True
    with Cons.prems(1) show ?thesis by (intro extend [of st]) simp_all
  next
    case False
    with Cons.prems(1) obtain st1 where step: "process_purchase A B w fb s r st = Inr st1"
      and rest: "if soldQuantity st1 = 0 then st1 = st' else purchase_loop A B w fb s rs st1 = Inr st'"
      by (auto split: if_splits)
    note frame = process_purchase_frame [OF step]
    show ?thesis
    proof (cases "soldQuantity st1 = 0")
      case True
      with rest frame(1) notr show ?thesis
        by (intro exI [of _ 0]) (auto simp: nth_Cons split: nat.splits)
    next
      case False
      with rest frame show ?thesis by (intro extend [of st1]) auto
    qed
  qed
qed

section \<open>An example the properties are applied to\<close>

abbreviation demo_store :: store where
  "demo_store \<equiv> (\<lambda>i. demo_transactions ! i)"

abbreviation demo_processor :: calc_processor where
  "demo_processor \<equiv> new_CalculateCostOfSalesProcessor inventory_book financial_book"

lemma demo_parseDate: "\<exists>t. parseDate f ''2024-01-05'' = Some t"
  by (simp add: parseDate_def js_split_def parseInt_def radix_digit_def is_digit_def is_space_def
      code_unit_def prefix_def Let_def numeral_eq_Suc)

lemma demo_purchase_ready_in:
  assumes "0 < q" and "w = demo_world\<lparr>d_transactions := f\<rparr>" and "f ''fin'' = []"
  shows "purchase_ready decimal_lib demo_app w financial_book (demo_purchase i day q c)"
    and "layer_cost decimal_lib demo_app w financial_book (demo_purchase i day q c) = c"
proof -
  obtain t where t: "parseDate (\<lambda>t. t) ''2024-01-05'' = Some t"
    using demo_parseDate by blast
  have "purchase_costs demo_app w financial_book (demo_purchase i day q c) = Inr (0, 0)"
    using assms(2,3) by (simp add: purchase_costs_def getAdditionalCostsAndCreditNotes_def demo_tx_defs demo_defs t Let_def)
  moreover have "am_new decimal_lib (Some (show_amount x)) = Some x" for x
    by (simp add: decimal_lib_def)
  ultimately show "purchase_ready decimal_lib demo_app w financial_book (demo_purchase i day q c)"
    and "layer_cost decimal_lib demo_app w financial_book (demo_purchase i day q c) = c"
    using assms(1) by (simp_all add: purchase_ready_def layer_cost_def demo_tx_defs)
qed

lemma demo_purchase_ready:
  assumes "0 < q"
  shows "purchase_ready decimal_lib demo_app demo_world financial_book (demo_purchase i day q c)"
    and "layer_cost decimal_lib demo_app demo_world financial_book (demo_purchase i day q c) = c"
  using demo_purchase_ready_in [OF assms, of demo_world "d_transactions demo_world"] by (simp_all add: demo_world_def)

lemma demo_purchases_ready:
  "purchases_ready decimal_lib demo_app demo_world financial_book demo_store [0, 1]"
  using demo_purchase_ready(1) [of 10 "''p1''" 20240105 100] demo_purchase_ready(1) [of 5 "''p2''" 20240110 60]
  by (simp add: purchases_ready_def demo_transactions_def)

lemma demo_layers:
  "layers decimal_lib demo_app demo_world financial_book demo_store [0, 1] = [(10, 100), (5, 60)]"
  using demo_purchase_ready(2) [of 10 "''p1''" 20240105 100] demo_purchase_ready(2) [of 5 "''p2''" 20240110 60]
  by (simp add: demo_transactions_def layer_of_def) (simp add: demo_purchase_def demo_tx_def)

lemma demo_sale_amount: "t_amount (demo_store 2) = 12" "t_id (demo_store 2) = ''s1''"
  by (simp_all add: demo_tx_defs)

lemma demo_unit_cost: "unit_cost decimal_lib 60 5 = 12"
proof -
  have "rat_of_amount (unit_cost decimal_lib 60 5) = rat_of_amount 12"
    by (simp add: unit_cost_def decimal_lib_def)
  then show ?thesis by (simp only: rat_of_amount_eq_iff)
qed

lemma demo_issue:
  "fifo_issue (unit_cost decimal_lib) (t_amount (demo_store 2))
     (layers decimal_lib demo_app demo_world financial_book demo_store [0, 1]) = (0, 124, [(3, 36)])"
  by (simp only: demo_layers demo_sale_amount) (simp add: demo_unit_cost)

lemma demo_account_creation_frame: "account_creation_frame demo_app"
  by (auto simp: account_creation_frame_def demo_app_def log_call_def find_append
      split: option.splits)

section \<open>One sale\<close>

text \<open>
  C3. Processing a sale implements the FIFO contract. When the purchases the loop meets
  can be read, \<open>processSale\<close> raises no exception; it takes the quantity of the sale from the
  oldest unchecked purchases, leaves exactly the layers the specification leaves, and
  stores one cost of sales transaction, under the identifier of the sale, whose amount is
  the cost the specification computes.
\<close>

theorem processSale_implements_fifo:
  assumes "amount_laws A" and "purchases_ready A B w fb h purchases" and "s \<notin> set purchases"
    and "costOfSalesAccount B fb w = (acc, w')"
    and "fifo_issue (unit_cost A) (t_amount (h s)) (layers A B w fb h purchases) = (left, cost, ls')"
  shows "\<exists>h' p' cogs. processSale A B fb ib s purchases (h, p) w = (Inr (h', p'), w')
     \<and> layers A B w fb h' purchases = ls' \<and> purchases_ready A B w fb h' purchases
     \<and> t_amount cogs = cost
     \<and> cp_financialToCreate p' = map_set (t_id (h s)) cogs (cp_financialToCreate p)"
  using process_sale_refines [of A B w fb "(h, p)" purchases s acc w' ib] assms
  by (auto simp: sale_processed_def)

theorem processSale_implements_fifo_witness:
  "\<exists>h' p' cogs w'. processSale decimal_lib demo_app financial_book inventory_book 2 [0, 1]
       (demo_store, demo_processor) demo_world = (Inr (h', p'), w')
     \<and> layers decimal_lib demo_app demo_world financial_book h' [0, 1] = [(3, 36)]
     \<and> t_amount cogs = 124
     \<and> cp_financialToCreate p' = map_set ''s1'' cogs (cp_financialToCreate demo_processor)"
proof -
  obtain acc w' where w': "costOfSalesAccount demo_app financial_book demo_world = (acc, w')" by force
  then show ?thesis
    using processSale_implements_fifo [OF decimal_lib_laws demo_purchases_ready _ w' demo_issue,
        of inventory_book demo_processor]
    by (auto simp: demo_sale_amount simp del: layers_simps)
qed

text \<open>
  C4. A sale is closed exactly with its cost, and only when it is covered. For a sale that
  meets open stock: if the quantity the issue leaves over, rounded to the digits of the
  inventory book, is zero, the sale is checked and carries the issued cost; if it does not
  round to zero, the sale is not touched, although the cost of sales transaction of what
  was found is stored all the same.
\<close>

theorem sale_closed_only_when_covered:
  assumes "amount_laws A" and "purchases_ready A B w fb h purchases" and "s \<notin> set purchases"
    and "costOfSalesAccount B fb w = (acc, w')"
    and "fifo_issue (unit_cost A) (t_amount (h s)) (layers A B w fb h purchases) = (left, cost, ls')"
    and "layers A B w fb h purchases \<noteq> []"
    and "processSale A B fb ib s purchases (h, p) w = (Inr (h', p'), w')"
  shows "(if am_round A left (b_fractionDigits ib) = 0
          then t_checked (h' s) \<and> t_prop (h' s) TOTAL_COST_PROP = Some (am_toString A cost)
          else h' s = h s)
       \<and> (\<exists>cogs. map_get (cp_financialToCreate p') (t_id (h s)) = Some cogs \<and> t_amount cogs = cost)"
  using process_sale_refines [of A B w fb "(h, p)" purchases s acc w' ib] assms
  by (auto simp: sale_processed_def map_get_def map_set_def update_conv)

theorem sale_closed_only_when_covered_witness:
  "\<exists>h' p' w'. processSale decimal_lib demo_app financial_book inventory_book 2 [0, 1]
       (demo_store, demo_processor) demo_world = (Inr (h', p'), w') \<and> t_checked (h' 2)"
proof -
  obtain acc w' where w': "costOfSalesAccount demo_app financial_book demo_world = (acc, w')" by force
  obtain h' p' where
    run: "processSale decimal_lib demo_app financial_book inventory_book 2 [0, 1]
       (demo_store, demo_processor) demo_world = (Inr (h', p'), w')"
    using process_sale_refines [OF decimal_lib_laws, of demo_app demo_world financial_book
        "(demo_store, demo_processor)" "[0, 1]" 2 acc w' inventory_book] demo_purchases_ready w'
    by auto
  have "layers decimal_lib demo_app demo_world financial_book demo_store [0, 1] \<noteq> []"
    by (simp only: demo_layers) simp
  then have "t_checked (h' 2)"
    using sale_closed_only_when_covered [OF decimal_lib_laws demo_purchases_ready _ w' demo_issue _ run]
    by simp
  with run show ?thesis by blast
qed

text \<open>
  C6. First in, first out, on the objects themselves. Whatever the loop over the purchases
  does, there is a position such that every purchase before it ends checked (used up) and
  every purchase after it is left exactly as it was: no younger purchase is touched while
  an older one is still open.
\<close>

theorem purchases_used_oldest_first:
  assumes "purchase_loop A B w fb s rs st = Inr st'" and "distinct rs"
  shows "\<exists>k. (\<forall>i < k. i < length rs \<longrightarrow> t_checked (ss_store st' (rs ! i)))
           \<and> (\<forall>i. k < i \<and> i < length rs \<longrightarrow> ss_store st' (rs ! i) = ss_store st (rs ! i))
           \<and> (\<forall>i. i \<notin> set rs \<longrightarrow> ss_store st' i = ss_store st i)"
  using assms by (rule purchase_loop_prefix)

theorem purchases_used_oldest_first_witness:
  "\<exists>st' k. purchase_loop decimal_lib demo_app demo_world financial_book 2 [0, 1]
       (start_sale 2 (demo_store, demo_processor)) = Inr st'
     \<and> (\<forall>i < k. i < 2 \<longrightarrow> t_checked (ss_store st' ([0, 1] ! i)))
     \<and> (\<forall>i. k < i \<and> i < 2 \<longrightarrow> ss_store st' ([0, 1] ! i) = demo_store ([0, 1] ! i))"
proof -
  obtain st' where run: "purchase_loop decimal_lib demo_app demo_world financial_book 2 [0, 1]
       (start_sale 2 (demo_store, demo_processor)) = Inr st'"
    using purchase_loop_refines [OF decimal_lib_laws, of demo_app demo_world financial_book
        "start_sale 2 (demo_store, demo_processor)" "[0, 1]" 2] demo_purchases_ready
    by auto
  then show ?thesis
    using purchases_used_oldest_first [OF run] by (auto simp: numeral_2_eq_2 simp del: ex_simps)
qed

section \<open>A whole run\<close>

lemma set_all_values:
  assumes "distinct ks" and "length ks = length vs"
  shows "map_values (js.set_all (zip ks vs) map_empty) = vs"
  using assms js.values_set_all [OF js.inv_empty, of "zip ks vs"]
  by (simp add: js.get_empty js.values_empty)

lemma sales_loop_processed:
  assumes "amount_laws A" and "account_creation_frame B" and "purchases_ready A B w fb h purchases"
    and "distinct sales" and "set sales \<inter> set purchases = {}"
    and "sales_loop A B fb ib summary purchases sales (h, p) w = (Inr (Inr (h', p')), w')"
  shows "sales_processed A B w' fb purchases sales (h, p)
          (issue_all (fifo_issue (unit_cost A)) (map (\<lambda>s. t_amount (h s)) sales)
             (layers A B w fb h purchases)) (h', p')"
  using sales_loop_refines [of A B w fb "(h, p)" purchases sales ib summary] assms by auto

lemma sales_booked:
  assumes "sales_processed A B w' fb purchases sales (h, p) (rs, ls') (h', p')"
    and "cp_financialToCreate p = map_empty" and "distinct (map (\<lambda>s. t_id (h s)) sales)"
    and "length rs = length sales"
  shows "map t_amount (map_values (cp_financialToCreate p')) = map snd rs"
proof -
  from assms(1,2) obtain cogs where cogs: "map t_amount cogs = map snd rs"
    "cp_financialToCreate p' = js.set_all (zip (map (\<lambda>s. t_id (h s)) sales) cogs) map_empty"
    by (auto simp: sales_processed_def)
  have "length cogs = length sales" using cogs(1) assms(4) by (metis length_map)
  with set_all_values [OF assms(3), of cogs] cogs show ?thesis by simp
qed

text \<open>
  C7. The books balance. When the sales of a run are processed to the end, the amounts of
  the cost of sales transactions to be created add up to exactly the value the stock lost:
  the cost of the purchases before the run equals what is booked as cost of goods sold
  plus the cost the purchases still carry. No rounding of the unit costs gets lost or
  counted twice.
\<close>

theorem run_conserves_value:
  assumes "amount_laws A" and "account_creation_frame B" and "purchases_ready A B w fb h purchases"
    and "distinct sales" and "set sales \<inter> set purchases = {}"
    and "distinct (map (\<lambda>s. t_id (h s)) sales)" and "cp_financialToCreate p = map_empty"
    and "sales_loop A B fb ib summary purchases sales (h, p) w = (Inr (Inr (h', p')), w')"
  shows "stock_value (layers A B w fb h purchases) =
         sum_list (map t_amount (map_values (cp_financialToCreate p')))
         + stock_value (layers A B w' fb h' purchases)"
proof -
  obtain rs ls' where i: "issue_all (fifo_issue (unit_cost A)) (map (\<lambda>s. t_amount (h s)) sales)
      (layers A B w fb h purchases) = (rs, ls')" by force
  note proc = sales_loop_processed [OF assms(1-5,8), unfolded i]
  have "length rs = length sales" using issue_all_length [OF i] by simp
  then have "map t_amount (map_values (cp_financialToCreate p')) = map snd rs"
    by (rule sales_booked [OF proc assms(7,6)])
  moreover have "layers A B w' fb h' purchases = ls'" using proc by (simp add: sales_processed_def)
  ultimately show ?thesis using fifo_stock.issue_all_value [OF i] by simp
qed

text \<open>
  C8. Every sale of a run is closed when the stock suffices. If the quantities of the sales
  are positive and together do not exceed the quantity of the open purchases, a run that
  meets no locked transaction checks every sale and records its cost on it.
\<close>

theorem run_closes_covered_sales:
  assumes "amount_laws A" and "account_creation_frame B" and "purchases_ready A B w fb h purchases"
    and "distinct sales" and "set sales \<inter> set purchases = {}"
    and "\<forall>s \<in> set sales. 0 < t_amount (h s)"
    and "sum_list (map (\<lambda>s. t_amount (h s)) sales) \<le> stock_quantity (layers A B w fb h purchases)"
    and "sales_loop A B fb ib summary purchases sales (h, p) w = (Inr (Inr (h', p')), w')"
  shows "\<forall>s \<in> set sales. t_checked (h' s) \<and> t_prop (h' s) TOTAL_COST_PROP \<noteq> None"
proof -
  obtain rs ls' where i: "issue_all (fifo_issue (unit_cost A)) (map (\<lambda>s. t_amount (h s)) sales)
      (layers A B w fb h purchases) = (rs, ls')" by force
  note proc = sales_loop_processed [OF assms(1-5,8), unfolded i]
  have len: "length rs = length sales" using issue_all_length [OF i] by simp
  have covered: "\<forall>(left, cost) \<in> set rs. left = 0"
  proof -
    have "\<forall>n \<in> set (map (\<lambda>s. t_amount (h s)) sales). 0 \<le> n"
      using assms(6) by (auto intro: less_imp_le)
    from fifo_stock.issue_all_covered [OF i stock_ok_layers [OF assms(3)] this assms(7)] show ?thesis .
  qed
  have "t_checked (h' (sales ! j)) \<and> t_prop (h' (sales ! j)) TOTAL_COST_PROP \<noteq> None"
    if "j < length sales" for j
  proof -
    have "fst (rs ! j) = 0" using covered that len nth_mem [of j rs] by fastforce
    with that assms(6) proc show ?thesis by (simp add: sales_processed_def)
  qed
  then show ?thesis by (metis in_set_conv_nth)
qed

subsection \<open>The example, run to its end\<close>

lemma demo_locks_stable: "locks_stable demo_app"
  by (simp add: locks_stable_def demo_app_def log_call_def)

lemma demo_run:
  obtains h' p' w' where
    "sales_loop decimal_lib demo_app financial_book inventory_book (new_Summary ''w'') [0, 1] [2]
       (demo_store, demo_processor) demo_world = (Inr (Inr (h', p')), w')"
proof -
  let ?hp = "(demo_store, demo_processor)"
  obtain acc w' where w': "costOfSalesAccount demo_app financial_book demo_world = (acc, w')" by force
  have nolock: "no_lock demo_app demo_world" by (simp add: no_lock_def demo_app_def demo_world_def)
  obtain h' p' where run: "processSale decimal_lib demo_app financial_book inventory_book 2 [0, 1] ?hp demo_world
      = (Inr (h', p'), w')"
    using process_sale_refines [OF decimal_lib_laws, of demo_app demo_world financial_book ?hp "[0, 1]" 2 acc w'
        inventory_book] demo_purchases_ready w'
    by auto
  have "\<not> cp_isAnyTransactionLocked p'"
    using run_invariant.inv_processSale [OF lock_free_invariant [OF demo_locks_stable] run _ subset_UNIV] nolock
    by (simp add: new_CalculateCostOfSalesProcessor_def)
  with run show thesis by (intro that) simp
qed

theorem run_conserves_value_witness:
  "\<exists>h' p' w'. sales_loop decimal_lib demo_app financial_book inventory_book (new_Summary ''w'') [0, 1] [2]
       (demo_store, demo_processor) demo_world = (Inr (Inr (h', p')), w')
     \<and> 160 = sum_list (map t_amount (map_values (cp_financialToCreate p')))
         + stock_value (layers decimal_lib demo_app w' financial_book h' [0, 1])"
proof -
  obtain h' p' w' where run: "sales_loop decimal_lib demo_app financial_book inventory_book (new_Summary ''w'')
      [0, 1] [2] (demo_store, demo_processor) demo_world = (Inr (Inr (h', p')), w')"
    by (rule demo_run)
  have v: "stock_value (layers decimal_lib demo_app demo_world financial_book demo_store [0, 1]) = 160"
    by (simp only: demo_layers) simp
  have e: "cp_financialToCreate demo_processor = map_empty"
    by (simp add: new_CalculateCostOfSalesProcessor_def)
  from run_conserves_value [OF decimal_lib_laws demo_account_creation_frame demo_purchases_ready _ _ _ e run] v run
  show ?thesis by (intro exI [of _ h'] exI [of _ p'] exI [of _ w']) (simp del: layers_simps)
qed

theorem run_closes_covered_sales_witness:
  "\<exists>h' p' w'. sales_loop decimal_lib demo_app financial_book inventory_book (new_Summary ''w'') [0, 1] [2]
       (demo_store, demo_processor) demo_world = (Inr (Inr (h', p')), w') \<and> t_checked (h' 2)"
proof -
  obtain h' p' w' where run: "sales_loop decimal_lib demo_app financial_book inventory_book (new_Summary ''w'')
      [0, 1] [2] (demo_store, demo_processor) demo_world = (Inr (Inr (h', p')), w')"
    by (rule demo_run)
  have q: "stock_quantity (layers decimal_lib demo_app demo_world financial_book demo_store [0, 1]) = 15"
    by (simp only: demo_layers) simp
  from run_closes_covered_sales [OF decimal_lib_laws demo_account_creation_frame demo_purchases_ready _ _ _ _ run] q run
  show ?thesis
    by (intro exI [of _ h'] exI [of _ p'] exI [of _ w']) (simp add: demo_sale_amount del: layers_simps)
qed

end
