(* ===== verification/CalculateRun.thy ===== *)
theory CalculateRun
  imports CalculateProperties
begin

text \<open>
  The calculation service as a whole: what a call that calculates has done, that every
  other call leaves the books alone, and which transactions it sends.
\<close>

section \<open>The shape of a call\<close>

lemma collect_one_sales: "co_sales (collect_one A h r c) =
    co_sales c @ (if \<not> t_checked (h r) \<and> isSale (h r) then [r] else [])"
  by (simp add: collect_one_def Let_def)

lemma collect_one_total_sales: "co_totalSales (collect_one A h r c) =
    (if \<not> t_checked (h r) \<and> isSale (h r) then js_add (co_totalSales c) (am_toNumber A (t_amount (h r)))
     else co_totalSales c)"
  by (simp add: collect_one_def Let_def)

lemma fold_collect_sales:
  "co_sales (fold (collect_one A h) rs c) = co_sales c @ filter (\<lambda>r. \<not> t_checked (h r) \<and> isSale (h r)) rs"
  by (induction rs arbitrary: c) (simp_all add: collect_one_sales)

lemma collect_sales: "co_sales (collect A h rs) = filter (\<lambda>r. \<not> t_checked (h r) \<and> isSale (h r)) rs"
  by (simp add: collect_def fold_collect_sales)

lemma fold_collect_no_sales:
  "\<forall>r \<in> set rs. t_checked (h r) \<or> \<not> isSale (h r) \<Longrightarrow>
     co_totalSales (fold (collect_one A h) rs c) = co_totalSales c"
  by (induction rs arbitrary: c) (auto simp: collect_one_total_sales)

lemma collect_no_sales: "co_sales (collect A h rs) = [] \<Longrightarrow> co_totalSales (collect A h rs) = Num 0"
  by (subst (asm) collect_sales) (simp add: collect_def filter_empty_conv fold_collect_no_sales)

text \<open>A call on an account that needs no rebuild, with the values its steps pass on.\<close>

record run =
  r_account :: account
  r_financialBook :: book
  r_store :: store
  r_collected :: collected

definition run_of :: "amount_lib \<Rightarrow> 'w bkper_app \<Rightarrow> string \<Rightarrow> string \<Rightarrow> string option \<Rightarrow> 'w \<Rightarrow> run \<Rightarrow> bool" where
  "run_of A B inventoryBookId goodAccountId toDate w r =
     (let inventoryBook = app_getBook B w inventoryBookId;
          toDate = (if truthy toDate then the toDate else app_today B w inventoryBook);
          transactions = app_getTransactions B w inventoryBook
            (getAccountQuery (a_name (r_account r)) (Some (getBeforeDateIsoString B inventoryBook toDate)) None)
      in app_getAccount B w inventoryBook (Some goodAccountId) = Some (r_account r)
         \<and> \<not> needsRebuild (new_GoodAccount (r_account r))
         \<and> getFinancialBook B w inventoryBook (getExchangeCode (r_account r)) = Some (r_financialBook r)
         \<and> r_store r = (\<lambda>i. transactions ! i)
         \<and> r_collected r = collect A (r_store r) [0..<length transactions])"

lemma calculate_run:
  assumes "run_of A B ibId gaId d w r"
  shows "calculateCostOfSalesForAccount A B ibId gaId d w =
    (if js_eq (co_totalSales (r_collected r)) (Num 0) then (Inr (new_Summary gaId), w)
     else if js_less (co_totalPurchased (r_collected r)) (co_totalSales (r_collected r))
     then (Inr (salequantityError (new_Summary gaId)), w)
     else calculate_collected A B (app_getBook B w ibId) (r_financialBook r) (new_GoodAccount (r_account r))
            (new_Summary gaId) (r_store r) (r_collected r) w)"
  using assms by (simp add: run_of_def calculateCostOfSalesForAccount_def Let_def)

text \<open>Outside a run the service has nothing to calculate, or it resets the account.\<close>

lemma calculate_no_run:
  assumes "\<nexists>r. run_of A B ibId gaId d w r"
    and "app_getAccount B w (app_getBook B w ibId) (Some gaId) = Some account"
    and "\<not> needsRebuild (new_GoodAccount account)"
  shows "calculateCostOfSalesForAccount A B ibId gaId d w =
    (Inr (setResult (''Cannot proceed: financial book not found for good account '' @ a_name account)
       (new_Summary gaId)), w)"
proof (cases "getFinancialBook B w (app_getBook B w ibId) (getExchangeCode account)")
  case None
  with assms(2,3) show ?thesis by (simp add: calculateCostOfSalesForAccount_def Let_def)
next
  case (Some fb)
  define h c where "h = (\<lambda>i. app_getTransactions B w (app_getBook B w ibId)
            (getAccountQuery (a_name account) (Some (getBeforeDateIsoString B (app_getBook B w ibId)
               (if truthy d then the d else app_today B w (app_getBook B w ibId)))) None) ! i)"
    and "c = collect A h [0..<length (app_getTransactions B w (app_getBook B w ibId)
            (getAccountQuery (a_name account) (Some (getBeforeDateIsoString B (app_getBook B w ibId)
               (if truthy d then the d else app_today B w (app_getBook B w ibId)))) None))]"
  have "run_of A B ibId gaId d w \<lparr>r_account = account, r_financialBook = fb, r_store = h, r_collected = c\<rparr>"
    using assms(2,3) Some by (simp add: run_of_def h_def c_def Let_def)
  with assms(1) show ?thesis by blast
qed

text \<open>Only a run returns the summary of a calculation, and only when there are sales.\<close>

lemma calculate_success_run:
  assumes "calculateCostOfSalesForAccount A B ibId gaId d w = (Inr (calculatingAsync (new_Summary gaId)), w')"
  shows "\<exists>r. run_of A B ibId gaId d w r"
proof (rule ccontr)
  assume no: "\<nexists>r. run_of A B ibId gaId d w r"
  from assms obtain account where
    a: "app_getAccount B w (app_getBook B w ibId) (Some gaId) = Some account"
       "\<not> needsRebuild (new_GoodAccount account)"
    by (auto simp: calculateCostOfSalesForAccount_def Let_def bindA_eq_Inr summary_defs
        split: option.splits if_splits)
  from calculate_no_run [OF no a] assms show False by (simp add: summary_defs)
qed

lemma run_collected_sales:
  "run_of A B ibId gaId d w r \<Longrightarrow> co_sales (r_collected r) = [] \<Longrightarrow> co_totalSales (r_collected r) = Num 0"
  using collect_no_sales by (auto simp: run_of_def Let_def)

text \<open>
  What a run hands over to the batches, computed from what it found: the working copies,
  the processor with the batches, the sales in the order they were processed, and the
  platform before the batches are fired.
\<close>

definition run_result ::
    "amount_lib \<Rightarrow> 'w bkper_app \<Rightarrow> book \<Rightarrow> book \<Rightarrow> summary \<Rightarrow> store \<Rightarrow> collected \<Rightarrow> 'w
     \<Rightarrow> (store \<times> calc_processor \<times> ref list \<times> 'w) option" where
  "run_result A B ib fb summary h c w =
     (case credit_note_loop A B w summary (co_creditNotes c)
             (h, new_CalculateCostOfSalesProcessor ib fb, co_purchases c) of
        Inr (Inr (h, p, m)) \<Rightarrow>
          (let sales = sort_fifo h (co_sales c) in
           case sales_loop A B fb ib summary (sort_fifo h (map_values m)) sales (h, p) w of
             (Inr (Inr (h, p)), w) \<Rightarrow> Some (h, p, sales, w)
           | _ \<Rightarrow> None)
      | _ \<Rightarrow> None)"

definition fired ::
    "amount_lib \<Rightarrow> 'w bkper_app \<Rightarrow> string \<Rightarrow> string \<Rightarrow> run \<Rightarrow> 'w \<Rightarrow> (store \<times> calc_processor \<times> ref list \<times> 'w) option" where
  "fired A B ibId gaId r w =
     run_result A B (app_getBook B w ibId) (r_financialBook r) (new_Summary gaId) (r_store r) (r_collected r) w"

text \<open>The steps of a run that reached the batches.\<close>

definition committed ::
    "amount_lib \<Rightarrow> 'w bkper_app \<Rightarrow> book \<Rightarrow> book \<Rightarrow> good_account \<Rightarrow> summary \<Rightarrow> store \<Rightarrow> collected \<Rightarrow> 'w
     \<Rightarrow> store \<Rightarrow> calc_processor \<Rightarrow> 'w \<Rightarrow> 'w \<Rightarrow> bool" where
  "committed A B ib fb g summary h c w h' p' w1 w' =
     (\<exists>h1 p1 m1.
        credit_note_loop A B w summary (co_creditNotes c)
          (h, new_CalculateCostOfSalesProcessor ib fb, co_purchases c) = Inr (Inr (h1, p1, m1))
        \<and> sales_loop A B fb ib summary (sort_fifo h1 (map_values m1)) (sort_fifo h1 (co_sales c)) (h1, p1) w
            = (Inr (Inr (h', p')), w1)
        \<and> w' = storeLastCalcTxDate B ib h' g (sort_fifo h1 (co_sales c)) (cp_fireBatchOperations B h' p' w1))"

lemma committed_result:
  assumes "committed A B ib fb g summary h c w h' p' w1 w'"
  shows "\<exists>sales. run_result A B ib fb summary h c w = Some (h', p', sales, w1)
     \<and> w' = storeLastCalcTxDate B ib h' g sales (cp_fireBatchOperations B h' p' w1)"
  using assms by (auto simp: committed_def run_result_def Let_def)

lemma result_committed:
  "run_result A B ib fb summary h c w = Some (h', p', sales, w1) \<Longrightarrow>
     committed A B ib fb g summary h c w h' p' w1
       (storeLastCalcTxDate B ib h' g sales (cp_fireBatchOperations B h' p' w1))"
  by (auto simp: committed_def run_result_def Let_def split: sum.splits prod.splits)

lemma credit_note_loop_error:
  "credit_note_loop A B w summary cns st = Inr (Inl s) \<Longrightarrow> s_error s"
  by (induction cns arbitrary: st)
    (auto simp: credit_note_step_def Let_def split: sum.splits prod.splits option.splits if_splits)

lemma sales_loop_error:
  "sales_loop A B fb ib summary purchases sales hp w = (Inr (Inl s), w') \<Longrightarrow> s = lockError summary"
  by (induction sales arbitrary: hp w) (auto split: prod.splits sum.splits if_splits)

lemma calculate_collected_committed:
  assumes "calculate_collected A B ib fb g summary h c w = (Inr s, w')" and "\<not> s_error s"
  obtains h' p' w1 where "committed A B ib fb g summary h c w h' p' w1 w'"
proof -
  from assms obtain h1 p1 m1 where
    cn: "credit_note_loop A B w summary (co_creditNotes c)
           (h, new_CalculateCostOfSalesProcessor ib fb, co_purchases c) = Inr (Inr (h1, p1, m1))"
    by (auto simp: calculate_collected_def dest: credit_note_loop_error split: sum.splits prod.splits)
  with assms obtain h' p' w1 where
    "sales_loop A B fb ib summary (sort_fifo h1 (map_values m1)) (sort_fifo h1 (co_sales c)) (h1, p1) w
       = (Inr (Inr (h', p')), w1)"
    "w' = storeLastCalcTxDate B ib h' g (sort_fifo h1 (co_sales c)) (cp_fireBatchOperations B h' p' w1)"
    by (auto simp: calculate_collected_def Let_def dest: sales_loop_error split: sum.splits prod.splits)
  with cn show thesis by (intro that) (auto simp: committed_def)
qed

text \<open>A call that returns \<open>Calculated\<close> fired exactly the result of its run.\<close>

lemma calculate_fired:
  assumes "calculateCostOfSalesForAccount A B ibId gaId d w = (Inr (calculatingAsync (new_Summary gaId)), w')"
    and "run_of A B ibId gaId d w r"
  obtains h p sales w1 where "fired A B ibId gaId r w = Some (h, p, sales, w1)"
    and "w' = storeLastCalcTxDate B (app_getBook B w ibId) h (new_GoodAccount (r_account r)) sales
           (cp_fireBatchOperations B h p w1)"
    and "committed A B (app_getBook B w ibId) (r_financialBook r) (new_GoodAccount (r_account r))
          (new_Summary gaId) (r_store r) (r_collected r) w h p w1 w'"
    and "co_sales (r_collected r) \<noteq> []"
proof -
  have sales: "co_sales (r_collected r) \<noteq> []"
    and run: "calculate_collected A B (app_getBook B w ibId) (r_financialBook r) (new_GoodAccount (r_account r))
            (new_Summary gaId) (r_store r) (r_collected r) w = (Inr (calculatingAsync (new_Summary gaId)), w')"
    using assms run_collected_sales [OF assms(2)]
    by (auto simp: calculate_run [OF assms(2)] summary_defs js_eq_def split: if_splits)
  from calculate_collected_committed [OF run] obtain h p w1 where
    c: "committed A B (app_getBook B w ibId) (r_financialBook r) (new_GoodAccount (r_account r))
          (new_Summary gaId) (r_store r) (r_collected r) w h p w1 w'" by auto
  from committed_result [OF c] c sales show thesis by (auto simp: fired_def intro: that)
qed

section \<open>Nothing is written unless the account is calculated\<close>

text \<open>
  Before the batches the service asks for the cost of sales account of the financial book,
  which creates it when it is missing, and writes nothing else.
\<close>

definition only_cogs_account :: "'w bkper_app \<Rightarrow> book \<Rightarrow> 'w \<Rightarrow> 'w \<Rightarrow> bool" where
  "only_cogs_account B fb = (\<lambda>v v'. v' = snd (costOfSalesAccount B fb v))\<^sup>*\<^sup>*"

lemma only_cogs_account_refl [simp]: "only_cogs_account B fb w w"
  by (simp add: only_cogs_account_def)

lemma only_cogs_account_trans:
  "only_cogs_account B fb u v \<Longrightarrow> only_cogs_account B fb v w \<Longrightarrow> only_cogs_account B fb u w"
  unfolding only_cogs_account_def by (rule rtranclp_trans)

lemma only_cogs_account_same:
  assumes "only_cogs_account B fb w w'" and "app_getAccount B w fb (Some COGS_ACCOUNT) \<noteq> None"
  shows "w' = w"
  using assms(1) [unfolded only_cogs_account_def]
proof (induction rule: rtranclp_induct)
  case (step v v')
  with assms(2) show ?case by (auto simp: costOfSalesAccount_def split: option.splits)
qed simp

lemma only_cogs_account_created:
  assumes "account_creation_frame B" and "only_cogs_account B fb w w'"
  shows "w' = w \<or> w' = snd (costOfSalesAccount B fb w)"
  using assms(2) [unfolded only_cogs_account_def]
proof (induction rule: rtranclp_induct)
  case (step v v')
  have name: "a_name (new_account COGS_ACCOUNT OUTGOING) = COGS_ACCOUNT" by (simp add: new_account_def)
  obtain acc u where acc: "costOfSalesAccount B fb w = (acc, u)" by force
  have "app_getAccount B u fb (Some COGS_ACCOUNT) \<noteq> None"
  proof (cases "app_getAccount B w fb (Some COGS_ACCOUNT)")
    case None
    then have "app_createAccount B fb (new_account COGS_ACCOUNT OUTGOING) w = (acc, u)"
      using acc by (simp add: costOfSalesAccount_def)
    with None assms(1) name have "app_getAccount B u fb (Some COGS_ACCOUNT) = Some acc"
      unfolding account_creation_frame_def by metis
    then show ?thesis by simp
  next
    case (Some a)
    with acc show ?thesis by (simp add: costOfSalesAccount_def)
  qed
  then have "snd (costOfSalesAccount B fb u) = u" by (auto simp: costOfSalesAccount_def split: option.splits)
  with step acc show ?case by auto
qed simp

lemma processSale_world: "only_cogs_account B fb w (snd (processSale A B fb ib s purchases hp w))"
  by (auto simp: processSale_def addCostOfSales_def only_cogs_account_def Let_def split: sum.splits prod.splits)

lemma sales_loop_world: "only_cogs_account B fb w (snd (sales_loop A B fb ib summary purchases sales hp w))"
proof (induction sales arbitrary: hp w)
  case (Cons s sales)
  obtain q w1 where one: "processSale A B fb ib s purchases hp w = (q, w1)" by force
  then have w1: "only_cogs_account B fb w w1" using processSale_world [of B fb w A ib s purchases hp] by simp
  show ?case
    using w1 only_cogs_account_trans [OF w1 Cons.IH] by (simp add: one split: sum.splits prod.splits)
qed simp

lemma calculate_collected_world:
  assumes "calculate_collected A B ib fb g summary h c w = (r, w')"
  shows "only_cogs_account B fb w w' \<or> r = Inr (calculatingAsync summary)"
proof (cases "credit_note_loop A B w summary (co_creditNotes c)
    (h, new_CalculateCostOfSalesProcessor ib fb, co_purchases c)")
  case (Inl e)
  with assms show ?thesis by (simp add: calculate_collected_def)
next
  case cn: (Inr x)
  show ?thesis
  proof (cases x)
    case (Inl s)
    with assms cn show ?thesis by (simp add: calculate_collected_def)
  next
    case (Inr y)
    obtain h1 p1 m1 where y: "y = (h1, p1, m1)" by (cases y)
    let ?run = "sales_loop A B fb ib summary (sort_fifo h1 (map_values m1)) (sort_fifo h1 (co_sales c)) (h1, p1) w"
    obtain q v where run: "?run = (q, v)" by force
    then have "only_cogs_account B fb w v"
      using sales_loop_world [of B fb w A ib summary "sort_fifo h1 (map_values m1)" "sort_fifo h1 (co_sales c)" "(h1, p1)"]
      by simp
    with assms cn run show ?thesis
      by (auto simp: calculate_collected_def Let_def Inr y split: sum.splits)
  qed
qed

text \<open>
  C9. A calculation is all or nothing. On an account that needs no rebuild a call either
  returns the summary \<open>Calculated\<close> or leaves the platform as it was, except that the cost
  of sales account may have been created in the financial book if it was missing there: a
  locked transaction found in the middle of the run, a credit note larger than its
  purchase, sales without enough purchases and any exception all happen before the first
  other write.
\<close>

theorem calculation_all_or_nothing:
  assumes "calculateCostOfSalesForAccount A B ibId gaId d w = (r, w')"
    and "app_getAccount B w (app_getBook B w ibId) (Some gaId) = Some account"
    and "\<not> needsRebuild (new_GoodAccount account)"
  shows "r = Inr (calculatingAsync (new_Summary gaId)) \<or> w' = w
     \<or> (\<exists>fb. getFinancialBook B w (app_getBook B w ibId) (getExchangeCode account) = Some fb
          \<and> app_getAccount B w fb (Some COGS_ACCOUNT) = None \<and> only_cogs_account B fb w w'
          \<and> (account_creation_frame B \<longrightarrow> w' = snd (app_createAccount B fb (new_account COGS_ACCOUNT OUTGOING) w)))"
proof (cases "\<exists>rn. run_of A B ibId gaId d w rn")
  case True
  then obtain rn where rn: "run_of A B ibId gaId d w rn" ..
  then have fb: "getFinancialBook B w (app_getBook B w ibId) (getExchangeCode account) = Some (r_financialBook rn)"
    using assms(2) by (simp add: run_of_def Let_def)
  have "w' = w \<or> calculate_collected A B (app_getBook B w ibId) (r_financialBook rn) (new_GoodAccount (r_account rn))
            (new_Summary gaId) (r_store rn) (r_collected rn) w = (r, w')"
    using assms(1) by (auto simp: calculate_run [OF rn] split: if_splits)
  then have "only_cogs_account B (r_financialBook rn) w w' \<or> r = Inr (calculatingAsync (new_Summary gaId))"
    by (auto dest: calculate_collected_world)
  then show ?thesis
  proof
    assume only: "only_cogs_account B (r_financialBook rn) w w'"
    show ?thesis
    proof (cases "app_getAccount B w (r_financialBook rn) (Some COGS_ACCOUNT)")
      case None
      with only_cogs_account_created [OF _ only] fb only show ?thesis by (auto simp: costOfSalesAccount_def)
    next
      case (Some a)
      with only_cogs_account_same [OF only] show ?thesis by simp
    qed
  qed simp
next
  case False
  with calculate_no_run [OF _ assms(2,3)] assms(1) show ?thesis by simp
qed

text \<open>The example of two purchases and one sale, as a call of the service.\<close>

lemma demo_collect:
  "collect decimal_lib demo_store [0..<length demo_transactions] =
     \<lparr>co_sales = [2], co_purchases = [(Some ''p1'', 0), (Some ''p2'', 1)], co_creditNotes = [],
      co_totalSales = Num 12, co_totalPurchased = Num 15\<rparr>"
  by (simp add: collect_def collect_one_def upt_rec demo_tx_defs isSale_def isPurchase_def isCreditNote_def
      rnd64_numeral demo_defs map_set_def map_empty_def Let_def)

lemma demo_run_of:
  "run_of decimal_lib demo_app ''inv'' ''w'' None demo_world
     \<lparr>r_account = widget, r_financialBook = financial_book, r_store = demo_store,
      r_collected = collect decimal_lib demo_store [0..<length demo_transactions]\<rparr>"
  by (simp add: run_of_def needsRebuild_def new_GoodAccount_def getFinancialBook_def getExchangeCode_def
      getExcCode_def demo_defs Let_def trim_def is_space_def code_unit_def)

lemma demo_fifo_ok: "fifo_ok (demo_purchase i 20240105 q c)" "fifo_ok (demo_purchase i 20240110 q c)"
  by (simp_all add: fifo_ok_def order_int_def order_value_def demo_tx_defs)

lemma demo_sort: "sort_fifo demo_store [0, 1] = [0, 1]" "sort_fifo demo_store [2] = [2]"
  by (simp_all add: sort_fifo_def sort_js_def demo_transactions_def compareToFIFO_ok demo_fifo_ok)
    (simp add: demo_tx_defs)

lemma demo_calculate:
  "\<exists>w'. calculateCostOfSalesForAccount decimal_lib demo_app ''inv'' ''w'' None demo_world
     = (Inr (calculatingAsync (new_Summary ''w'')), w')"
proof -
  obtain h' p' w' where run: "sales_loop decimal_lib demo_app financial_book inventory_book (new_Summary ''w'')
      [0, 1] [2] (demo_store, demo_processor) demo_world = (Inr (Inr (h', p')), w')"
    by (rule demo_run)
  have b: "app_getBook demo_app demo_world ''inv'' = inventory_book" by (simp add: demo_app_def)
  show ?thesis
    by (simp add: calculate_run [OF demo_run_of] demo_collect js_eq_def calculate_collected_def
        map_values_def demo_sort b run Let_def del: sales_loop.simps One_nat_def)
qed

text \<open>The same books with the cost of sales account in place.\<close>

definition demo_world_cogs :: demo where
  "demo_world_cogs = demo_world\<lparr>d_accounts := (\<lambda>b. [widget, new_account COGS_ACCOUNT OUTGOING])\<rparr>"

theorem calculation_all_or_nothing_witness:
  "\<exists>r w'. calculateCostOfSalesForAccount decimal_lib demo_app ''inv'' ''w'' None demo_world_cogs = (r, w')
     \<and> (w' = demo_world_cogs \<or> r = Inr (calculatingAsync (new_Summary ''w'')))"
proof -
  obtain r w' where run:
    "calculateCostOfSalesForAccount decimal_lib demo_app ''inv'' ''w'' None demo_world_cogs = (r, w')" by force
  have cogs: "app_getAccount demo_app demo_world_cogs fb (Some COGS_ACCOUNT) \<noteq> None" for fb
    by (simp add: demo_world_cogs_def demo_defs)
  have account: "app_getAccount demo_app demo_world_cogs (app_getBook demo_app demo_world_cogs ''inv'') (Some ''w'') = Some widget"
    "\<not> needsRebuild (new_GoodAccount widget)"
    by (simp_all add: demo_world_cogs_def demo_defs needsRebuild_def new_GoodAccount_def)
  from calculation_all_or_nothing [OF run account] cogs run show ?thesis by blast
qed

section \<open>No locked transaction is sent\<close>

lemma sort_fifo_eq_Nil [simp]: "sort_fifo h rs = [] \<longleftrightarrow> rs = []"
  by (metis length_0_conv length_sort_js sort_fifo_def)

lemma committed_unlocked:
  assumes "locks_stable B" and "committed A B ib fb g summary h c w h' p' w1 w'" and "co_sales c \<noteq> []"
  shows "unlocked B w1 h' p' \<and> app_isLocked B w1 = app_isLocked B w"
proof -
  from assms(2) obtain h1 p1 m1 where
    cn: "credit_note_loop A B w summary (co_creditNotes c)
          (h, new_CalculateCostOfSalesProcessor ib fb, co_purchases c) = Inr (Inr (h1, p1, m1))" and
    run: "sales_loop A B fb ib summary (sort_fifo h1 (map_values m1)) (sort_fifo h1 (co_sales c)) (h1, p1) w
            = (Inr (Inr (h', p')), w1)"
    unfolding committed_def by blast
  from lock_noted_credit_note_loop [OF assms(1) cn lock_noted_new]
  show ?thesis by (rule lock_noted_sales_loop [OF assms(1) run]) (simp add: assms(3))
qed

text \<open>The platform a run hands over differs by the cost of sales account only.\<close>

lemma fired_world:
  assumes "fired A B ibId gaId r w = Some (h, p, sales, w1)"
  shows "only_cogs_account B (r_financialBook r) w w1"
proof -
  from assms obtain hp purchases sales where
    "sales_loop A B (r_financialBook r) (app_getBook B w ibId) (new_Summary gaId) purchases sales hp w
       = (Inr (Inr (h, p)), w1)"
    by (auto simp: fired_def run_result_def Let_def split: sum.splits prod.splits)
  then show ?thesis using sales_loop_world by (metis snd_conv)
qed

text \<open>
  C10. No locked transaction is sent to the service. When a call returns \<open>Calculated\<close>, the
  only changes it made are the creation of the cost of sales account, if it was missing,
  the three batches of the processor of the run and the calculation date of the account,
  and every transaction of the batches, as it is when the batch is fired, is unlocked in
  its book.
\<close>

theorem calculation_sends_no_locked:
  assumes "locks_stable B"
    and "calculateCostOfSalesForAccount A B ibId gaId d w = (Inr (calculatingAsync (new_Summary gaId)), w')"
  shows "\<exists>r h p sales w1. run_of A B ibId gaId d w r \<and> fired A B ibId gaId r w = Some (h, p, sales, w1)
     \<and> only_cogs_account B (r_financialBook r) w w1
     \<and> w' = storeLastCalcTxDate B (app_getBook B w ibId) h (new_GoodAccount (r_account r)) sales
            (cp_fireBatchOperations B h p w1)
     \<and> (\<forall>t \<in> set (map_values (cp_inventoryToCreate p)). \<not> app_isLocked B w (cp_inventoryBook p) t)
     \<and> (\<forall>i \<in> set (map_values (cp_inventoryToUpdate p)). \<not> app_isLocked B w (cp_inventoryBook p) (h i))
     \<and> (\<forall>t \<in> set (map_values (cp_financialToCreate p)). \<not> app_isLocked B w (cp_financialBook p) t)"
proof -
  from calculate_success_run [OF assms(2)] obtain r where r: "run_of A B ibId gaId d w r" ..
  obtain h p sales w1 where f: "fired A B ibId gaId r w = Some (h, p, sales, w1)"
    and w': "w' = storeLastCalcTxDate B (app_getBook B w ibId) h (new_GoodAccount (r_account r)) sales
            (cp_fireBatchOperations B h p w1)"
    and c: "committed A B (app_getBook B w ibId) (r_financialBook r) (new_GoodAccount (r_account r))
          (new_Summary gaId) (r_store r) (r_collected r) w h p w1 w'" and ne: "co_sales (r_collected r) \<noteq> []"
    by (rule calculate_fired [OF assms(2) r])
  from committed_unlocked [OF assms(1) c ne] r f w' fired_world [OF f] show ?thesis
    unfolding unlocked_def by metis
qed

theorem calculation_sends_no_locked_witness:
  "\<exists>w' r h p sales w1.
     calculateCostOfSalesForAccount decimal_lib demo_app ''inv'' ''w'' None demo_world
       = (Inr (calculatingAsync (new_Summary ''w'')), w')
     \<and> fired decimal_lib demo_app ''inv'' ''w'' r demo_world = Some (h, p, sales, w1)
     \<and> w' = storeLastCalcTxDate demo_app inventory_book h (new_GoodAccount (r_account r)) sales
            (cp_fireBatchOperations demo_app h p w1)
     \<and> (\<forall>t \<in> set (map_values (cp_financialToCreate p)).
          \<not> app_isLocked demo_app demo_world (cp_financialBook p) t)"
proof -
  obtain w' where run: "calculateCostOfSalesForAccount decimal_lib demo_app ''inv'' ''w'' None demo_world
     = (Inr (calculatingAsync (new_Summary ''w'')), w')" using demo_calculate by blast
  have "app_getBook demo_app demo_world ''inv'' = inventory_book" by (simp add: demo_app_def)
  with calculation_sends_no_locked [OF demo_locks_stable run] run show ?thesis by metis
qed

end
