(* ===== verification/CalculateCollect.thy ===== *)
theory CalculateCollect
  imports CalculateRun
begin

text \<open>
  The collections of a run and their order: what the loop over the transactions of the
  account gathers (\<^verbatim>\<open>CalculateCostOfSalesService.ts\<close>, lines 30-55), and that sorting
  references sorts the transactions they denote.
\<close>

section \<open>The collections of a run\<close>

abbreviation open_tx :: "(transaction \<Rightarrow> bool) \<Rightarrow> transaction \<Rightarrow> bool" where
  "open_tx kind t \<equiv> \<not> t_checked t \<and> kind t"

lemma collect_one_purchases: "co_purchases (collect_one A h r c) =
    (if open_tx isPurchase (h r) then map_set (t_prop (h r) PURCHASE_CODE_PROP) r (co_purchases c)
     else co_purchases c)"
  by (simp add: collect_one_def Let_def)

lemma collect_one_creditNotes: "co_creditNotes (collect_one A h r c) =
    (if open_tx isCreditNote (h r)
     then map_set (the (t_prop (h r) CREDIT_NOTE_PROP)) r (co_creditNotes c) else co_creditNotes c)"
  by (simp add: collect_one_def Let_def)

lemma collect_purchases:
  "co_purchases (collect A h rs) =
     js.set_all (map (\<lambda>r. (t_prop (h r) PURCHASE_CODE_PROP, r)) (filter (\<lambda>r. open_tx isPurchase (h r)) rs)) map_empty"
proof -
  have "co_purchases (fold (collect_one A h) rs c) =
     js.set_all (map (\<lambda>r. (t_prop (h r) PURCHASE_CODE_PROP, r)) (filter (\<lambda>r. open_tx isPurchase (h r)) rs))
       (co_purchases c)" for c
    by (induction rs arbitrary: c) (simp_all add: collect_one_purchases js.set_all_def)
  then show ?thesis by (simp add: collect_def)
qed

lemma collect_purchase_values:
  assumes "distinct (map (\<lambda>r. t_prop (h r) PURCHASE_CODE_PROP) (filter (\<lambda>r. open_tx isPurchase (h r)) rs))"
  shows "map_values (co_purchases (collect A h rs)) = filter (\<lambda>r. open_tx isPurchase (h r)) rs"
  using js.values_set_all [OF js.inv_empty,
      of "map (\<lambda>r. (t_prop (h r) PURCHASE_CODE_PROP, r)) (filter (\<lambda>r. open_tx isPurchase (h r)) rs)"] assms
  by (simp add: collect_purchases js.get_empty js.values_empty comp_def)

lemma collect_no_creditNotes:
  assumes "\<forall>r \<in> set rs. \<not> open_tx isCreditNote (h r)"
  shows "co_creditNotes (collect A h rs) = map_empty"
proof -
  have "co_creditNotes (fold (collect_one A h) rs c) = co_creditNotes c" for c
    using assms by (induction rs arbitrary: c) (auto simp: collect_one_creditNotes)
  then show ?thesis by (simp add: collect_def)
qed

section \<open>Order of references and order of transactions\<close>

lemma map_insert_by:
  "map h (insert_by (\<lambda>i j. cmp (h i) (h j)) r rs) = insert_by cmp (h r) (map h rs)"
  by (induction rs) auto

lemma map_sort_fifo: "map h (sort_fifo h rs) = sort_js compareToFIFO (map h rs)"
proof -
  have "map h (fold (insert_by (\<lambda>i j. compareToFIFO (h i) (h j))) rs ys) =
      fold (insert_by compareToFIFO) (map h rs) (map h ys)" for ys
    by (induction rs arbitrary: ys) (simp_all add: map_insert_by)
  then show ?thesis by (simp add: sort_fifo_def sort_js_def)
qed

lemma map_filter_refs: "map (\<lambda>i. ts ! i) (filter (\<lambda>i. P (ts ! i)) [0..<length ts]) = filter P ts"
  using filter_map [of P "\<lambda>i. ts ! i" "[0..<length ts]"] by (simp add: comp_def map_nth)

lemma map_sort_fifo_refs:
  assumes "\<forall>t \<in> set ts. fifo_ok t"
  shows "map (\<lambda>i. ts ! i) (sort_fifo (\<lambda>i. ts ! i) (filter (\<lambda>i. P (ts ! i)) [0..<length ts])) =
         sort_key fifo_key (filter P ts)"
  using assms by (simp add: map_sort_fifo map_filter_refs fifo.sort_js_sort_key)

lemma set_sort_fifo [simp]: "set (sort_fifo h rs) = set rs" "distinct (sort_fifo h rs) = distinct rs"
  by (simp_all add: sort_fifo_def)

interpretation refs: keyed_comparison "\<lambda>i j. compareToFIFO (h i) (h j)" "\<lambda>i. fifo_key (h i)" "\<lambda>i. fifo_ok (h i)" for h
  by unfold_locales (rule fifo.cmp_key)

text \<open>
  C13. The order of a run does not depend on the sorting algorithm. For transactions whose
  date values and order numbers are integers of less than 52 bits and whose creation time is
  known, the comparison \<open>compareToFIFO\<close> determines the outcome of every stable sort: a
  list is the one the service works through exactly if it is a rearrangement of the
  references, ordered lexicographically by date, order number and millisecond of creation,
  and keeps the order of the transactions that agree in all three.
\<close>

theorem fifo_order_determined:
  assumes "\<forall>r \<in> set rs. fifo_ok (h r)"
  shows "sort_fifo h rs = ys \<longleftrightarrow>
     mset ys = mset rs \<and> sorted (map (\<lambda>r. fifo_key (h r)) ys)
     \<and> (\<forall>k. filter (\<lambda>r. fifo_key (h r) = k) ys = filter (\<lambda>r. fifo_key (h r) = k) rs)"
proof -
  let ?key = "\<lambda>r. fifo_key (h r)"
  have sort: "sort_fifo h rs = sort_key ?key rs"
    unfolding sort_fifo_def by (rule refs.sort_js_sort_key [OF assms])
  show ?thesis
  proof
    assume "sort_fifo h rs = ys"
    then have "ys = sort_key ?key rs" using sort by simp
    then show "mset ys = mset rs \<and> sorted (map ?key ys)
        \<and> (\<forall>k. filter (\<lambda>r. ?key r = k) ys = filter (\<lambda>r. ?key r = k) rs)"
      by (simp add: sort_key_stable)
  next
    assume ys: "mset ys = mset rs \<and> sorted (map ?key ys)
        \<and> (\<forall>k. filter (\<lambda>r. ?key r = k) ys = filter (\<lambda>r. ?key r = k) rs)"
    have "filter (\<lambda>x. ?key k = ?key x) ys = filter (\<lambda>x. ?key k = ?key x) rs" for k
      using spec [OF conjunct2 [OF conjunct2 [OF ys]], of "?key k"] by (simp add: eq_commute [of "?key k"])
    then have "sort_key ?key rs = ys" using ys by (intro properties_for_sort_key) auto
    with sort show "sort_fifo h rs = ys" by simp
  qed
qed

text \<open>Two purchases and a sale of the books, read in another order.\<close>

theorem fifo_order_determined_witness: "sort_fifo demo_store [2, 1, 0] = [0, 1, 2]"
proof -
  have "\<forall>r \<in> set [2, 1, 0]. fifo_ok (demo_store r)"
    by (simp add: demo_transactions_def fifo_ok_def order_int_def order_value_def demo_tx_defs)
  from fifo_order_determined [OF this, of "[0, 1, 2]"] show ?thesis
    by (simp add: demo_transactions_def fifo_key_def created_ms_def getMilliseconds_def order_int_def order_value_def
        demo_tx_defs)
qed

section \<open>Entries of the collected Maps\<close>

lemma map_set_fresh: "map_get m k = None \<Longrightarrow> map_set k v m = m @ [(k, v)]"
  unfolding map_get_def map_set_def by (induction m) (auto split: if_splits)

lemma set_all_fresh:
  assumes "distinct (map fst kvs)" and "\<forall>k \<in> fst ` set kvs. map_get m k = None"
  shows "js.set_all kvs m = m @ kvs"
  using assms
proof (induction kvs arbitrary: m)
  case Nil
  then show ?case by (simp add: js.set_all_def)
next
  case (Cons kv kvs)
  obtain k v where kv: "kv = (k, v)" by force
  have "map_get (m @ [(k, v)]) x = None" if "x \<in> fst ` set kvs" for x
  proof -
    have "x \<noteq> k" using Cons.prems(1) that by (auto simp: kv)
    moreover have "map_get m x = None" using Cons.prems(2) that by auto
    ultimately show ?thesis by (simp add: map_get_def map_add_def)
  qed
  then have "js.set_all kvs (m @ [(k, v)]) = m @ [(k, v)] @ kvs" using Cons.prems(1) Cons.IH by simp
  moreover have "map_set k v m = m @ [(k, v)]" using Cons.prems(2) by (intro map_set_fresh) (simp add: kv)
  ultimately show ?case by (simp add: kv js.set_all_def)
qed

lemma collect_creditNotes:
  "co_creditNotes (collect A h rs) =
     js.set_all (map (\<lambda>r. (the (t_prop (h r) CREDIT_NOTE_PROP), r)) (filter (\<lambda>r. open_tx isCreditNote (h r)) rs)) map_empty"
proof -
  have "co_creditNotes (fold (collect_one A h) rs c) =
     js.set_all (map (\<lambda>r. (the (t_prop (h r) CREDIT_NOTE_PROP), r)) (filter (\<lambda>r. open_tx isCreditNote (h r)) rs))
       (co_creditNotes c)" for c
    by (induction rs arbitrary: c) (simp_all add: collect_one_creditNotes js.set_all_def)
  then show ?thesis by (simp add: collect_def)
qed

text \<open>Under different codes and numbers the Maps hold one entry per open transaction.\<close>

lemma set_all_empty: "distinct (map fst kvs) \<Longrightarrow> js.set_all kvs map_empty = kvs"
  by (simp add: set_all_fresh js.get_empty) (simp add: map_empty_def)

lemma collect_purchase_entries:
  assumes "distinct (map (\<lambda>r. t_prop (h r) PURCHASE_CODE_PROP) (filter (\<lambda>r. open_tx isPurchase (h r)) rs))"
  shows "co_purchases (collect A h rs) =
     map (\<lambda>r. (t_prop (h r) PURCHASE_CODE_PROP, r)) (filter (\<lambda>r. open_tx isPurchase (h r)) rs)"
  unfolding collect_purchases using assms by (intro set_all_empty) (simp add: comp_def)

lemma collect_creditNote_entries:
  assumes "distinct (map (\<lambda>r. t_prop (h r) CREDIT_NOTE_PROP) (filter (\<lambda>r. open_tx isCreditNote (h r)) rs))"
  shows "co_creditNotes (collect A h rs) =
     map (\<lambda>r. (the (t_prop (h r) CREDIT_NOTE_PROP), r)) (filter (\<lambda>r. open_tx isCreditNote (h r)) rs)"
proof -
  let ?rs = "filter (\<lambda>r. open_tx isCreditNote (h r)) rs"
  have "\<forall>r \<in> set ?rs. t_prop (h r) CREDIT_NOTE_PROP \<noteq> None" by (auto simp: isCreditNote_def)
  then have "inj_on (\<lambda>r. the (t_prop (h r) CREDIT_NOTE_PROP)) (set ?rs)"
    using assms unfolding distinct_map inj_on_def by (metis option.expand)
  moreover have "distinct ?rs" using assms by (simp only: distinct_map)
  ultimately show ?thesis
    unfolding collect_creditNotes by (intro set_all_empty) (simp add: distinct_map comp_def)
qed

lemma sort_key_map: "sort_key k (map f xs) = map f (sort_key (\<lambda>x. k (f x)) xs)"
proof -
  have "insort_key k (f x) (map f ys) = map f (insort_key (\<lambda>x. k (f x)) x ys)" for x ys
    by (induction ys) auto
  then show ?thesis by (induction xs) (simp_all add: sort_key_def)
qed

end
