(* ===== verification/Doubles.thy ===== *)
theory Doubles
  imports JavaScript
begin

text \<open>
  More on the numbers of JavaScript: the binary logarithm of the rounding is the true one,
  so that the nearest double of a given rational can be computed from its binary exponent.
\<close>

lemma bit_count_bounds:
  assumes "0 < n"
  shows "1 \<le> bit_count n" and "2 ^ nat (bit_count n - 1) \<le> n" and "n < 2 ^ nat (bit_count n)"
proof -
  have "1 \<le> bit_count n \<and> 2 ^ nat (bit_count n - 1) \<le> n \<and> n < 2 ^ nat (bit_count n)"
    using assms
  proof (induction n rule: bit_count.induct)
    case (1 n)
    show ?case
    proof (cases "n = 1")
      case True
      then show ?thesis by (simp add: bit_count_1)
    next
      case False
      define m where "m = n div 2"
      have m: "0 < m" and n: "n = 2 * m \<or> n = 2 * m + 1" using "1.prems" False by (auto simp: m_def)
      have b: "bit_count n = 1 + bit_count m" using "1.prems" by (simp add: bit_count.simps [of n] m_def)
      have IH: "1 \<le> bit_count m" "2 ^ nat (bit_count m - 1) \<le> m" "m < 2 ^ nat (bit_count m)"
        using "1.IH" "1.prems" m by (simp_all add: m_def)
      obtain k where k: "bit_count m = int (Suc k)"
        using IH(1) by (metis zero_less_imp_eq_int Suc_pred' int_one_le_iff_zero_less of_nat_0_less_iff)
      have "2 ^ k \<le> m" "m < 2 * 2 ^ k" using IH(2,3) by (simp_all add: k nat_add_distrib)
      then show ?thesis using n by (auto simp: b k nat_add_distrib)
    qed
  qed
  then show "1 \<le> bit_count n" and "2 ^ nat (bit_count n - 1) \<le> n" and "n < 2 ^ nat (bit_count n)"
    by simp_all
qed

text \<open>A positive integer lies between two powers of two, as rationals.\<close>

lemma bit_count_powi:
  assumes "0 < n"
  shows "2 powi (bit_count n - 1) \<le> (of_int n :: rat)" and "of_int n < (2 :: rat) powi (bit_count n)"
proof -
  note b = bit_count_bounds [OF assms]
  have "of_int (2 ^ nat (bit_count n - 1)) \<le> (of_int n :: rat)" using b(2) by (simp only: of_int_le_iff)
  then show "2 powi (bit_count n - 1) \<le> (of_int n :: rat)" using b(1) by (simp add: power_int_def)
  have "of_int n < (of_int (2 ^ nat (bit_count n)) :: rat)" using b(3) by (simp only: of_int_less_iff)
  then show "of_int n < (2 :: rat) powi (bit_count n)" using b(1) by (simp add: power_int_def)
qed

lemma powi_less_cancel:
  assumes "(2 :: rat) powi a < 2 powi b"
  shows "a < b"
proof (rule ccontr)
  assume "\<not> a < b"
  then have "(2 :: rat) powi b \<le> 2 powi a" by (intro power_int_increasing) simp_all
  with assms show False by simp
qed

theorem flog2_eqI:
  assumes "2 powi e \<le> q" and "q < 2 powi (e + 1)"
  shows "flog2 q = e"
proof -
  have q0: "0 < q" using assms(1) by (meson less_le_trans zero_less_numeral zero_less_power_int)
  obtain n d where nd: "quotient_of q = (n, d)" by force
  have d: "0 < d" and q: "q = of_int n / of_int d"
    using nd quotient_of_denom_pos quotient_of_div by blast+
  have n: "0 < n" using q0 d by (simp add: q zero_less_divide_iff)
  define k where "k = bit_count n - bit_count d"
  have "q < 2 powi bit_count n / 2 powi (bit_count d - 1)"
    unfolding q using n d bit_count_powi by (intro frac_less) auto
  also have "\<dots> = 2 powi (k + 1)" by (simp add: k_def power_int_diff power_int_add)
  finally have "e < k + 1" using assms(1) by (meson le_less_trans powi_less_cancel)
  moreover have "2 powi (bit_count n - 1) / 2 powi bit_count d \<le> q"
    unfolding q using n d bit_count_powi by (intro frac_le) (auto intro: less_imp_le)
  then have "2 powi (k - 1) \<le> q" by (simp add: k_def power_int_diff)
  then have "k - 1 < e + 1" using assms(2) by (meson le_less_trans powi_less_cancel)
  ultimately consider "k = e" | "k = e + 1" by linarith
  then show ?thesis
    using assms by cases (simp_all add: flog2_def nd k_def [symmetric] Let_def)
qed

text \<open>Rounding half to even, by the distance to the result.\<close>

lemma round_half_even_eqI:
  assumes "\<bar>q - of_int m\<bar> < 1 / 2 \<or> \<bar>q - of_int m\<bar> = 1 / 2 \<and> even m"
  shows "round_half_even q = m"
proof (cases "of_int m \<le> q")
  case True
  with assms have "\<lfloor>q\<rfloor> = m" by (intro floor_unique) linarith+
  with True assms show ?thesis by (auto simp: round_half_even_def Let_def)
next
  case False
  with assms have "\<lfloor>q\<rfloor> = m - 1" by (intro floor_unique) (simp_all add: abs_if split: if_splits, linarith+)
  with False assms show ?thesis by (auto simp: round_half_even_def Let_def)
qed

text \<open>The nearest double of a positive rational in the normal range, from its exponent.\<close>

lemma rnd64_eqI:
  assumes "2 powi e \<le> q" and "q < 2 powi (e + 1)" and "- 1022 \<le> e"
    and "\<bar>q / 2 powi (e - 52) - of_int m\<bar> < 1 / 2 \<or> \<bar>q / 2 powi (e - 52) - of_int m\<bar> = 1 / 2 \<and> even m"
    and "r = of_int m * 2 powi (e - 52)"
    and "0 \<le> r" and "r < 2 ^ 53"
  shows "rnd64 q = Num r"
proof -
  have q0: "0 < q" using assms(1) by (meson less_le_trans zero_less_numeral zero_less_power_int)
  have "(2 :: rat) ^ 53 \<le> double_limit" unfolding double_limit_def by (rule power_increasing) simp_all
  moreover have "0 < double_limit" by (simp add: double_limit_def)
  ultimately have lim: "\<not> double_limit \<le> r" "\<not> r \<le> - double_limit" using assms(6,7) by linarith+
  have "max (flog2 \<bar>q\<bar> - 52) (- 1074) = e - 52"
    using assms(3) q0 flog2_eqI [OF assms(1,2)] by simp
  with q0 lim show ?thesis 
    by (simp add: rnd64_def round_half_even_eqI [OF assms(4)] assms(5) [symmetric] Let_def)
qed

lemma powi_minus_numeral: "(2 :: rat) powi (- numeral n) = 1 / 2 ^ numeral n"
  by (simp add: power_int_def field_simps)

text \<open>Three tenths and the sum of one and two tenths are different doubles.\<close>

definition tenth :: rat where "tenth = 7205759403792794 / 72057594037927936"

definition three_tenths :: rat where "three_tenths = 5404319552844595 / 18014398509481984"

lemma rnd64_tenths:
  "rnd64 (1 / 10) = Num tenth"
  "rnd64 (2 / 10) = Num (2 * tenth)"
  "rnd64 (3 / 10) = Num three_tenths"
proof -
  show "rnd64 (1 / 10) = Num tenth"
    by (rule rnd64_eqI [of "-4" _ 7205759403792794]) (simp_all add: powi_minus_numeral tenth_def)
  show "rnd64 (2 / 10) = Num (2 * tenth)"
    by (rule rnd64_eqI [of "-3" _ 7205759403792794]) (simp_all add: powi_minus_numeral tenth_def)
  show "rnd64 (3 / 10) = Num three_tenths"
    by (rule rnd64_eqI [of "-2" _ 5404319552844595]) (simp_all add: powi_minus_numeral three_tenths_def)
qed

lemma rnd64_tenths_sum:
  "js_add (Num tenth) (Num (2 * tenth)) = Num (three_tenths + 1 / 18014398509481984)"
proof -
  have "rnd64 (tenth + 2 * tenth) = Num (three_tenths + 1 / 18014398509481984)"
    by (rule rnd64_eqI [of "-2" _ 5404319552844596])
      (simp_all add: powi_minus_numeral tenth_def three_tenths_def)
  then show ?thesis by simp
qed

end
