(* ===== verification/StockCheck.thy ===== *)
theory StockCheck
  imports CalculateCollect Doubles
begin

text \<open>
  The totals a calculation adds up in floating point before it starts
  (\<^verbatim>\<open>CalculateCostOfSalesService.ts\<close>, lines 33-63): exact for whole quantities below
  \<open>2^53\<close>, and off for fractions.
\<close>

section \<open>Totals of whole quantities\<close>

text \<open>
  Documented behaviour of \<^verbatim>\<open>Amount\<close>: \<^verbatim>\<open>toNumber\<close> is the nearest double, and an amount
  made from a whole number of at most 53 bits is that number.
\<close>

definition number_laws :: "amount_lib \<Rightarrow> bool" where
  "number_laws A =
     ((\<forall>x. am_toNumber A x = rnd64 (rat_of_amount x))
      \<and> (\<forall>n. \<bar>n\<bar> < 2 ^ 53 \<longrightarrow> am_ofNumber A (Num (of_int n)) = of_int n))"

definition quantity :: "transaction \<Rightarrow> int" where
  "quantity t = \<lfloor>rat_of_amount (t_amount t)\<rfloor>"

definition whole :: "transaction \<Rightarrow> bool" where
  "whole t = (t_amount t = of_int (quantity t) \<and> 0 \<le> quantity t)"

text \<open>The whole quantity of the open transactions of a kind.\<close>

definition open_total :: "(transaction \<Rightarrow> bool) \<Rightarrow> transaction list \<Rightarrow> int" where
  "open_total kind ts = (\<Sum>t\<leftarrow>filter (open_tx kind) ts. quantity t)"

definition whole_account :: "transaction list \<Rightarrow> bool" where
  "whole_account ts =
     ((\<forall>t \<in> set ts. whole t) \<and> open_total isSale ts < 2 ^ 53 \<and> open_total isPurchase ts < 2 ^ 53
      \<and> open_total isCreditNote ts < 2 ^ 53)"

lemma open_total_simps [simp]:
  "open_total kind [] = 0"
  "open_total kind (t # ts) = (if open_tx kind t then quantity t else 0) + open_total kind ts"
  by (simp_all add: open_total_def)

lemma open_total_nonneg: "\<forall>t \<in> set ts. whole t \<Longrightarrow> 0 \<le> open_total kind ts"
  by (induction ts) (auto simp: whole_def)

lemma toNumber_whole:
  assumes "number_laws A" and "whole t" and "quantity t < 2 ^ 53"
  shows "am_toNumber A (t_amount t) = Num (of_int (quantity t))"
proof -
  have "am_toNumber A (t_amount t) = rnd64 (of_int (quantity t))"
    using assms(1,2) unfolding number_laws_def whole_def by (metis rat_of_amount_of_int)
  then show ?thesis using rnd64_int assms(2,3) by (simp add: whole_def)
qed

lemma js_add_int_bounds:
  "- (2 ^ 53) < a + b \<Longrightarrow> a + b < 2 ^ 53 \<Longrightarrow> js_add (Num (of_int a)) (Num (of_int b)) = Num (of_int (a + b))"
  by (rule js_add_int) (simp add: abs_less_iff)

lemma js_sub_int_bounds:
  "- (2 ^ 53) < a - b \<Longrightarrow> a - b < 2 ^ 53 \<Longrightarrow> js_sub (Num (of_int a)) (Num (of_int b)) = Num (of_int (a - b))"
  using js_add_int_bounds [of a "- b"] by (simp add: js_sub_def)

text \<open>The totals so far, kept exactly: sales \<open>s\<close>, purchases \<open>p\<close> less credit notes \<open>k\<close>.\<close>

definition totals :: "collected \<Rightarrow> int \<Rightarrow> int \<Rightarrow> int \<Rightarrow> bool" where
  "totals c s p k =
     (co_totalSales c = Num (of_int s) \<and> co_totalPurchased c = Num (of_int (p - k))
      \<and> 0 \<le> s \<and> 0 \<le> p \<and> 0 \<le> k)"

lemma totals_collect_one:
  assumes "number_laws A" and "totals c s p k" and "whole (h r)"
    and "s + open_total isSale [h r] < 2 ^ 53" and "p + open_total isPurchase [h r] < 2 ^ 53"
    and "k + open_total isCreditNote [h r] < 2 ^ 53"
  shows "totals (collect_one A h r c) (s + open_total isSale [h r]) (p + open_total isPurchase [h r])
           (k + open_total isCreditNote [h r])"
proof -
  let ?q = "quantity (h r)"
  have q0: "0 \<le> ?q" using assms(3) by (simp add: whole_def)
  show ?thesis
  proof (cases "quantity (h r) < 2 ^ 53")
    case True
    note n = toNumber_whole [OF assms(1,3) True]
    show ?thesis
      using assms(2,4-6) q0
      by (cases "isSale (h r)"; cases "isPurchase (h r)"; cases "isCreditNote (h r)"; cases "t_checked (h r)")
        (simp_all add: totals_def collect_one_def n Let_def js_add_int_bounds js_sub_int_bounds algebra_simps
          del: js_add.simps of_int_add of_int_diff)
  next
    case False
    with assms(2,4-6) show ?thesis
      by (auto simp: totals_def collect_one_def Let_def split: if_splits)
  qed
qed

lemma totals_fold:
  assumes "number_laws A" and "totals c s p k" and "\<forall>r \<in> set rs. whole (h r)"
    and "s + open_total isSale (map h rs) < 2 ^ 53" and "p + open_total isPurchase (map h rs) < 2 ^ 53"
    and "k + open_total isCreditNote (map h rs) < 2 ^ 53"
  shows "totals (fold (collect_one A h) rs c) (s + open_total isSale (map h rs))
           (p + open_total isPurchase (map h rs)) (k + open_total isCreditNote (map h rs))"
  using assms(2-)
proof (induction rs arbitrary: c s p k)
  case Nil
  then show ?case by simp
next
  case (Cons r rs)
  have pos: "0 \<le> open_total kind (map h rs)" for kind using Cons.prems(2) by (intro open_total_nonneg) auto
  have "totals (collect_one A h r c) (s + open_total isSale [h r]) (p + open_total isPurchase [h r])
          (k + open_total isCreditNote [h r])"
    using Cons.prems pos [of isSale] pos [of isPurchase] pos [of isCreditNote]
    by (intro totals_collect_one assms(1)) (simp_all split: if_splits)
  from Cons.IH [OF this] Cons.prems show ?case by (simp add: add.assoc)
qed

lemma totals_collect:
  assumes "number_laws A" and "whole_account ts"
  shows "totals (collect A (\<lambda>i. ts ! i) [0..<length ts]) (open_total isSale ts) (open_total isPurchase ts)
           (open_total isCreditNote ts)"
proof -
  have "map (\<lambda>i. ts ! i) [0..<length ts] = ts" by (rule map_nth)
  then show ?thesis
    using totals_fold [OF assms(1), of _ 0 0 0 "[0..<length ts]" "\<lambda>i. ts ! i"] assms(2)
    open_total_nonneg [of ts]
    by (simp add: collect_def totals_def whole_account_def)
qed

lemma credit_note_loop_summary:
  "credit_note_loop A B w summary cns st = Inr (Inl s) \<Longrightarrow> \<exists>cn. s = creditNoteQuantityError cn summary"
  by (induction cns arbitrary: st)
    (auto simp: credit_note_step_def Let_def split: sum.splits prod.splits option.splits if_splits)

text \<open>Once the totals are accepted, the answer is never the error about them.\<close>

lemma calculate_collected_accepts:
  assumes "calculate_collected A B ib fb g summary h c w = (Inr s, w')"
  shows "s \<noteq> salequantityError summary"
proof -
  have "s_result (creditNoteQuantityError x summary) \<noteq> s_result (salequantityError summary)"
    "s_result (lockError summary) \<noteq> s_result (salequantityError summary)"
    "s_result (calculatingAsync summary) \<noteq> s_result (salequantityError summary)" for x
    by (simp_all add: summary_defs)
  then have other: "creditNoteQuantityError x summary \<noteq> salequantityError summary"
    "lockError summary \<noteq> salequantityError summary" "calculatingAsync summary \<noteq> salequantityError summary" for x
    by metis+
  show ?thesis
    using assms other
    by (auto simp: calculate_collected_def Let_def dest!: credit_note_loop_summary sales_loop_error
        split: sum.splits prod.splits)
qed

section \<open>The check of a call\<close>

text \<open>
  C14. The check of the stock is exact for whole quantities. When the quantities of the
  account are whole numbers whose totals stay below \<open>2^53\<close>, a call answers that more was
  sold than bought exactly when the open sales exceed the open purchases less the open
  credit notes: no rounding of the double additions changes the decision.
\<close>

theorem stock_check_exact:
  assumes "number_laws A" and "run_of A B ibId gaId d w r"
    and "r_store r = (\<lambda>i. ts ! i)" and "r_collected r = collect A (r_store r) [0..<length ts]"
    and "whole_account ts"
  shows "fst (calculateCostOfSalesForAccount A B ibId gaId d w) = Inr (salequantityError (new_Summary gaId))
     \<longleftrightarrow> open_total isSale ts \<noteq> 0
        \<and> open_total isPurchase ts - open_total isCreditNote ts < open_total isSale ts"
proof -
  let ?c = "collect A (\<lambda>i. ts ! i) [0..<length ts]"
  have t: "co_totalSales ?c = Num (of_int (open_total isSale ts))"
    "co_totalPurchased ?c = Num (of_int (open_total isPurchase ts - open_total isCreditNote ts))"
    using totals_collect [OF assms(1,5)] by (simp_all add: totals_def)
  have no: "fst (calculate_collected A B ib fb g (new_Summary gaId) h c w) \<noteq> Inr (salequantityError (new_Summary gaId))"
    for ib fb g h c
    using calculate_collected_accepts [of A B ib fb g "new_Summary gaId" h c w] by (metis eq_fst_iff)
  have e: "js_eq (Num (of_int a)) (Num 0) \<longleftrightarrow> a = 0" for a :: int by (simp add: js_eq_def)
  have n: "new_Summary gaId \<noteq> salequantityError (new_Summary gaId)" by (simp add: summary_defs)
  have l: "js_less (Num (of_int a)) (Num (of_int b)) \<longleftrightarrow> a < b" for a b :: int by simp
  show ?thesis
    unfolding calculate_run [OF assms(2)] assms(3,4) t e l using no n by auto
qed

text \<open>The example account with given transactions.\<close>

definition account_of :: "transaction list \<Rightarrow> demo" where
  "account_of ts = demo_world\<lparr>d_transactions := (\<lambda>b. if b = ''inv'' then ts else [])\<rparr>"

definition account_run :: "transaction list \<Rightarrow> run" where
  "account_run ts = \<lparr>r_account = widget, r_financialBook = financial_book, r_store = (\<lambda>i. ts ! i),
     r_collected = collect decimal_lib (\<lambda>i. ts ! i) [0..<length ts]\<rparr>"

lemma account_run_of: "run_of decimal_lib demo_app ''inv'' ''w'' None (account_of ts) (account_run ts)"
  by (simp add: account_of_def account_run_def run_of_def needsRebuild_def new_GoodAccount_def
      getFinancialBook_def getExchangeCode_def getExcCode_def demo_defs Let_def trim_def is_space_def code_unit_def)

lemma decimal_lib_numbers: "number_laws decimal_lib"
proof -
  have "quotient_of (of_int n) = (n, 1)" for n
    by (simp only: of_int_rat quotient_of_Fract) (simp add: Rat.normalize_def)
  then have "amount_of_number (Num (of_int n)) = of_int n" for n
    by (simp add: amount_of_number_def flip: rat_of_amount_eq_iff)
  then show ?thesis by (simp add: number_laws_def decimal_lib_def)
qed

lemma demo_tx_kinds:
  "isPurchase (demo_purchase i day q c)" "\<not> isSale (demo_purchase i day q c)" "\<not> isCreditNote (demo_purchase i day q c)"
  "isSale (demo_sale i day q)" "\<not> isPurchase (demo_sale i day q)" "\<not> isCreditNote (demo_sale i day q)"
  "t_amount (demo_purchase i day q c) = q" "t_amount (demo_sale i day q) = q"
  "\<not> t_checked (demo_purchase i day q c)" "\<not> t_checked (demo_sale i day q)"
  by (simp_all add: isSale_def isPurchase_def isCreditNote_def demo_tx_defs widget_def buy_account_def
      sell_account_def new_account_def)

text \<open>Ten bought, twelve sold: the call answers the error.\<close>

theorem stock_check_exact_witness:
  "fst (calculateCostOfSalesForAccount decimal_lib demo_app ''inv'' ''w'' None
      (account_of [demo_purchase ''p1'' 20240105 10 100, demo_sale ''s1'' 20240115 12]))
     = Inr (salequantityError (new_Summary ''w''))"
proof -
  let ?ts = "[demo_purchase ''p1'' 20240105 10 100, demo_sale ''s1'' 20240115 12]"
  have "whole_account ?ts"
    by (simp add: whole_account_def whole_def quantity_def demo_tx_kinds)
  then show ?thesis
    using stock_check_exact [OF decimal_lib_numbers account_run_of, of ?ts ?ts]
    by (simp add: account_run_def demo_tx_kinds quantity_def)
qed

section \<open>Fractions\<close>

text \<open>The totals are the double sums of the open quantities, in the order they were found.\<close>

abbreviation double_sum :: "amount_lib \<Rightarrow> transaction list \<Rightarrow> jsnum" where
  "double_sum A ts \<equiv> foldl js_add (Num 0) (map (\<lambda>t. am_toNumber A (t_amount t)) ts)"

lemma fold_total_sales:
  "co_totalSales (fold (collect_one A h) rs c) =
     foldl js_add (co_totalSales c) (map (\<lambda>t. am_toNumber A (t_amount t)) (filter (open_tx isSale) (map h rs)))"
  by (induction rs arbitrary: c) (simp_all add: collect_one_total_sales)

lemma fold_total_purchased:
  "filter (open_tx isCreditNote) (map h rs) = [] \<Longrightarrow> co_totalPurchased (fold (collect_one A h) rs c) =
     foldl js_add (co_totalPurchased c) (map (\<lambda>t. am_toNumber A (t_amount t)) (filter (open_tx isPurchase) (map h rs)))"
proof (induction rs arbitrary: c)
  case (Cons r rs)
  then have "co_totalPurchased (collect_one A h r c) =
      (if open_tx isPurchase (h r) then js_add (co_totalPurchased c) (am_toNumber A (t_amount (h r)))
       else co_totalPurchased c)"
    by (auto simp: collect_one_def Let_def split: if_splits)
  with Cons show ?case by (simp split: if_splits)
qed simp

lemma collect_totals:
  "co_totalSales (collect A (\<lambda>i. ts ! i) [0..<length ts]) = double_sum A (filter (open_tx isSale) ts)"
  "filter (open_tx isCreditNote) ts = [] \<Longrightarrow>
     co_totalPurchased (collect A (\<lambda>i. ts ! i) [0..<length ts]) = double_sum A (filter (open_tx isPurchase) ts)"
proof -
  have ts: "map (\<lambda>i. ts ! i) [0..<length ts] = ts" by (rule map_nth)
  show "co_totalSales (collect A (\<lambda>i. ts ! i) [0..<length ts]) = double_sum A (filter (open_tx isSale) ts)"
    by (simp add: collect_def fold_total_sales ts)
  show "co_totalPurchased (collect A (\<lambda>i. ts ! i) [0..<length ts]) = double_sum A (filter (open_tx isPurchase) ts)"
    if "filter (open_tx isCreditNote) ts = []"
    using that by (simp add: collect_def fold_total_purchased ts)
qed

lemma tenths_sums:
  assumes "number_laws A"
  shows "map t_amount xs = [decimal 1 1, decimal 2 1] \<Longrightarrow> double_sum A xs = Num (three_tenths + 1 / 18014398509481984)"
    and "map t_amount xs = [decimal 3 1] \<Longrightarrow> double_sum A xs = Num three_tenths"
proof -
  have z: "js_add (Num 0) (Num q) = rnd64 q" for q by simp
  have d: "am_toNumber A (decimal 1 1) = Num tenth" "am_toNumber A (decimal 2 1) = Num (2 * tenth)"
    "am_toNumber A (decimal 3 1) = Num three_tenths"
    using rnd64_tenths assms by (simp_all add: number_laws_def)
  have doubles: "rnd64 tenth = Num tenth" "rnd64 three_tenths = Num three_tenths"
    by (rule rnd64_eqI [of "-4" _ 7205759403792794]; simp add: powi_minus_numeral tenth_def)
      (rule rnd64_eqI [of "-2" _ 5404319552844595]; simp add: powi_minus_numeral three_tenths_def)
  have sum: "double_sum A xs = foldl js_add (Num 0) (map (am_toNumber A) (map t_amount xs))"
    by (simp add: comp_def)
  show "double_sum A xs = Num (three_tenths + 1 / 18014398509481984)" if "map t_amount xs = [decimal 1 1, decimal 2 1]"
    unfolding sum that by (simp add: d z doubles rnd64_tenths_sum del: js_add.simps One_nat_def)
  show "double_sum A xs = Num three_tenths" if "map t_amount xs = [decimal 3 1]"
    unfolding sum that by (simp add: d z doubles del: js_add.simps One_nat_def)
qed

text \<open>
  C39. Fractional quantities can be refused although the stock covers them. On every
  account whose open sales are one tenth and two tenths and whose only open purchase is
  three tenths, with no open credit note, the sales use up the purchase exactly; the double sum of the sales is
  larger than the double nearest to three tenths, and every call answers that more was
  sold than bought and changes nothing.
\<close>

theorem covered_fractions_refused:
  assumes "number_laws A" and "run_of A B ibId gaId d w r"
    and "r_store r = (\<lambda>i. ts ! i)" and "r_collected r = collect A (r_store r) [0..<length ts]"
    and "map t_amount (filter (open_tx isSale) ts) = [decimal 1 1, decimal 2 1]"
    and "map t_amount (filter (open_tx isPurchase) ts) = [decimal 3 1]"
    and "filter (open_tx isCreditNote) ts = []"
  shows "(\<Sum>t\<leftarrow>filter (open_tx isSale) ts. t_amount t) = (\<Sum>t\<leftarrow>filter (open_tx isPurchase) ts. t_amount t)
     \<and> calculateCostOfSalesForAccount A B ibId gaId d w = (Inr (salequantityError (new_Summary gaId)), w)"
proof
  show "(\<Sum>t\<leftarrow>filter (open_tx isSale) ts. t_amount t) = (\<Sum>t\<leftarrow>filter (open_tx isPurchase) ts. t_amount t)"
    unfolding assms(5,6) by (simp flip: rat_of_amount_eq_iff)
  show "calculateCostOfSalesForAccount A B ibId gaId d w = (Inr (salequantityError (new_Summary gaId)), w)"
    by (simp add: calculate_run [OF assms(2)] assms(3,4) collect_totals(1) collect_totals(2) [OF assms(7)]
        tenths_sums(1) [OF assms(1,5)] tenths_sums(2) [OF assms(1,6)] js_eq_def three_tenths_def)
qed

text \<open>Three tenths are bought, one tenth and two tenths are sold.\<close>

definition tenths_account :: "transaction list" where
  "tenths_account =
     [demo_purchase ''p1'' 20240105 (decimal 3 1) 3, demo_sale ''s1'' 20240115 (decimal 1 1),
      demo_sale ''s2'' 20240116 (decimal 2 1)]"

theorem covered_fractions_refused_witness:
  "calculateCostOfSalesForAccount decimal_lib demo_app ''inv'' ''w'' None (account_of tenths_account)
     = (Inr (salequantityError (new_Summary ''w'')), account_of tenths_account)"
proof -
  have "map t_amount (filter (open_tx isSale) tenths_account) = [decimal 1 1, decimal 2 1]"
    "map t_amount (filter (open_tx isPurchase) tenths_account) = [decimal 3 1]"
    "filter (open_tx isCreditNote) tenths_account = []"
    by (simp_all add: tenths_account_def demo_tx_kinds)
  from covered_fractions_refused [OF decimal_lib_numbers account_run_of _ _ this] show ?thesis
    by (simp add: account_run_def)
qed

end
