(* ===== verification/CreditNotes.thy ===== *)
theory CreditNotes
  imports StockCheck
begin

text \<open>
  The credit notes of a run (\<^verbatim>\<open>CalculateCostOfSalesService.ts\<close>, lines 68-106): for whole
  quantities, the loop takes exactly the returned quantities out of the purchases they
  name, or answers the error when a purchase would not keep anything.
\<close>

section \<open>One credit note\<close>

abbreviation code_of :: "transaction \<Rightarrow> string option" where
  "code_of t \<equiv> t_prop t PURCHASE_CODE_PROP"

text \<open>The loop starts with whole quantities and with different objects in its collections.\<close>

definition credits_ready :: "store \<Rightarrow> (string \<times> ref) list \<Rightarrow> (string option, ref) js_map \<Rightarrow> bool" where
  "credits_ready h cns m =
     (map_inv m \<and> distinct (map_values m) \<and> map_get m None = None
      \<and> distinct (map fst cns) \<and> distinct (map snd cns) \<and> snd ` set cns \<inter> set (map_values m) = {}
      \<and> (\<forall>r \<in> set (map_values m). whole (h r) \<and> 0 < quantity (h r) \<and> quantity (h r) < 2 ^ 53)
      \<and> (\<forall>c \<in> set cns. whole (h (snd c)) \<and> quantity (h (snd c)) < 2 ^ 53))"

lemma get_inj:
  "distinct (map_values m) \<Longrightarrow> map_get m k = Some v \<Longrightarrow> map_get m k' = Some v \<Longrightarrow> k = k'"
  unfolding map_get_def map_values_def
  by (metis distinct_map inj_onD map_of_SomeD prod.inject snd_conv)

lemma quantity_of_int [simp]: "quantity (t\<lparr>t_amount := of_int n\<rparr>) = n"
  by (simp add: quantity_def)

text \<open>The store after a credit note \<open>cr\<close> of the purchase \<open>r\<close>.\<close>

definition credited_store :: "ref \<Rightarrow> ref \<Rightarrow> store \<Rightarrow> store" where
  "credited_store r cr h =
     h(r := (h r)\<lparr>t_amount := of_int (quantity (h r) - quantity (h cr))\<rparr>, cr := (h cr)\<lparr>t_checked := True\<rparr>)"

lemma credit_amounts:
  assumes "number_laws A" and "whole c" and "quantity c < 2 ^ 53" and "whole t" and "quantity t < 2 ^ 53"
  shows "am_ofNumber A (am_toNumber A (t_amount c)) = t_amount c"
    and "t_amount t - t_amount c = of_int (quantity t - quantity c)"
    and "js_le (am_toNumber A (of_int (quantity t - quantity c))) (Num 0) \<longleftrightarrow> quantity t \<le> quantity c"
proof -
  let ?d = "quantity t - quantity c"
  have am: "t_amount c = of_int (quantity c)" "t_amount t = of_int (quantity t)"
    and pos: "0 \<le> quantity c" "0 \<le> quantity t"
    using assms(2,4) by (simp_all add: whole_def)
  have "\<bar>quantity c\<bar> < 2 ^ 53" using pos assms(3) by simp
  then show "am_ofNumber A (am_toNumber A (t_amount c)) = t_amount c"
    unfolding toNumber_whole [OF assms(1-3)] using assms(1) am(1) by (metis number_laws_def)
  show "t_amount t - t_amount c = of_int ?d" by (simp add: am)
  have "\<bar>?d\<bar> < 2 ^ 53" using pos assms(3,5) by (simp add: abs_less_iff)
  from rnd64_int [OF this] have "am_toNumber A (of_int ?d) = Num (of_int ?d)"
    using assms(1) unfolding number_laws_def by (metis rat_of_amount_of_int)
  moreover have "js_le (Num (of_int a)) (Num 0) \<longleftrightarrow> a \<le> 0" for a :: int by (auto simp: js_le_def js_eq_def)
  ultimately show "js_le (am_toNumber A (of_int ?d)) (Num 0) \<longleftrightarrow> quantity t \<le> quantity c"
    by (simp only: ) simp
qed

lemma credit_note_step_cases:
  assumes "number_laws A" and "credits_ready h ((cn, cr) # cns) m"
  shows "map_get m (code_of (h cr)) = None \<Longrightarrow> credit_note_step A B w summary (cn, cr) (h, p, m) = Inr (Inr (h, p, m))"
    and "map_get m (code_of (h cr)) = Some r \<Longrightarrow> quantity (h r) \<le> quantity (h cr) \<Longrightarrow>
      \<exists>c. credit_note_step A B w summary (cn, cr) (h, p, m) = Inr (Inl (creditNoteQuantityError c summary))"
    and "map_get m (code_of (h cr)) = Some r \<Longrightarrow> quantity (h cr) < quantity (h r) \<Longrightarrow>
      \<exists>p' t. credit_note_step A B w summary (cn, cr) (h, p, m) = Inr (Inr (credited_store r cr h, p', m))
        \<and> cp_inventoryToCreate p' = map_set cn t (cp_inventoryToCreate p)
        \<and> t_amount t = t_amount (h cr) \<and> t_prop t PARENT_ID = Some (t_id (h r)) \<and> t_checked t"
proof -
  show "credit_note_step A B w summary (cn, cr) (h, p, m) = Inr (Inr (h, p, m))"
    if "map_get m (code_of (h cr)) = None"
    using that by (simp add: credit_note_step_def)
  have facts: "whole (h cr)" "quantity (h cr) < 2 ^ 53" "cr \<notin> set (map_values m)"
    using assms(2) by (auto simp: credits_ready_def)
  {
    assume r: "map_get m (code_of (h cr)) = Some r"
    have "whole (h r)" "quantity (h r) < 2 ^ 53" "r \<noteq> cr"
      using assms(2) get_in_values [OF r] facts(3) by (auto simp: credits_ready_def)
    note am = credit_amounts [OF assms(1) facts(1,2) this(1,2)] and ne = this(3)
    show "\<exists>c. credit_note_step A B w summary (cn, cr) (h, p, m) = Inr (Inl (creditNoteQuantityError c summary))"
      if "quantity (h r) \<le> quantity (h cr)"
      using that r by (auto simp: credit_note_step_def Let_def am simp del: of_int_diff)
    obtain code where code: "code_of (h cr) = Some code"
      using r assms(2) by (cases "code_of (h cr)") (auto simp: credits_ready_def)
    show "\<exists>p' t. credit_note_step A B w summary (cn, cr) (h, p, m) = Inr (Inr (credited_store r cr h, p', m))
        \<and> cp_inventoryToCreate p' = map_set cn t (cp_inventoryToCreate p)
        \<and> t_amount t = t_amount (h cr) \<and> t_prop t PARENT_ID = Some (t_id (h r)) \<and> t_checked t"
      if "quantity (h cr) < quantity (h r)"
    proof -
      let ?t = "credit_note_split (h r) (t_amount (h cr)) code cn"
      have rid: "getRemoteId ?t = cn" by (simp add: getRemoteId_def credit_note_split_def new_transaction_def)
      have t: "t_amount ?t = t_amount (h cr)" "t_prop ?t PARENT_ID = Some (t_id (h r))" "t_checked ?t"
        by (simp_all add: credit_note_split_def new_transaction_def)
      have create: "cp_inventoryToCreate (cp_setInventoryBookTransactionToCreate B w ?t p) =
          map_set cn ?t (cp_inventoryToCreate p)"
        by (simp add: calc_processor_defs rid)
      show ?thesis
        using that r ne map_set_same [OF r] t create code
        by (auto simp: credit_note_step_def Let_def am credited_store_def simp del: of_int_diff)
    qed
  }
qed

section \<open>The loop\<close>

text \<open>The quantity the credit notes take out of the purchases with the code \<open>k\<close>.\<close>

definition credited :: "store \<Rightarrow> (string \<times> ref) list \<Rightarrow> string option \<Rightarrow> int" where
  "credited h cns k = (\<Sum>c\<leftarrow>cns. if code_of (h (snd c)) = k then quantity (h (snd c)) else 0)"

lemma credited_simps [simp]:
  "credited h [] k = 0"
  "credited h (c # cns) k = (if code_of (h (snd c)) = k then quantity (h (snd c)) else 0) + credited h cns k"
  by (simp_all add: credited_def)

lemma credited_nonneg: "\<forall>c \<in> set cns. whole (h (snd c)) \<Longrightarrow> 0 \<le> credited h cns k"
  by (induction cns) (auto simp: whole_def)

lemma credited_cong: "(\<And>c. c \<in> set cns \<Longrightarrow> h' (snd c) = h (snd c)) \<Longrightarrow> credited h' cns k = credited h cns k"
  by (induction cns) auto

lemma credits_ready_tail: "credits_ready h (c # cns) m \<Longrightarrow> credits_ready h cns m"
  by (auto simp: credits_ready_def)

lemma credits_ready_step:
  assumes "credits_ready h ((cn, cr) # cns) m" and "map_get m (code_of (h cr)) = Some r"
    and "quantity (h cr) < quantity (h r)"
  shows "credits_ready (credited_store r cr h) cns m"
    and "credited (credited_store r cr h) cns k = credited h cns k"
    and "map_get m k = Some x \<Longrightarrow> quantity (credited_store r cr h x) =
           quantity (h x) - (if code_of (h cr) = k then quantity (h cr) else 0)"
proof -
  have r: "r \<in> set (map_values m)" "r \<noteq> cr" "cr \<notin> set (map_values m)" "0 \<le> quantity (h cr)"
    using get_in_values [OF assms(2)] assms(1) by (auto simp: credits_ready_def whole_def)
  have "cr \<notin> snd ` set cns" "r \<notin> snd ` set cns" using assms(1) r(1) by (auto simp: credits_ready_def)
  then have others: "credited_store r cr h (snd c) = h (snd c)" if "c \<in> set cns" for c
    using that by (simp add: credited_store_def) (metis imageI)
  then show "credited (credited_store r cr h) cns k = credited h cns k" by (rule credited_cong)
  have q: "quantity (credited_store r cr h x) = (if x = r then quantity (h r) - quantity (h cr) else quantity (h x))"
    and wh: "whole (h x) \<Longrightarrow> whole (credited_store r cr h x)" if "x \<in> set (map_values m)" for x
    using that r assms(3) by (auto simp: credited_store_def quantity_def whole_def simp del: of_int_diff)
  show "credits_ready (credited_store r cr h) cns m"
    using assms(1,3) r(4) q wh others by (auto simp: credits_ready_def)
  show "quantity (credited_store r cr h x) = quantity (h x) - (if code_of (h cr) = k then quantity (h cr) else 0)"
    if "map_get m k = Some x"
  proof -
    have "x = r \<longleftrightarrow> k = code_of (h cr)"
      using that assms(1,2) get_inj [of m k r "code_of (h cr)"] by (auto simp: credits_ready_def)
    then show ?thesis using q [OF get_in_values [OF that]] by auto
  qed
qed

text \<open>What the loop leaves behind when it returns no error.\<close>

definition credited_run ::
    "store \<Rightarrow> (string \<times> ref) list \<Rightarrow> (string option, ref) js_map \<Rightarrow> store \<Rightarrow> calc_processor \<Rightarrow> bool" where
  "credited_run h cns m h' p' =
     ((\<forall>k r. map_get m k = Some r \<longrightarrow> h' r = (h r)\<lparr>t_amount := of_int (quantity (h r) - credited h cns k)\<rparr>)
      \<and> (\<forall>i. i \<notin> set (map_values m) \<union> snd ` set cns \<longrightarrow> h' i = h i)
      \<and> (\<forall>(cn, cr) \<in> set cns. \<forall>r. map_get m (code_of (h cr)) = Some r \<longrightarrow>
           t_checked (h' cr) \<and>
           (\<exists>t. map_get (cp_inventoryToCreate p') cn = Some t \<and> t_amount t = t_amount (h cr)
              \<and> t_prop t PARENT_ID = Some (t_id (h r)) \<and> t_checked t)))"

lemma credited_run_skip:
  assumes "credited_run h cns m h' p'" and "map_get m (code_of (h cr)) = None" and "cr \<notin> set (map_values m)"
  shows "credited_run h ((cn, cr) # cns) m h' p'"
  using assms unfolding credited_run_def by auto

lemma credited_run_step:
  assumes "credits_ready h ((cn, cr) # cns) m" and r: "map_get m (code_of (h cr)) = Some r"
    and "quantity (h cr) < quantity (h r)"
    and run: "credited_run (credited_store r cr h) cns m h' p'"
    and t: "map_get (cp_inventoryToCreate p') cn = Some t" "t_amount t = t_amount (h cr)"
      "t_prop t PARENT_ID = Some (t_id (h r))" "t_checked t"
  shows "credited_run h ((cn, cr) # cns) m h' p'"
proof -
  let ?h = "credited_store r cr h"
  note step = credits_ready_step [OF assms(1-3)]
  have rv: "r \<in> set (map_values m)" "cr \<notin> set (map_values m)" "cr \<notin> snd ` set cns" "snd ` set cns \<inter> set (map_values m) = {}"
    using get_in_values [OF r] assms(1) by (auto simp: credits_ready_def)
  have purchases: "h' x = (h x)\<lparr>t_amount := of_int (quantity (h x) - credited h ((cn, cr) # cns) k)\<rparr>"
    if x: "map_get m k = Some x" for k x
  proof -
    have "h' x = (?h x)\<lparr>t_amount := of_int (quantity (?h x) - credited h cns k)\<rparr>"
      using run x by (simp add: credited_run_def step(2))
    moreover have "(?h x)\<lparr>t_amount := a\<rparr> = (h x)\<lparr>t_amount := a\<rparr>" for a
      using get_in_values [OF x] rv(2) by (auto simp: credited_store_def)
    ultimately show ?thesis by (simp add: step(3) [OF x] algebra_simps del: of_int_diff of_int_add)
  qed
  have keep: "?h x = h x" if "x \<noteq> r" "x \<noteq> cr" for x using that by (simp add: credited_store_def)
  have ids: "t_id (?h x) = t_id (h x)" "code_of (?h x) = code_of (h x)" for x by (simp_all add: credited_store_def)
  have rest: "h' i = h i" if "i \<notin> set (map_values m) \<union> snd ` set ((cn, cr) # cns)" for i
    using that run rv(1) keep [of i] by (auto simp: credited_run_def)
  have cr: "t_checked (h' cr)" using run rv by (auto simp: credited_run_def credited_store_def)
  have later: "t_checked (h' cr') \<and> (\<exists>t. map_get (cp_inventoryToCreate p') cn' = Some t \<and> t_amount t = t_amount (h cr')
      \<and> t_prop t PARENT_ID = Some (t_id (h r')) \<and> t_checked t)"
    if c: "(cn', cr') \<in> set cns" and m: "map_get m (code_of (h cr')) = Some r'" for cn' cr' r'
  proof -
    have "cr' \<in> snd ` set cns" using c by force
    then have "?h cr' = h cr'" using rv by (intro keep) auto
    then show ?thesis using run c m unfolding credited_run_def by (auto simp: ids)
  qed
  show ?thesis
    unfolding credited_run_def using purchases rest cr later t r by auto
qed

lemma credit_note_loop_credits:
  assumes "number_laws A" and "credits_ready h cns m" and "map_inv (cp_inventoryToCreate p)"
    and "\<forall>k r. map_get m k = Some r \<longrightarrow> credited h cns k < quantity (h r)"
  shows "\<exists>h' p'. credit_note_loop A B w summary cns (h, p, m) = Inr (Inr (h', p', m)) \<and> credited_run h cns m h' p'
     \<and> (\<forall>c. c \<notin> fst ` set cns \<longrightarrow> map_get (cp_inventoryToCreate p') c = map_get (cp_inventoryToCreate p) c)"
  using assms(2-)
proof (induction cns arbitrary: h p)
  case Nil
  have "h r = (h r)\<lparr>t_amount := of_int (quantity (h r))\<rparr>" if "map_get m k = Some r" for k r
    using get_in_values [OF that] Nil.prems(1) by (auto simp: credits_ready_def whole_def)
  then show ?case by (auto simp: credited_run_def)
next
  case (Cons c cns)
  obtain cn cr where c: "c = (cn, cr)" by force
  note ready = Cons.prems(1) [unfolded c]
  have cn: "cn \<notin> fst ` set cns" "cr \<notin> set (map_values m)" "0 \<le> quantity (h cr)"
    and pos: "0 \<le> credited h cns k" for k
    using ready credited_nonneg [of cns h k] by (auto simp: credits_ready_def whole_def)
  show ?case
  proof (cases "map_get m (code_of (h cr))")
    case None
    have "\<forall>k r. map_get m k = Some r \<longrightarrow> credited h cns k < quantity (h r)"
      using Cons.prems(3) cn(3) by (fastforce simp: c split: if_splits)
    from Cons.IH [OF credits_ready_tail [OF ready] Cons.prems(2) this] obtain h' p' where
      loop: "credit_note_loop A B w summary cns (h, p, m) = Inr (Inr (h', p', m))"
      and run: "credited_run h cns m h' p'"
      and same: "\<forall>c. c \<notin> fst ` set cns \<longrightarrow> map_get (cp_inventoryToCreate p') c = map_get (cp_inventoryToCreate p) c"
      by blast
    have "credited_run h ((cn, cr) # cns) m h' p'" using run None cn(2) by (rule credited_run_skip)
    then show ?thesis
      using loop same by (auto simp: c credit_note_step_cases(1) [OF assms(1) ready None])
  next
    case (Some r)
    have lt: "quantity (h cr) < quantity (h r)"
      using Cons.prems(3) Some pos [of "code_of (h cr)"] by (force simp: c)
    obtain p1 t where step: "credit_note_step A B w summary (cn, cr) (h, p, m) = Inr (Inr (credited_store r cr h, p1, m))"
      and create: "cp_inventoryToCreate p1 = map_set cn t (cp_inventoryToCreate p)"
      and t: "t_amount t = t_amount (h cr)" "t_prop t PARENT_ID = Some (t_id (h r))" "t_checked t"
      using credit_note_step_cases(3) [where B = B and w = w and summary = summary and p = p,
          OF assms(1) ready Some lt] by blast
    note get = js.get_set [OF Cons.prems(2), of cn t]
    have inv: "map_inv (cp_inventoryToCreate p1)" unfolding create by (rule js.inv_set [OF Cons.prems(2)])
    note srdy = credits_ready_step [OF ready Some lt]
    have "\<forall>k x. map_get m k = Some x \<longrightarrow> credited (credited_store r cr h) cns k < quantity (credited_store r cr h x)"
      using Cons.prems(3) by (fastforce simp: srdy(2,3) c split: if_splits)
    from Cons.IH [OF srdy(1) inv this] obtain h' p' where
      loop: "credit_note_loop A B w summary cns (credited_store r cr h, p1, m) = Inr (Inr (h', p', m))"
      and run: "credited_run (credited_store r cr h) cns m h' p'"
      and same: "\<forall>c. c \<notin> fst ` set cns \<longrightarrow> map_get (cp_inventoryToCreate p') c = map_get (cp_inventoryToCreate p1) c"
      by blast
    have "map_get (cp_inventoryToCreate p') cn = Some t" using same cn(1) by (simp add: create get)
    from credited_run_step [OF ready Some lt run this t] show ?thesis
      using loop step same by (auto simp: c create get)
  qed
qed

lemma credit_note_loop_too_large:
  assumes "number_laws A" and "credits_ready h cns m"
    and "map_get m k = Some r" and "quantity (h r) \<le> credited h cns k"
  shows "\<exists>c. credit_note_loop A B w summary cns (h, p, m) = Inr (Inl (creditNoteQuantityError c summary))"
  using assms(2-)
proof (induction cns arbitrary: h p)
  case Nil
  then show ?case using get_in_values [OF Nil.prems(2)] by (auto simp: credits_ready_def)
next
  case (Cons c cns)
  obtain cn cr where c: "c = (cn, cr)" by force
  note ready = Cons.prems(1) [unfolded c]
  show ?case
  proof (cases "map_get m (code_of (h cr))")
    case None
    with Cons.prems have "quantity (h r) \<le> credited h cns k" by (auto simp: c split: if_splits)
    from Cons.IH [OF credits_ready_tail [OF ready] Cons.prems(2) this, of p] show ?thesis
      by (auto simp: c credit_note_step_cases(1) [OF assms(1) ready None])
  next
    case (Some x)
    show ?thesis
    proof (cases "quantity (h cr) < quantity (h x)")
      case False
      then show ?thesis
        using credit_note_step_cases(2) [where B = B and w = w and summary = summary and p = p,
            OF assms(1) ready Some] by (auto simp: c)
    next
      case True
      obtain p1 t where step:
        "credit_note_step A B w summary (cn, cr) (h, p, m) = Inr (Inr (credited_store x cr h, p1, m))"
        using credit_note_step_cases(3) [where B = B and w = w and summary = summary and p = p,
            OF assms(1) ready Some True] by blast
      note srdy = credits_ready_step [OF ready Some True]
      have "quantity (credited_store x cr h r) \<le> credited (credited_store x cr h) cns k"
        using Cons.prems(3) by (simp add: srdy(2) srdy(3) [OF Cons.prems(2)] c split: if_splits)
      from Cons.IH [OF srdy(1) Cons.prems(2) this, of p1] show ?thesis by (auto simp: c step)
    qed
  qed
qed

section \<open>The properties\<close>

text \<open>
  C15. Credit notes take exactly what was returned out of the purchases. For whole
  quantities, if every purchase keeps something after all credit notes that name it, the
  loop succeeds: each purchase has its quantity less the credited one and is otherwise as
  it was, each credit note of a known purchase is checked, a checked transaction of its
  quantity that points to the purchase is stored for creation, and nothing else changes.
\<close>

theorem credit_notes_reduce_purchases:
  assumes "number_laws A" and "credits_ready h cns m" and "map_inv (cp_inventoryToCreate p)"
    and "\<forall>k r. map_get m k = Some r \<longrightarrow> credited h cns k < quantity (h r)"
  shows "\<exists>h' p'. credit_note_loop A B w summary cns (h, p, m) = Inr (Inr (h', p', m))
     \<and> credited_run h cns m h' p'"
  using credit_note_loop_credits [where B = B and w = w and summary = summary, OF assms] by blast

text \<open>Two of the ten bought are returned.\<close>

definition return_account :: "transaction list" where
  "return_account =
     [demo_purchase ''p1'' 20240105 10 100,
      demo_tx ''c1'' 20240106 2 widget buy_account [CREDIT_NOTE_PROP \<mapsto> ''cn'', PURCHASE_CODE_PROP \<mapsto> ''p1'']]"

lemma return_ready: "credits_ready (\<lambda>i. return_account ! i) [(''cn'', 1)] [(Some ''p1'', 0)]"
  by (simp add: credits_ready_def map_inv_def map_values_def map_get_def return_account_def whole_def quantity_def
      demo_tx_defs)

lemma return_quantities:
  "quantity (return_account ! 0) = 10" "credited (\<lambda>i. return_account ! i) [(''cn'', 1)] (Some ''p1'') = 2"
  by (simp_all add: return_account_def quantity_def demo_tx_defs)

theorem credit_notes_reduce_purchases_witness:
  "\<exists>h' p'. credit_note_loop decimal_lib demo_app demo_world (new_Summary ''w'') [(''cn'', 1)]
       (\<lambda>i. return_account ! i, demo_processor, [(Some ''p1'', 0)]) = Inr (Inr (h', p', [(Some ''p1'', 0)]))
     \<and> t_amount (h' 0) = 8"
proof -
  let ?h = "\<lambda>i. return_account ! i" and ?m = "[(Some ''p1'', 0 :: ref)]"
  have get: "map_get ?m k = Some r \<longleftrightarrow> k = Some ''p1'' \<and> r = 0" for k r by (auto simp: map_get_def)
  have less: "\<forall>k r. map_get ?m k = Some r \<longrightarrow> credited ?h [(''cn'', 1)] k < quantity (?h r)"
    by (simp only: get) (simp add: return_quantities del: credited_simps One_nat_def)
  have inv: "map_inv (cp_inventoryToCreate demo_processor)"
    by (simp add: new_CalculateCostOfSalesProcessor_def js.inv_empty)
  obtain h' p' where loop: "credit_note_loop decimal_lib demo_app demo_world (new_Summary ''w'') [(''cn'', 1)]
       (?h, demo_processor, ?m) = Inr (Inr (h', p', ?m))" and run: "credited_run ?h [(''cn'', 1)] ?m h' p'"
    using credit_notes_reduce_purchases [where B = demo_app and w = demo_world and summary = "new_Summary ''w''",
        OF decimal_lib_numbers return_ready inv less] by blast
  have "t_amount (h' 0) = 8"
    using run by (simp add: credited_run_def get return_quantities del: credited_simps One_nat_def)
  with loop show ?thesis by blast
qed

text \<open>
  C16. Credit notes that leave nothing of a purchase stop the calculation. On an account of
  whole quantities with open sales, whose total of open purchases less open credit notes
  is not below the total of the sales, if the credit notes that name some purchase reach
  its whole quantity, the call answers the error about the credit note, and the platform
  is left exactly as it was.
\<close>

theorem credit_notes_too_large:
  assumes "number_laws A" and "run_of A B ibId gaId d w r"
    and "credits_ready (r_store r) (co_creditNotes (r_collected r)) (co_purchases (r_collected r))"
    and "\<not> js_eq (co_totalSales (r_collected r)) (Num 0)"
    and "\<not> js_less (co_totalPurchased (r_collected r)) (co_totalSales (r_collected r))"
    and "map_get (co_purchases (r_collected r)) k = Some i"
    and "quantity (r_store r i) \<le> credited (r_store r) (co_creditNotes (r_collected r)) k"
  shows "\<exists>c. calculateCostOfSalesForAccount A B ibId gaId d w = (Inr (creditNoteQuantityError c (new_Summary gaId)), w)"
proof -
  let ?p = "new_CalculateCostOfSalesProcessor (app_getBook B w ibId) (r_financialBook r)"
  obtain c where "credit_note_loop A B w (new_Summary gaId) (co_creditNotes (r_collected r))
      (r_store r, ?p, co_purchases (r_collected r)) = Inr (Inl (creditNoteQuantityError c (new_Summary gaId)))"
    using credit_note_loop_too_large [where B = B and w = w and summary = "new_Summary gaId" and p = ?p,
        OF assms(1,3,6,7)] by blast
  then show ?thesis
    using assms(4,5) by (auto simp: calculate_run [OF assms(2)] calculate_collected_def)
qed

text \<open>Four and six were bought, four of the first are returned, five are sold.\<close>

definition overcredited_account :: "transaction list" where
  "overcredited_account =
     [demo_purchase ''p1'' 20240105 4 40, demo_purchase ''p2'' 20240105 6 60,
      demo_tx ''c1'' 20240106 4 widget buy_account [CREDIT_NOTE_PROP \<mapsto> ''cn'', PURCHASE_CODE_PROP \<mapsto> ''p1''],
      demo_sale ''s1'' 20240115 5]"

lemma overcredited_collect:
  "collect decimal_lib (\<lambda>i. overcredited_account ! i) [0..<length overcredited_account] =
     \<lparr>co_sales = [3], co_purchases = [(Some ''p1'', 0), (Some ''p2'', 1)], co_creditNotes = [(''cn'', 2)],
      co_totalSales = Num 5, co_totalPurchased = Num 6\<rparr>"
  by (simp add: overcredited_account_def collect_def collect_one_def upt_rec demo_tx_defs isSale_def isPurchase_def
      isCreditNote_def rnd64_numeral demo_defs map_set_def map_empty_def Let_def js_sub_def)

theorem credit_notes_too_large_witness:
  "\<exists>c. calculateCostOfSalesForAccount decimal_lib demo_app ''inv'' ''w'' None (account_of overcredited_account)
     = (Inr (creditNoteQuantityError c (new_Summary ''w'')), account_of overcredited_account)"
proof -
  let ?r = "account_run overcredited_account"
  have r: "r_store ?r = (\<lambda>i. overcredited_account ! i)" "r_collected ?r =
     \<lparr>co_sales = [3], co_purchases = [(Some ''p1'', 0), (Some ''p2'', 1)], co_creditNotes = [(''cn'', 2)],
      co_totalSales = Num 5, co_totalPurchased = Num 6\<rparr>"
    by (simp_all add: account_run_def overcredited_collect)
  have ready: "credits_ready (r_store ?r) (co_creditNotes (r_collected ?r)) (co_purchases (r_collected ?r))"
    unfolding r by (simp add: credits_ready_def map_inv_def map_values_def map_get_def overcredited_account_def
        whole_def quantity_def demo_tx_defs)
  have "quantity (overcredited_account ! 0) = 4" "credited (\<lambda>i. overcredited_account ! i) [(''cn'', 2)] (Some ''p1'') = 4"
    by (simp_all add: overcredited_account_def quantity_def demo_tx_defs)
  then show ?thesis
    by (intro credit_notes_too_large [OF decimal_lib_numbers account_run_of ready, of "Some ''p1''" 0])
      (simp_all add: r js_eq_def map_get_def del: credited_simps)
qed

end
