(* ===== verification/CalculateEndToEnd.thy ===== *)
theory CalculateEndToEnd
  imports CreditNotes
begin

text \<open>
  The calculation service against its specification, from the transactions the service
  answers to the cost of sales transactions it is sent.
\<close>

section \<open>The whole service\<close>

text \<open>
  The transactions of an account, as the specification wants them. What the open credit
  notes return of the purchase with a code leaves that purchase before anything is sold.
\<close>

definition returned :: "transaction list \<Rightarrow> string option \<Rightarrow> amount" where
  "returned ts k = (\<Sum>t\<leftarrow>filter (open_tx isCreditNote) ts. if code_of t = k then t_amount t else 0)"

definition after_returns :: "transaction list \<Rightarrow> transaction \<Rightarrow> transaction" where
  "after_returns ts t = t\<lparr>t_amount := t_amount t - returned ts (code_of t)\<rparr>"

text \<open>
  A well-formed account: the order keys are numbers, a transaction is of one kind, the
  open purchases can be read, keep something after the returns and have their own codes,
  the open sales have their own identifiers and the open credit notes their own numbers.
  Where something is returned the quantities are whole, because the loop over the credit
  notes passes them through binary numbers.
\<close>

definition ledger_ready :: "amount_lib \<Rightarrow> 'w bkper_app \<Rightarrow> 'w \<Rightarrow> book \<Rightarrow> transaction list \<Rightarrow> bool" where
  "ledger_ready A B w fb ts =
     ((\<forall>t \<in> set ts. fifo_ok t \<and> \<not> (isSale t \<and> isPurchase t)
        \<and> \<not> (open_tx isCreditNote t \<and> (isSale t \<or> isPurchase t))
        \<and> (open_tx isPurchase t \<longrightarrow> purchase_ready A B w fb (after_returns ts t)))
      \<and> distinct (map code_of (filter (open_tx isPurchase) ts))
      \<and> distinct (map t_id (filter (open_tx isSale) ts))
      \<and> distinct (map (\<lambda>t. t_prop t CREDIT_NOTE_PROP) (filter (open_tx isCreditNote) ts))
      \<and> (filter (open_tx isCreditNote) ts = [] \<or>
         (\<forall>t \<in> set ts. open_tx isPurchase t \<or> open_tx isCreditNote t \<longrightarrow> whole t \<and> quantity t < 2 ^ 53)))"

lemma after_returns_none: "filter (open_tx isCreditNote) ts = [] \<Longrightarrow> after_returns ts t = t"
  by (simp add: after_returns_def returned_def)

text \<open>The costs the specification computes for the open sales, oldest first.\<close>

definition fifo_costs :: "amount_lib \<Rightarrow> 'w bkper_app \<Rightarrow> 'w \<Rightarrow> book \<Rightarrow> transaction list \<Rightarrow> amount list" where
  "fifo_costs A B w fb ts =
     map snd (fst (issue_all (fifo_issue (unit_cost A))
       (map t_amount (sort_key fifo_key (filter (open_tx isSale) ts)))
       (map (\<lambda>t. layer_of A B w fb (after_returns ts t)) (sort_key fifo_key (filter (open_tx isPurchase) ts)))))"

text \<open>The references a run processes, in its order.\<close>

definition open_refs :: "(transaction \<Rightarrow> bool) \<Rightarrow> transaction list \<Rightarrow> ref list" where
  "open_refs kind ts = filter (\<lambda>i. open_tx kind (ts ! i)) [0..<length ts]"

definition fifo_refs :: "(transaction \<Rightarrow> bool) \<Rightarrow> transaction list \<Rightarrow> ref list" where
  "fifo_refs kind ts = sort_fifo (\<lambda>i. ts ! i) (open_refs kind ts)"

lemma map_open_refs: "map (\<lambda>i. ts ! i) (open_refs kind ts) = filter (open_tx kind) ts"
  by (simp only: open_refs_def map_filter_refs [of ts "open_tx kind"])

lemma map_fun_open_refs: "map (\<lambda>i. f (ts ! i)) (open_refs kind ts) = map f (filter (open_tx kind) ts)"
  by (simp add: comp_def flip: map_open_refs)

lemma map_fifo_refs:
  assumes "ledger_ready A B w fb ts"
  shows "map (\<lambda>i. ts ! i) (fifo_refs kind ts) = sort_key fifo_key (filter (open_tx kind) ts)"
  unfolding fifo_refs_def open_refs_def
  by (rule map_sort_fifo_refs) (use assms in \<open>simp add: ledger_ready_def\<close>)

lemma set_open_refs:
  "set (open_refs kind ts) = {i. i < length ts \<and> open_tx kind (ts ! i)}" "distinct (open_refs kind ts)"
  by (auto simp: open_refs_def)

lemma set_fifo_refs:
  "set (fifo_refs kind ts) = {i. i < length ts \<and> open_tx kind (ts ! i)}" "distinct (fifo_refs kind ts)"
  by (auto simp: fifo_refs_def set_open_refs)

lemma collect_ready:
  assumes "ledger_ready A B w fb ts"
  defines "c \<equiv> collect A (\<lambda>i. ts ! i) [0..<length ts]"
  shows "co_purchases c = map (\<lambda>i. (code_of (ts ! i), i)) (open_refs isPurchase ts)"
    and "co_sales c = open_refs isSale ts"
    and "co_creditNotes c = map (\<lambda>i. (the (t_prop (ts ! i) CREDIT_NOTE_PROP), i)) (open_refs isCreditNote ts)"
    and "map_values (co_purchases c) = open_refs isPurchase ts"
    and "distinct (map fst (co_purchases c))"
proof -
  have "distinct (map (\<lambda>i. code_of (ts ! i)) (open_refs isPurchase ts))"
    using assms(1) map_fun_open_refs [of code_of ts isPurchase] by (simp add: ledger_ready_def)
  then show p: "co_purchases c = map (\<lambda>i. (code_of (ts ! i), i)) (open_refs isPurchase ts)"
    and "distinct (map fst (co_purchases c))"
    unfolding c_def open_refs_def by (simp_all add: collect_purchase_entries comp_def)
  show "map_values (co_purchases c) = open_refs isPurchase ts"
    by (simp add: p map_values_def comp_def)
  show "co_sales c = open_refs isSale ts" by (simp add: c_def open_refs_def collect_sales)
  have "distinct (map (\<lambda>i. t_prop (ts ! i) CREDIT_NOTE_PROP) (open_refs isCreditNote ts))"
    using assms(1) map_fun_open_refs [of "\<lambda>t. t_prop t CREDIT_NOTE_PROP" ts isCreditNote] by (simp add: ledger_ready_def)
  then show "co_creditNotes c = map (\<lambda>i. (the (t_prop (ts ! i) CREDIT_NOTE_PROP), i)) (open_refs isCreditNote ts)"
    unfolding c_def open_refs_def by (rule collect_creditNote_entries)
qed

lemma refs_disjoint:
  assumes "\<forall>t \<in> set ts. \<not> (isSale t \<and> isPurchase t)"
  shows "set (fifo_refs isSale ts) \<inter> set (fifo_refs isPurchase ts) = {}"
  using assms by (auto simp: set_fifo_refs)

lemma ready_disjoint:
  "ledger_ready A B w fb ts \<Longrightarrow> set (fifo_refs isSale ts) \<inter> set (fifo_refs isPurchase ts) = {}"
  by (intro refs_disjoint) (auto simp: ledger_ready_def)

section \<open>What is returned\<close>

lemma credit_note_step_financial:
  "credit_note_step A B w summary c (h, p, m) = Inr (Inr (h', p', m')) \<Longrightarrow>
     cp_financialToCreate p' = cp_financialToCreate p"
  by (auto simp: credit_note_step_def Let_def bindR_eq_Inr split: prod.splits option.splits if_splits)

lemma credit_note_loop_financial:
  "credit_note_loop A B w summary cns (h, p, m) = Inr (Inr (h', p', m')) \<Longrightarrow>
     cp_financialToCreate p' = cp_financialToCreate p"
proof (induction cns arbitrary: h p m)
  case (Cons c cns)
  then obtain x where step: "credit_note_step A B w summary c (h, p, m) = Inr x"
    and rest: "(case x of Inl s \<Rightarrow> Inr (Inl s) | Inr st \<Rightarrow> credit_note_loop A B w summary cns st) = Inr (Inr (h', p', m'))"
    by (auto simp: bindR_eq_Inr)
  then obtain h1 p1 m1 where "x = Inr (h1, p1, m1)" by (cases x) auto
  with Cons.IH [of h1 p1 m1] step rest credit_note_step_financial show ?case by fastforce
qed simp

lemma get_open_purchase:
  assumes "ledger_ready A B w fb ts"
  shows "map_get (co_purchases (collect A (\<lambda>i. ts ! i) [0..<length ts])) k = Some r \<longleftrightarrow>
           r \<in> set (open_refs isPurchase ts) \<and> k = code_of (ts ! r)"
  using collect_ready(5) [OF assms]
  by (simp only: map_get_def map_of_eq_Some_iff) (auto simp: collect_ready(1) [OF assms])

lemma returned_credited:
  assumes "ledger_ready A B w fb ts" and "\<forall>t \<in> set (filter (open_tx isCreditNote) ts). whole t"
  shows "of_int (credited (\<lambda>i. ts ! i) (co_creditNotes (collect A (\<lambda>i. ts ! i) [0..<length ts])) k) = returned ts k"
proof -
  have "of_int (\<Sum>t\<leftarrow>us. if code_of t = k then quantity t else 0) =
      (\<Sum>t\<leftarrow>us. if code_of t = k then t_amount t else 0)" if "\<forall>t \<in> set us. whole t" for us
    using that by (induction us) (auto simp: whole_def)
  moreover have "credited (\<lambda>i. ts ! i) (co_creditNotes (collect A (\<lambda>i. ts ! i) [0..<length ts])) k =
      (\<Sum>t\<leftarrow>filter (open_tx isCreditNote) ts. if code_of t = k then quantity t else 0)"
    unfolding credited_def collect_ready(3) [OF assms(1)] map_open_refs [of ts isCreditNote, symmetric]
    by (simp add: comp_def snd_def cong: if_cong)
  ultimately show ?thesis using assms(2) by (simp only: returned_def)
qed

lemma ready_credits:
  assumes "ledger_ready A B w fb ts" and "filter (open_tx isCreditNote) ts \<noteq> []"
  defines "c \<equiv> collect A (\<lambda>i. ts ! i) [0..<length ts]"
  shows "credits_ready (\<lambda>i. ts ! i) (co_creditNotes c) (co_purchases c)"
    and "\<forall>i \<in> set (open_refs isPurchase ts). credited (\<lambda>i. ts ! i) (co_creditNotes c) (code_of (ts ! i)) < quantity (ts ! i)
           \<and> after_returns ts (ts ! i) = (ts ! i)\<lparr>t_amount :=
                of_int (quantity (ts ! i) - credited (\<lambda>i. ts ! i) (co_creditNotes c) (code_of (ts ! i)))\<rparr>"
proof -
  note coll = collect_ready [OF assms(1), folded c_def]
  have whole: "\<forall>t \<in> set ts. open_tx isPurchase t \<or> open_tx isCreditNote t \<longrightarrow> whole t \<and> quantity t < 2 ^ 53"
    and ready: "\<forall>t \<in> set ts. open_tx isPurchase t \<longrightarrow> purchase_ready A B w fb (after_returns ts t)"
    using assms(1,2) by (simp_all add: ledger_ready_def)
  let ?cr = "\<lambda>k. credited (\<lambda>i. ts ! i) (co_creditNotes c) k"
  have cr: "of_int (?cr k) = returned ts k" for k
    unfolding c_def by (rule returned_credited [OF assms(1)]) (use whole in auto)
  have pos: "?cr (code_of t) < quantity t
      \<and> after_returns ts t = t\<lparr>t_amount := of_int (quantity t - ?cr (code_of t))\<rparr>"
    if "t \<in> set ts" "open_tx isPurchase t" for t
  proof -
    have am: "t_amount t = of_int (quantity t)" using whole that by (auto simp: whole_def)
    then have eq: "after_returns ts t = t\<lparr>t_amount := of_int (quantity t - ?cr (code_of t))\<rparr>"
      by (simp add: after_returns_def cr)
    have "0 < t_amount (after_returns ts t)" using ready that by (auto simp: purchase_ready_def)
    then have "?cr (code_of t) < quantity t" unfolding eq by (simp del: of_int_diff)
    with eq show ?thesis by simp
  qed
  then show "\<forall>i \<in> set (open_refs isPurchase ts). ?cr (code_of (ts ! i)) < quantity (ts ! i)
           \<and> after_returns ts (ts ! i) = (ts ! i)\<lparr>t_amount := of_int (quantity (ts ! i) - ?cr (code_of (ts ! i)))\<rparr>"
    by (auto simp: set_open_refs)
  have cns: "map snd (co_creditNotes c) = open_refs isCreditNote ts" by (simp add: coll comp_def)
  then have snd_notes: "snd ` set (co_creditNotes c) = set (open_refs isCreditNote ts)" by (metis set_map)
  have "map_get (co_purchases c) None = None"
  proof (rule ccontr)
    assume "map_get (co_purchases c) None \<noteq> None"
    then obtain r where "map_get (co_purchases c) None = Some r" by auto
    then have "r \<in> set (open_refs isPurchase ts)" "code_of (ts ! r) = None"
      using get_open_purchase [OF assms(1), of None r, folded c_def] by simp_all
    moreover from this(1) have "purchase_ready A B w fb (after_returns ts (ts ! r))"
      using ready by (simp add: set_open_refs)
    ultimately show False by (simp add: purchase_ready_def after_returns_def)
  qed
  moreover have "set (open_refs isCreditNote ts) \<inter> set (open_refs isPurchase ts) = {}"
    using assms(1) by (auto simp: set_open_refs ledger_ready_def)
  moreover have "0 < quantity (ts ! i)" if "i \<in> set (open_refs isPurchase ts)" for i
    using pos [of "ts ! i"] that credited_nonneg [of "co_creditNotes c" "\<lambda>i. ts ! i" "code_of (ts ! i)"] whole
    by (force simp: set_open_refs coll(3))
  moreover have "distinct (map fst (co_creditNotes c))"
    using js.inv_set_all [OF js.inv_empty] unfolding c_def collect_creditNotes map_inv_def by blast
  ultimately show "credits_ready (\<lambda>i. ts ! i) (co_creditNotes c) (co_purchases c)"
    unfolding credits_ready_def map_inv_def coll(4) cns snd_notes
    using coll(5) whole by (auto simp: set_open_refs coll(3))
qed

lemma credit_phase:
  assumes "number_laws A" and "ledger_ready A B w fb ts"
  defines "c \<equiv> collect A (\<lambda>i. ts ! i) [0..<length ts]"
  obtains h1 p1 where
    "credit_note_loop A B w summary (co_creditNotes c)
       (\<lambda>i. ts ! i, new_CalculateCostOfSalesProcessor ib fb, co_purchases c) = Inr (Inr (h1, p1, co_purchases c))"
    and "cp_financialToCreate p1 = map_empty"
    and "\<forall>i \<in> set (open_refs isPurchase ts). h1 i = after_returns ts (ts ! i)"
    and "\<forall>i \<in> set (open_refs isSale ts). h1 i = ts ! i"
proof (cases "filter (open_tx isCreditNote) ts = []")
  case True
  then have "co_creditNotes c = []"
    using collect_ready(3) [OF assms(2)] map_open_refs [of ts isCreditNote] by (simp add: c_def)
  then show thesis
    by (intro that [of "\<lambda>i. ts ! i" "new_CalculateCostOfSalesProcessor ib fb"])
      (simp_all add: new_CalculateCostOfSalesProcessor_def after_returns_none [OF True])
next
  case False
  let ?h = "\<lambda>i. ts ! i" and ?p = "new_CalculateCostOfSalesProcessor ib fb"
  note ready = ready_credits [OF assms(2) False, folded c_def]
    and get = get_open_purchase [OF assms(2), folded c_def]
  have less: "\<forall>k r. map_get (co_purchases c) k = Some r \<longrightarrow> credited ?h (co_creditNotes c) k < quantity (?h r)"
    using ready(2) by (auto simp: get)
  have new: "map_inv (cp_inventoryToCreate ?p)" "cp_financialToCreate ?p = map_empty"
    by (simp_all add: new_CalculateCostOfSalesProcessor_def js.inv_empty)
  obtain h1 p1 where loop: "credit_note_loop A B w summary (co_creditNotes c) (?h, ?p, co_purchases c)
      = Inr (Inr (h1, p1, co_purchases c))" and run: "credited_run ?h (co_creditNotes c) (co_purchases c) h1 p1"
    using credit_note_loop_credits [where B = B and w = w and summary = summary, OF assms(1) ready(1) new(1) less]
    by blast
  have "\<forall>i \<in> set (open_refs isPurchase ts). h1 i = after_returns ts (ts ! i)"
    using run ready(2) by (auto simp: credited_run_def get simp del: of_int_diff)
  moreover have "i \<notin> set (open_refs isPurchase ts) \<union> snd ` set (co_creditNotes c)" if "i \<in> set (open_refs isSale ts)" for i
    using that assms(2) by (auto simp: c_def collect_ready(3) [OF assms(2)] set_open_refs ledger_ready_def)
  then have "\<forall>i \<in> set (open_refs isSale ts). h1 i = ts ! i"
    using run by (simp add: credited_run_def c_def collect_ready(4) [OF assms(2)])
  ultimately show thesis using that loop credit_note_loop_financial [OF loop] new(2) by simp
qed

section \<open>What is sold\<close>

lemma compareToFIFO_amount: "compareToFIFO (t\<lparr>t_amount := a\<rparr>) (u\<lparr>t_amount := b\<rparr>) = compareToFIFO t u"
proof -
  have "order_value (t\<lparr>t_amount := a\<rparr>) = order_value t" for t a by (simp add: order_value_def)
  moreover have "t_createdAt (t\<lparr>t_amount := a\<rparr>) = t_createdAt t" "t_dateValue (t\<lparr>t_amount := a\<rparr>) = t_dateValue t"
    for t :: transaction and a by simp_all
  ultimately show ?thesis by (simp only: compareToFIFO_def)
qed

lemma sort_fifo_cong:
  assumes "\<forall>i \<in> set rs. \<exists>a. h' i = (h i)\<lparr>t_amount := a\<rparr>"
  shows "sort_fifo h' rs = sort_fifo h rs"
proof -
  have eq: "compareToFIFO (h' i) (h' j) = compareToFIFO (h i) (h j)" if "i \<in> set rs" "j \<in> set rs" for i j
  proof -
    obtain a where "h' i = (h i)\<lparr>t_amount := a\<rparr>" using assms \<open>i \<in> set rs\<close> by blast
    moreover obtain b where "h' j = (h j)\<lparr>t_amount := b\<rparr>" using assms \<open>j \<in> set rs\<close> by blast
    ultimately show ?thesis by (simp only: compareToFIFO_amount)
  qed
  have ins: "insert_by (\<lambda>i j. compareToFIFO (h' i) (h' j)) x ys = insert_by (\<lambda>i j. compareToFIFO (h i) (h j)) x ys"
    if "x \<in> set rs" "set ys \<subseteq> set rs" for x ys
    using that by (induction ys) (simp_all add: eq)
  have "fold (insert_by (\<lambda>i j. compareToFIFO (h' i) (h' j))) xs ys =
      fold (insert_by (\<lambda>i j. compareToFIFO (h i) (h j))) xs ys" if "set xs \<subseteq> set rs" "set ys \<subseteq> set rs" for xs ys
    using that by (induction xs arbitrary: ys) (simp_all add: ins)
  then show ?thesis by (simp add: sort_fifo_def sort_js_def)
qed

text \<open>The store after the credit notes, and what the loop over the sales finds in it.\<close>

lemma ready_run:
  assumes "ledger_ready A B w fb ts"
    and "\<forall>i \<in> set (open_refs isPurchase ts). h1 i = after_returns ts (ts ! i)"
    and "\<forall>i \<in> set (open_refs isSale ts). h1 i = ts ! i"
  shows "sort_fifo h1 (open_refs isPurchase ts) = fifo_refs isPurchase ts"
    and "sort_fifo h1 (open_refs isSale ts) = fifo_refs isSale ts"
    and "purchases_ready A B w fb h1 (fifo_refs isPurchase ts)"
    and "distinct (map (\<lambda>s. t_id (h1 s)) (fifo_refs isSale ts))"
    and "map (\<lambda>s. t_amount (h1 s)) (fifo_refs isSale ts) =
           map t_amount (sort_key fifo_key (filter (open_tx isSale) ts))"
    and "layers A B w fb h1 (fifo_refs isPurchase ts) =
           map (\<lambda>t. layer_of A B w fb (after_returns ts t)) (sort_key fifo_key (filter (open_tx isPurchase) ts))"
proof -
  show "sort_fifo h1 (open_refs isPurchase ts) = fifo_refs isPurchase ts"
    unfolding fifo_refs_def using assms(2) by (intro sort_fifo_cong) (auto simp: after_returns_def)
  have same: "\<exists>a. t = t\<lparr>t_amount := a\<rparr>" for t :: transaction
    by (rule exI [of _ "t_amount t"]) simp
  show "sort_fifo h1 (open_refs isSale ts) = fifo_refs isSale ts"
    unfolding fifo_refs_def using assms(3) same by (intro sort_fifo_cong) auto
  have p: "h1 i = after_returns ts (ts ! i)" "\<not> t_checked (h1 i)" if "i \<in> set (fifo_refs isPurchase ts)" for i
    using that assms(2) by (auto simp: set_fifo_refs set_open_refs after_returns_def)
  have s: "h1 i = ts ! i" if "i \<in> set (fifo_refs isSale ts)" for i
    using that assms(3) by (simp add: set_fifo_refs set_open_refs)
  have sales: "map (\<lambda>i. f (h1 i)) (fifo_refs isSale ts) = map f (sort_key fifo_key (filter (open_tx isSale) ts))" for f
    using s by (simp add: comp_def flip: map_fifo_refs [OF assms(1)])
  show "purchases_ready A B w fb h1 (fifo_refs isPurchase ts)"
    using assms(1) p(1) by (auto simp: purchases_ready_def set_fifo_refs ledger_ready_def)
  have "distinct (map t_id (sort_key fifo_key (filter (open_tx isSale) ts))) =
      distinct (map t_id (filter (open_tx isSale) ts))"
    by (rule mset_eq_imp_distinct_iff) simp
  then show "distinct (map (\<lambda>s. t_id (h1 s)) (fifo_refs isSale ts))"
    using assms(1) unfolding sales ledger_ready_def by blast
  show "map (\<lambda>s. t_amount (h1 s)) (fifo_refs isSale ts) =
           map t_amount (sort_key fifo_key (filter (open_tx isSale) ts))" by (rule sales)
  have "filter (\<lambda>i. \<not> t_checked (h1 i)) (fifo_refs isPurchase ts) = fifo_refs isPurchase ts"
    using p(2) by (simp add: filter_id_conv)
  then show "layers A B w fb h1 (fifo_refs isPurchase ts) =
      map (\<lambda>t. layer_of A B w fb (after_returns ts t)) (sort_key fifo_key (filter (open_tx isPurchase) ts))"
    using p(1) by (simp add: layers_def comp_def flip: map_fifo_refs [OF assms(1)])
qed

lemma run_books_fifo_costs:
  assumes "amount_laws A" and "account_creation_frame B" and "ledger_ready A B w fb ts"
    and "\<forall>i \<in> set (open_refs isPurchase ts). h1 i = after_returns ts (ts ! i)"
    and "\<forall>i \<in> set (open_refs isSale ts). h1 i = ts ! i"
    and "cp_financialToCreate p1 = map_empty"
    and "sales_loop A B fb ib summary (fifo_refs isPurchase ts) (fifo_refs isSale ts) (h1, p1) w
           = (Inr (Inr (h', p')), w')"
  shows "map t_amount (map_values (cp_financialToCreate p')) = fifo_costs A B w fb ts"
proof -
  note ready = ready_run [OF assms(3-5)]
  obtain rs ls' where i: "issue_all (fifo_issue (unit_cost A)) (map (\<lambda>s. t_amount (h1 s)) (fifo_refs isSale ts))
      (layers A B w fb h1 (fifo_refs isPurchase ts)) = (rs, ls')" by force
  note proc = sales_loop_processed [OF assms(1,2) ready(3) set_fifo_refs(2) ready_disjoint [OF assms(3)] assms(7),
      unfolded i]
  from sales_booked [OF proc assms(6) ready(4)] issue_all_length [OF i]
  have "map t_amount (map_values (cp_financialToCreate p')) = map snd rs" by simp
  moreover have "fifo_costs A B w fb ts = map snd rs"
    using i by (simp only: fifo_costs_def ready(5,6) fst_conv)
  ultimately show ?thesis by simp
qed

text \<open>A call on a well-formed account, up to the result \<open>q\<close> of the loop over the sales.\<close>

lemma ready_calculation:
  assumes "amount_laws A" and "number_laws A" and "account_creation_frame B"
    and "run_of A B ibId gaId d w r"
    and "r_store r = (\<lambda>i. ts ! i)" and "r_collected r = collect A (r_store r) [0..<length ts]"
    and "ledger_ready A B w (r_financialBook r) ts"
  obtains h1 p1 q w1 where
    "credit_note_loop A B w (new_Summary gaId) (co_creditNotes (r_collected r))
       (r_store r, new_CalculateCostOfSalesProcessor (app_getBook B w ibId) (r_financialBook r), co_purchases (r_collected r))
       = Inr (Inr (h1, p1, co_purchases (r_collected r)))"
    and "cp_financialToCreate p1 = map_empty"
    and "\<forall>i \<in> set (open_refs isPurchase ts). h1 i = after_returns ts (ts ! i)"
    and "\<forall>i \<in> set (open_refs isSale ts). h1 i = ts ! i"
    and "sales_loop A B (r_financialBook r) (app_getBook B w ibId) (new_Summary gaId)
           (fifo_refs isPurchase ts) (fifo_refs isSale ts) (h1, p1) w = (Inr q, w1)"
    and "calculate_collected A B (app_getBook B w ibId) (r_financialBook r) (new_GoodAccount (r_account r))
           (new_Summary gaId) (r_store r) (r_collected r) w =
         (case q of Inl s \<Rightarrow> (Inr s, w1)
          | Inr (h, p) \<Rightarrow> (Inr (calculatingAsync (new_Summary gaId)),
              storeLastCalcTxDate B (app_getBook B w ibId) h (new_GoodAccount (r_account r)) (fifo_refs isSale ts)
                (cp_fireBatchOperations B h p w1)))"
    and "fired A B ibId gaId r w = (case q of Inl s \<Rightarrow> None | Inr (h, p) \<Rightarrow> Some (h, p, fifo_refs isSale ts, w1))"
proof -
  let ?ib = "app_getBook B w ibId" and ?fb = "r_financialBook r" and ?h = "\<lambda>i. ts ! i"
  let ?p = "new_CalculateCostOfSalesProcessor ?ib ?fb" and ?c = "collect A (\<lambda>i. ts ! i) [0..<length ts]"
  obtain h1 p1 where loop: "credit_note_loop A B w (new_Summary gaId) (co_creditNotes ?c)
       (?h, ?p, co_purchases ?c) = Inr (Inr (h1, p1, co_purchases ?c))"
    and p1: "cp_financialToCreate p1 = map_empty"
    and h1: "\<forall>i \<in> set (open_refs isPurchase ts). h1 i = after_returns ts (ts ! i)"
      "\<forall>i \<in> set (open_refs isSale ts). h1 i = ts ! i"
    by (rule credit_phase [OF assms(2,7)])
  note ready = ready_run [OF assms(7) h1] and coll = collect_ready [OF assms(7)]
  obtain q w1 where run: "sales_loop A B ?fb ?ib (new_Summary gaId) (fifo_refs isPurchase ts) (fifo_refs isSale ts)
      (h1, p1) w = (Inr q, w1)"
    using sales_loop_refines [OF assms(1,3), of w ?fb "(h1, p1)" "fifo_refs isPurchase ts" "fifo_refs isSale ts"
        ?ib "new_Summary gaId"] ready(3) ready_disjoint [OF assms(7)] set_fifo_refs(2) by auto
  have "calculate_collected A B ?ib ?fb (new_GoodAccount (r_account r)) (new_Summary gaId) ?h ?c w =
      (case q of Inl s \<Rightarrow> (Inr s, w1)
       | Inr (h, p) \<Rightarrow> (Inr (calculatingAsync (new_Summary gaId)),
           storeLastCalcTxDate B ?ib h (new_GoodAccount (r_account r)) (fifo_refs isSale ts)
             (cp_fireBatchOperations B h p w1)))"
    using run by (simp add: calculate_collected_def loop coll(2,4) ready(1,2) Let_def split: sum.splits prod.splits)
  moreover have "fired A B ibId gaId r w = (case q of Inl s \<Rightarrow> None | Inr (h, p) \<Rightarrow> Some (h, p, fifo_refs isSale ts, w1))"
    using run
    by (simp add: fired_def run_result_def assms(5,6) loop coll(2,4) ready(1,2) Let_def split: sum.splits prod.splits)
  ultimately show thesis using that [of h1 p1 q w1] loop p1 h1 run by (simp only: assms(5,6))
qed

lemma lock_free_calculates:
  assumes "amount_laws A" and "number_laws A" and "account_creation_frame B"
    and "run_of A B ibId gaId d w r"
    and "r_store r = (\<lambda>i. ts ! i)" and "r_collected r = collect A (r_store r) [0..<length ts]"
    and "ledger_ready A B w (r_financialBook r) ts" and "locks_stable B" and "no_lock B w"
    and "\<not> js_eq (co_totalSales (r_collected r)) (Num 0)"
    and "\<not> js_less (co_totalPurchased (r_collected r)) (co_totalSales (r_collected r))"
  shows "\<exists>w'. calculateCostOfSalesForAccount A B ibId gaId d w = (Inr (calculatingAsync (new_Summary gaId)), w')"
proof -
  obtain h1 p1 q w1 where
    loop: "credit_note_loop A B w (new_Summary gaId) (co_creditNotes (r_collected r))
       (r_store r, new_CalculateCostOfSalesProcessor (app_getBook B w ibId) (r_financialBook r), co_purchases (r_collected r))
       = Inr (Inr (h1, p1, co_purchases (r_collected r)))"
    and run: "sales_loop A B (r_financialBook r) (app_getBook B w ibId) (new_Summary gaId)
       (fifo_refs isPurchase ts) (fifo_refs isSale ts) (h1, p1) w = (Inr q, w1)"
    and collected: "calculate_collected A B (app_getBook B w ibId) (r_financialBook r) (new_GoodAccount (r_account r))
       (new_Summary gaId) (r_store r) (r_collected r) w =
         (case q of Inl s \<Rightarrow> (Inr s, w1)
          | Inr (h, p) \<Rightarrow> (Inr (calculatingAsync (new_Summary gaId)),
              storeLastCalcTxDate B (app_getBook B w ibId) h (new_GoodAccount (r_account r)) (fifo_refs isSale ts)
                (cp_fireBatchOperations B h p w1)))"
    by (rule ready_calculation [OF assms(1-7)])
  have "q \<noteq> Inl s" for s using lock_free_run [OF assms(8,9) loop] run by (metis fst_conv)
  then show ?thesis
    unfolding calculate_run [OF assms(4)] collected using assms(10,11) by (cases q) auto
qed

text \<open>
  C1. The service computes the FIFO cost of goods sold. For an account whose transactions
  are well-formed and a call that finds its books, the service raises no exception, and
  whenever it answers \<open>Calculated\<close> the batch of cost of sales transactions it sends to the
  financial book has, in order, exactly the amounts that the FIFO specification computes
  from the open purchases, less what the open credit notes return of them, and the open
  sales, both sorted by date, order number and the millisecond within the second of
  creation. When no transaction is locked and there are sales that the purchases cover,
  that is what it answers.
\<close>

theorem calculation_implements_fifo:
  assumes "amount_laws A" and "number_laws A" and "account_creation_frame B"
    and "run_of A B ibId gaId d w r"
    and "r_store r = (\<lambda>i. ts ! i)" and "r_collected r = collect A (r_store r) [0..<length ts]"
    and "ledger_ready A B w (r_financialBook r) ts"
  shows "\<exists>s w'. calculateCostOfSalesForAccount A B ibId gaId d w = (Inr s, w')
     \<and> (s = calculatingAsync (new_Summary gaId) \<longrightarrow>
         (\<exists>h p w1. fired A B ibId gaId r w = Some (h, p, fifo_refs isSale ts, w1)
            \<and> w' = storeLastCalcTxDate B (app_getBook B w ibId) h (new_GoodAccount (r_account r))
                          (fifo_refs isSale ts) (cp_fireBatchOperations B h p w1)
            \<and> map t_amount (map_values (cp_financialToCreate p)) = fifo_costs A B w (r_financialBook r) ts))
     \<and> (locks_stable B \<and> no_lock B w \<and> \<not> js_eq (co_totalSales (r_collected r)) (Num 0)
         \<and> \<not> js_less (co_totalPurchased (r_collected r)) (co_totalSales (r_collected r))
         \<longrightarrow> s = calculatingAsync (new_Summary gaId))"
proof -
  obtain h1 p1 q w1 where p1: "cp_financialToCreate p1 = map_empty"
    and h1: "\<forall>i \<in> set (open_refs isPurchase ts). h1 i = after_returns ts (ts ! i)"
      "\<forall>i \<in> set (open_refs isSale ts). h1 i = ts ! i"
    and run: "sales_loop A B (r_financialBook r) (app_getBook B w ibId) (new_Summary gaId)
       (fifo_refs isPurchase ts) (fifo_refs isSale ts) (h1, p1) w = (Inr q, w1)"
    and collected: "calculate_collected A B (app_getBook B w ibId) (r_financialBook r) (new_GoodAccount (r_account r))
       (new_Summary gaId) (r_store r) (r_collected r) w =
         (case q of Inl s \<Rightarrow> (Inr s, w1)
          | Inr (h, p) \<Rightarrow> (Inr (calculatingAsync (new_Summary gaId)),
              storeLastCalcTxDate B (app_getBook B w ibId) h (new_GoodAccount (r_account r)) (fifo_refs isSale ts)
                (cp_fireBatchOperations B h p w1)))"
    and fired: "fired A B ibId gaId r w = (case q of Inl s \<Rightarrow> None | Inr (h, p) \<Rightarrow> Some (h, p, fifo_refs isSale ts, w1))"
    by (rule ready_calculation [OF assms])
  have lock: "q = Inl (lockError (new_Summary gaId))" if "q = Inl s" for s
    using sales_loop_error run that by metis
  moreover have "map t_amount (map_values (cp_financialToCreate p')) = fifo_costs A B w (r_financialBook r) ts"
    if "q = Inr (h', p')" for h' p'
    using run_books_fifo_costs [OF assms(1,3,7) h1 p1] run that by blast
  moreover have "\<exists>s w'. calculateCostOfSalesForAccount A B ibId gaId d w = (Inr s, w')"
    unfolding calculate_run [OF assms(4)] collected by (cases q) auto
  then obtain s w' where call: "calculateCostOfSalesForAccount A B ibId gaId d w = (Inr s, w')" by blast
  moreover have "s = calculatingAsync (new_Summary gaId) \<longrightarrow> (\<exists>h p. q = Inr (h, p)
      \<and> w' = storeLastCalcTxDate B (app_getBook B w ibId) h (new_GoodAccount (r_account r)) (fifo_refs isSale ts)
               (cp_fireBatchOperations B h p w1))"
    using call lock unfolding calculate_run [OF assms(4)] collected
    by (cases q) (auto simp: summary_defs split: if_splits)
  ultimately show ?thesis
    using lock_free_calculates [OF assms] fired by (intro exI [of _ s] exI [of _ w']) fastforce
qed

text \<open>Ten and five bought, two of the ten returned, nine sold.\<close>

definition return_ledger :: "transaction list" where
  "return_ledger =
     [demo_purchase ''p1'' 20240105 10 100, demo_purchase ''p2'' 20240110 5 60,
      demo_tx ''c1'' 20240106 2 widget buy_account [CREDIT_NOTE_PROP \<mapsto> ''cn'', PURCHASE_CODE_PROP \<mapsto> ''p1''],
      demo_sale ''s1'' 20240115 9]"

lemma return_kinds:
  "filter (open_tx isSale) return_ledger = [return_ledger ! 3]"
  "filter (open_tx isPurchase) return_ledger = [return_ledger ! 0, return_ledger ! 1]"
  "filter (open_tx isCreditNote) return_ledger = [return_ledger ! 2]"
  by (simp_all add: return_ledger_def isSale_def isPurchase_def isCreditNote_def)
    (simp_all add: demo_tx_defs demo_defs)

lemma return_after:
  "after_returns return_ledger (return_ledger ! 0) = (demo_purchase ''p1'' 20240105 10 100)\<lparr>t_amount := 8\<rparr>"
  "after_returns return_ledger (return_ledger ! 1) = demo_purchase ''p2'' 20240110 5 60"
  by (simp_all add: after_returns_def returned_def return_kinds) (simp_all add: return_ledger_def demo_tx_defs)

text \<open>The amount of a purchase is not among the things its cost is read from.\<close>

lemma purchase_costs_amount: "purchase_costs B w fb (t\<lparr>t_amount := a\<rparr>) = purchase_costs B w fb t"
  by (simp add: purchase_costs_def getAdditionalCostsAndCreditNotes_def)

lemma purchase_ready_amount:
  "purchase_ready A B w fb t \<Longrightarrow> 0 < a \<Longrightarrow> purchase_ready A B w fb (t\<lparr>t_amount := a\<rparr>)"
  by (simp add: purchase_ready_def purchase_costs_amount)

lemma layer_of_amount: "layer_of A B w fb (t\<lparr>t_amount := a\<rparr>) = (a, layer_cost A B w fb t)"
  by (simp add: layer_of_def layer_cost_def purchase_costs_amount)

lemma return_layers:
  "purchase_ready decimal_lib demo_app (account_of return_ledger) financial_book
     ((demo_purchase ''p1'' 20240105 10 100)\<lparr>t_amount := 8\<rparr>)"
  "purchase_ready decimal_lib demo_app (account_of return_ledger) financial_book (demo_purchase ''p2'' 20240110 5 60)"
  "layer_of decimal_lib demo_app (account_of return_ledger) financial_book
     ((demo_purchase ''p1'' 20240105 10 100)\<lparr>t_amount := 8\<rparr>) = (8, 100)"
  "layer_of decimal_lib demo_app (account_of return_ledger) financial_book (demo_purchase ''p2'' 20240110 5 60) = (5, 60)"
proof -
  note ready = demo_purchase_ready_in [OF _ account_of_def, of _ return_ledger, simplified]
  show "purchase_ready decimal_lib demo_app (account_of return_ledger) financial_book
     ((demo_purchase ''p1'' 20240105 10 100)\<lparr>t_amount := 8\<rparr>)" by (intro purchase_ready_amount ready) simp_all
  show "purchase_ready decimal_lib demo_app (account_of return_ledger) financial_book (demo_purchase ''p2'' 20240110 5 60)"
    by (rule ready) simp
  show "layer_of decimal_lib demo_app (account_of return_ledger) financial_book
     ((demo_purchase ''p1'' 20240105 10 100)\<lparr>t_amount := 8\<rparr>) = (8, 100)"
    by (simp only: layer_of_amount) (simp add: ready)
  show "layer_of decimal_lib demo_app (account_of return_ledger) financial_book (demo_purchase ''p2'' 20240110 5 60) = (5, 60)"
    by (simp add: layer_of_def ready) (simp add: demo_tx_defs)
qed

lemma return_ledger_ready:
  "ledger_ready decimal_lib demo_app (account_of return_ledger) financial_book return_ledger"
proof -
  let ?ok = "\<lambda>t. fifo_ok t \<and> \<not> (isSale t \<and> isPurchase t) \<and> \<not> (open_tx isCreditNote t \<and> (isSale t \<or> isPurchase t))"
  have ts: "return_ledger = [return_ledger ! 0, return_ledger ! 1, return_ledger ! 2, return_ledger ! 3]"
    by (simp add: return_ledger_def)
  have "?ok (return_ledger ! i)" if "i \<in> {0, 1, 2, 3}" for i
    using that by (auto simp: return_ledger_def demo_tx_defs isSale_def isPurchase_def isCreditNote_def fifo_ok_def
        order_int_def order_value_def demo_defs)
  then have "\<forall>t \<in> set return_ledger. ?ok t" by (subst ts) (simp del: One_nat_def)
  moreover have "\<forall>t \<in> set (filter (open_tx isPurchase) return_ledger).
      purchase_ready decimal_lib demo_app (account_of return_ledger) financial_book (after_returns return_ledger t)"
    unfolding return_kinds using return_layers(1,2) by (simp add: return_after del: One_nat_def)
  then have "\<forall>t \<in> set return_ledger. open_tx isPurchase t \<longrightarrow>
      purchase_ready decimal_lib demo_app (account_of return_ledger) financial_book (after_returns return_ledger t)"
    by simp
  moreover have "whole t \<and> quantity t < 2 ^ 53" if "t \<in> set return_ledger" for t
    using that by (auto simp: return_ledger_def demo_tx_defs whole_def quantity_def)
  moreover have "distinct (map code_of (filter (open_tx isPurchase) return_ledger))"
    unfolding return_kinds by (simp add: return_ledger_def demo_tx_defs)
  ultimately show ?thesis
    unfolding ledger_ready_def return_kinds by simp
qed

lemma return_ledger_costs:
  "fifo_costs decimal_lib demo_app (account_of return_ledger) financial_book return_ledger = [112]"
proof -
  have "sort_key fifo_key [return_ledger ! 0, return_ledger ! 1] = [return_ledger ! 0, return_ledger ! 1]"
    by (simp add: return_ledger_def fifo_key_def demo_tx_defs)
  moreover have "t_amount (return_ledger ! 3) = 9" by (simp add: return_ledger_def demo_tx_defs)
  ultimately show ?thesis
    unfolding fifo_costs_def return_kinds
    by (simp add: return_after return_layers demo_unit_cost del: One_nat_def)
qed

lemma return_collected:
  "r_collected (account_run return_ledger) = collect decimal_lib (\<lambda>i. return_ledger ! i) [0..<length return_ledger]"
  "co_totalSales (r_collected (account_run return_ledger)) = Num 9"
  "co_totalPurchased (r_collected (account_run return_ledger)) = Num 13"
  by (simp_all add: account_run_def)
    (simp_all add: return_ledger_def collect_def collect_one_def upt_rec demo_tx_defs isSale_def isPurchase_def
      isCreditNote_def rnd64_numeral demo_defs map_set_def map_empty_def Let_def js_sub_def)

lemma return_run:
  "r_account (account_run return_ledger) = widget" "r_financialBook (account_run return_ledger) = financial_book"
  "r_store (account_run return_ledger) = (\<lambda>i. return_ledger ! i)"
  by (simp_all add: account_run_def)

lemma return_calculates:
  "\<exists>w'. calculateCostOfSalesForAccount decimal_lib demo_app ''inv'' ''w'' None (account_of return_ledger)
     = (Inr (calculatingAsync (new_Summary ''w'')), w')"
  using lock_free_calculates [OF decimal_lib_laws decimal_lib_numbers demo_account_creation_frame
      account_run_of, of return_ledger return_ledger, unfolded return_run, OF refl return_collected(1) return_ledger_ready
      demo_locks_stable]
  by (auto simp: return_collected(2,3) js_eq_def no_lock_def demo_app_def account_of_def demo_world_def)

theorem calculation_implements_fifo_witness:
  "\<exists>w' h p w1. calculateCostOfSalesForAccount decimal_lib demo_app ''inv'' ''w'' None (account_of return_ledger)
       = (Inr (calculatingAsync (new_Summary ''w'')), w')
     \<and> fired decimal_lib demo_app ''inv'' ''w'' (account_run return_ledger) (account_of return_ledger)
         = Some (h, p, fifo_refs isSale return_ledger, w1)
     \<and> w' = storeLastCalcTxDate demo_app inventory_book h (new_GoodAccount widget)
              (fifo_refs isSale return_ledger) (cp_fireBatchOperations demo_app h p w1)
     \<and> map t_amount (map_values (cp_financialToCreate p)) = [112]"
proof -
  let ?w = "account_of return_ledger"
  have b: "app_getBook demo_app ?w ''inv'' = inventory_book" by (simp add: demo_app_def)
  have free: "no_lock demo_app ?w" by (simp add: no_lock_def demo_app_def account_of_def demo_world_def)
  show ?thesis
    using calculation_implements_fifo [OF decimal_lib_laws decimal_lib_numbers demo_account_creation_frame
        account_run_of, of return_ledger return_ledger, unfolded return_run b, OF refl return_collected(1)]
      return_ledger_ready return_ledger_costs demo_locks_stable free
    by (simp add: return_collected(2,3) js_eq_def del: fun_upd_apply)
qed

end
