(* ===== verification/ResetProperties.thy ===== *)
theory ResetProperties
  imports ResetService CalculateEndToEnd
begin

text \<open>
  The reset service: what it makes of each transaction, that it undoes a calculation, and
  that it writes nothing when a transaction is locked.
\<close>

section \<open>What a reset makes of one transaction\<close>

text \<open>
  The abstract effect on the object: it is unchecked; a sale of the bot loses its cost and
  its log; a root purchase of the bot goes back to the quantity and the cost recorded when
  it was made.
\<close>

definition reset_value :: "amount_lib \<Rightarrow> transaction \<Rightarrow> transaction result" where
  "reset_value A t =
     (if t_agentId t \<noteq> Some AGENT_ID then Inr (t\<lparr>t_checked := False\<rparr>)
      else if truthy (t_prop t PURCHASE_LOG_PROP)
      then Inr (t\<lparr>t_checked := False,
                  t_properties := (t_properties t)(PURCHASE_LOG_PROP := None, TOTAL_COST_PROP := None)\<rparr>)
      else if truthy (t_prop t ORIGINAL_QUANTITY_PROP)
      then (case (am_new A (t_prop t GOOD_PURCHASE_COST_PROP), am_new A (t_prop t ORIGINAL_QUANTITY_PROP)) of
              (Some cost, Some originalQuantity) \<Rightarrow>
                Inr (t\<lparr>t_checked := False, t_amount := originalQuantity,
                       t_properties := (t_properties t)
                         (TOTAL_COST_PROP := Some (am_toString A cost), LIQUIDATION_LOG_PROP := None,
                          ADD_COSTS_PROP := None, CREDIT_NOTE_PROP := None)\<rparr>)
            | _ \<Rightarrow> Inl LibraryError)
      else Inr (t\<lparr>t_checked := False\<rparr>))"

lemma unchecked_same [simp]: "\<not> t_checked t \<Longrightarrow> t\<lparr>t_checked := False\<rparr> = t"
  by (cases t) simp

lemma reset_sale_store:
  "rs_store (reset_sale B w fb r st) =
     (rs_store st)(r := set_prop TOTAL_COST_PROP None (set_prop PURCHASE_LOG_PROP None (rs_store st r)))"
  by (simp add: reset_sale_def Let_def)

text \<open>The transaction is unchecked first; what follows depends on its properties, which that keeps.\<close>

definition after_uncheck :: "ref \<Rightarrow> reset_state \<Rightarrow> reset_state" where
  "after_uncheck r st = st\<lparr>rs_store := (rs_store st)(r := (rs_store st r)\<lparr>t_checked := False\<rparr>)\<rparr>"

lemma after_uncheck_state [simp]:
  "rs_store (after_uncheck r st) = (rs_store st)(r := (rs_store st r)\<lparr>t_checked := False\<rparr>)"
  "rs_processor (after_uncheck r st) = rs_processor st"
  by (simp_all add: after_uncheck_def)

lemma reset_transaction_eq:
  "reset_transaction A B w fb r st =
     (if t_agentId (rs_store st r) = Some AGENT_ID then
        (if truthy (t_prop (rs_store st r) PURCHASE_LOG_PROP) then Inr (reset_sale B w fb r (after_uncheck r st))
         else reset_purchase A B w r (after_uncheck r st))
      else Inr (after_uncheck r st))"
  by (auto simp: reset_transaction_def after_uncheck_def Let_def)

lemma reset_transaction_store:
  assumes "reset_value A (rs_store st r) = Inr v"
  shows "\<exists>st'. reset_transaction A B w fb r st = Inr st' \<and> rs_store st' = (rs_store st)(r := v)"
  using assms
  by (auto simp: reset_transaction_eq reset_value_def reset_sale_store reset_purchase_def reset_root_purchase_def
      set_prop_def Let_def split: if_splits option.splits)

lemma reset_loop_store:
  assumes "distinct rs" and "\<forall>r \<in> set rs. reset_value A (rs_store st r) = Inr (v r)"
  shows "\<exists>st'. forR (reset_transaction A B w fb) rs st = Inr st'
     \<and> rs_store st' = (\<lambda>i. if i \<in> set rs then v i else rs_store st i)"
  using assms
proof (induction rs arbitrary: st)
  case Nil
  then show ?case by auto
next
  case (Cons r rs)
  then obtain st1 where st1: "reset_transaction A B w fb r st = Inr st1" "rs_store st1 = (rs_store st)(r := v r)"
    using reset_transaction_store [of A st r "v r" B w fb] by auto
  from Cons.prems have "\<forall>i \<in> set rs. reset_value A (rs_store st1 i) = Inr (v i)"
    by (auto simp: st1(2))
  with Cons obtain st' where "forR (reset_transaction A B w fb) rs st1 = Inr st'"
    "rs_store st' = (\<lambda>i. if i \<in> set rs then v i else rs_store st1 i)"
    by (metis distinct.simps(2))
  with st1 Cons.prems(1) show ?case by (auto simp: fun_eq_iff)
qed

lemma reset_collect_values:
  assumes "\<forall>i < length ts. reset_value A (ts ! i) = Inr (v i)"
  shows "\<exists>st. reset_collect A B w ib fb ts = Inr st \<and> (\<forall>i < length ts. rs_store st i = v i)"
  using reset_loop_store [of "[0..<length ts]" A "\<lparr>rs_store = (\<lambda>i. ts ! i),
      rs_processor = new_ResetCostOfSalesProcessor ib fb\<rparr>" v B w fb] assms
  by (auto simp: reset_collect_def)

section \<open>Reset undoes a calculation\<close>

text \<open>
  A transaction as the bot wrote it: an open root purchase whose quantity and cost are
  the recorded originals, or an open sale without cost and log.
\<close>

definition fresh_purchase :: "amount_lib \<Rightarrow> transaction \<Rightarrow> bool" where
  "fresh_purchase A t =
     (t_agentId t = Some AGENT_ID \<and> \<not> t_checked t
      \<and> \<not> truthy (t_prop t PURCHASE_LOG_PROP) \<and> truthy (t_prop t ORIGINAL_QUANTITY_PROP)
      \<and> am_new A (t_prop t ORIGINAL_QUANTITY_PROP) = Some (t_amount t)
      \<and> (case am_new A (t_prop t GOOD_PURCHASE_COST_PROP) of
           Some c \<Rightarrow> t_prop t TOTAL_COST_PROP = Some (am_toString A c) | None \<Rightarrow> False)
      \<and> t_prop t LIQUIDATION_LOG_PROP = None \<and> t_prop t ADD_COSTS_PROP = None
      \<and> t_prop t CREDIT_NOTE_PROP = None)"

definition fresh_sale :: "transaction \<Rightarrow> bool" where
  "fresh_sale t =
     (t_agentId t = Some AGENT_ID \<and> \<not> t_checked t \<and> t_prop t PURCHASE_LOG_PROP = None
      \<and> t_prop t TOTAL_COST_PROP = None \<and> \<not> truthy (t_prop t ORIGINAL_QUANTITY_PROP))"

text \<open>
  What a calculation may change of them: quantity, check mark and the properties a reset
  rewrites.
\<close>

definition worked_purchase :: "transaction \<Rightarrow> transaction \<Rightarrow> bool" where
  "worked_purchase t t' =
     (t'\<lparr>t_amount := t_amount t, t_checked := t_checked t, t_properties := t_properties t\<rparr> = t
      \<and> (\<forall>k. k \<notin> {TOTAL_COST_PROP, LIQUIDATION_LOG_PROP, ADD_COSTS_PROP, CREDIT_NOTE_PROP}
           \<longrightarrow> t_prop t' k = t_prop t k))"

definition worked_sale :: "transaction \<Rightarrow> transaction \<Rightarrow> bool" where
  "worked_sale t t' =
     (t' = t \<or> (\<exists>log total. truthy (Some log) \<and>
        t' = t\<lparr>t_properties := (t_properties t)(TOTAL_COST_PROP := total, PURCHASE_LOG_PROP := Some log),
               t_checked := True\<rparr>))"

lemma reset_worked_purchase:
  assumes "fresh_purchase A t" and "worked_purchase t t'"
  shows "reset_value A t' = Inr t"
proof -
  obtain c where c: "am_new A (t_prop t GOOD_PURCHASE_COST_PROP) = Some c"
    "t_prop t TOTAL_COST_PROP = Some (am_toString A c)"
    using assms(1) by (auto simp: fresh_purchase_def split: option.splits)
  have props: "(t_properties t')(TOTAL_COST_PROP := Some (am_toString A c), LIQUIDATION_LOG_PROP := None,
      ADD_COSTS_PROP := None, CREDIT_NOTE_PROP := None) = t_properties t"
    using assms c(2) by (auto simp: fresh_purchase_def worked_purchase_def fun_eq_iff)
  have "t_agentId t' = t_agentId t"
    using assms(2) by (cases t; cases t') (simp add: worked_purchase_def)
  with assms c have "reset_value A t' = Inr (t'\<lparr>t_checked := False, t_amount := t_amount t,
      t_properties := t_properties t\<rparr>)"
    by (simp add: reset_value_def fresh_purchase_def worked_purchase_def props [simplified])
  also have "\<dots> = Inr (t'\<lparr>t_amount := t_amount t, t_checked := t_checked t, t_properties := t_properties t\<rparr>)"
    using assms(1) by (simp add: fresh_purchase_def)
  finally show ?thesis using assms(2) by (simp add: worked_purchase_def)
qed

lemma reset_worked_sale:
  assumes "fresh_sale t" and "worked_sale t t'"
  shows "reset_value A t' = Inr t"
proof -
  have "(t_properties t)(PURCHASE_LOG_PROP := None, TOTAL_COST_PROP := None) = t_properties t"
    using assms(1) by (auto simp: fresh_sale_def)
  with assms show ?thesis
    by (cases t) (auto simp: fresh_sale_def worked_sale_def reset_value_def fun_upd_twist)
qed

lemma worked_purchase_refl: "worked_purchase t t"
  by (simp add: worked_purchase_def)

lemma worked_purchase_trans:
  "worked_purchase t u \<Longrightarrow> worked_purchase u v \<Longrightarrow> worked_purchase t v"
  by (cases t; cases u; cases v) (simp add: worked_purchase_def)

lemma worked_purchase_liquidated: "worked_purchase t (liquidated_purchase A sale pinfo t)"
  by (cases t) (simp add: worked_purchase_def liquidated_purchase_def set_prop_def)

lemma worked_purchase_remaining: "worked_purchase t (remaining_purchase A q c pinfo t)"
  by (cases t) (simp add: worked_purchase_def remaining_purchase_def set_prop_def Let_def)

lemma process_purchase_worked:
  assumes "process_purchase A B w fb s r st = Inr st'"
  shows "worked_purchase (ss_store st r) (ss_store st' r)"
  using assms
  by (auto simp: process_purchase_def split_purchase_def Let_def worked_purchase_liquidated
      worked_purchase_remaining split: if_splits prod.splits)

lemma purchase_loop_worked:
  assumes "purchase_loop A B w fb s rs st = Inr st'"
  shows "(\<forall>i. worked_purchase (ss_store st i) (ss_store st' i))
     \<and> (\<forall>i. i \<notin> set rs \<longrightarrow> ss_store st' i = ss_store st i)"
  using assms
proof (induction rs arbitrary: st)
  case Nil
  then show ?case by (simp add: worked_purchase_refl)
next
  case (Cons r rs)
  show ?case
  proof (cases "t_checked (ss_store st r)")
    case True
    with Cons show ?thesis by auto
  next
    case False
    with Cons.prems obtain st1 where step: "process_purchase A B w fb s r st = Inr st1"
      and rest: "st1 = st' \<or> purchase_loop A B w fb s rs st1 = Inr st'"
      by (auto split: if_splits)
    have one: "worked_purchase (ss_store st i) (ss_store st1 i)" for i
      using process_purchase_worked [OF step] process_purchase_frame(1) [OF step]
      by (cases "i = r") (auto simp: worked_purchase_refl)
    from rest show ?thesis
    proof
      assume "st1 = st'"
      with one process_purchase_frame(1) [OF step] show ?thesis by auto
    next
      assume "purchase_loop A B w fb s rs st1 = Inr st'"
      from Cons.IH [OF this] one process_purchase_frame(1) [OF step] show ?thesis
        by (auto intro: worked_purchase_trans [OF one])
    qed
  qed
qed

lemma settle_sale_worked:
  "worked_sale (ss_store st s) (ss_store (settle_sale A B w ib s st) s)"
proof (cases "am_round A (soldQuantity st) (b_fractionDigits ib) = 0 \<and> purchaseLogEntries st \<noteq> []")
  case True
  have "truthy (Some (json_purchase_log_entries (purchaseLogEntries st)))"
    by (simp add: json_purchase_log_entries_def json_array_def)
  with True show ?thesis
    by (auto simp: settle_sale_def worked_sale_def set_prop_def Let_def)
next
  case False
  then show ?thesis by (auto simp: settle_sale_def worked_sale_def Let_def)
qed

lemma processSale_worked:
  assumes "processSale A B fb ib s purchases (h, p) w = (Inr (h', p'), w')" and "s \<notin> set purchases"
  shows "worked_sale (h s) (h' s) \<and> (\<forall>i. i \<noteq> s \<longrightarrow> worked_purchase (h i) (h' i))
     \<and> (\<forall>i. i \<notin> set purchases \<and> i \<noteq> s \<longrightarrow> h' i = h i)"
proof -
  from assms(1) obtain st where loop: "purchase_loop A B w fb s purchases (start_sale s (h, p)) = Inr st"
    and h': "h' = ss_store (settle_sale A B w ib s st)"
    by (auto simp: processSale_def start_sale_def Let_def split: sum.splits prod.splits)
  from purchase_loop_worked [OF loop] assms(2) show ?thesis
    using settle_sale_worked [of st s A B w ib] by (simp add: h')
qed

lemma sales_loop_worked:
  assumes "sales_loop A B fb ib summary purchases sales (h, p) w = (Inr (Inr (h', p')), w')"
    and "distinct sales" and "set sales \<inter> set purchases = {}"
  shows "(\<forall>i \<in> set sales. worked_sale (h i) (h' i))
     \<and> (\<forall>i \<in> set purchases. worked_purchase (h i) (h' i))
     \<and> (\<forall>i. i \<notin> set purchases \<and> i \<notin> set sales \<longrightarrow> h' i = h i)"
  using assms
proof (induction sales arbitrary: h p w)
  case Nil
  then show ?case by (simp add: worked_purchase_refl)
next
  case (Cons s sales)
  from Cons.prems(1) obtain h1 p1 w1 where
    run: "processSale A B fb ib s purchases (h, p) w = (Inr (h1, p1), w1)"
    and rest: "sales_loop A B fb ib summary purchases sales (h1, p1) w1 = (Inr (Inr (h', p')), w')"
    by (auto split: prod.splits sum.splits if_splits)
  have s: "s \<notin> set purchases" "s \<notin> set sales" "distinct sales" "set sales \<inter> set purchases = {}"
    using Cons.prems(2,3) by auto
  note one = processSale_worked [OF run s(1)] and ih = Cons.IH [OF rest s(3,4)]
  have "h' s = h1 s" using ih s by blast
  moreover have "worked_sale (h i) (h' i)" if "i \<in> set sales" for i
    using that one ih s by (metis disjoint_iff)
  moreover have "worked_purchase (h i) (h' i)" if "i \<in> set purchases" for i
    using that one ih s by (metis worked_purchase_trans)
  ultimately show ?case using one ih by auto
qed

text \<open>
  Reset undoes a calculation. Take the transactions of an account as the bot wrote
  them (open purchases with their recorded originals, open sales), process the sales in
  FIFO order to the end, and reset the result: the reset raises no exception and gives
  back every transaction exactly as it was, quantity, cost, check mark and all
  properties.
\<close>

lemma reset_undoes_calculation:
  assumes "\<forall>t \<in> set ts. \<not> (isSale t \<and> isPurchase t)"
    and "\<forall>t \<in> set ts. isPurchase t \<and> fresh_purchase A t \<or> isSale t \<and> fresh_sale t"
    and "sales_loop A B fb ib summary (fifo_refs isPurchase ts) (fifo_refs isSale ts)
           (\<lambda>i. ts ! i, new_CalculateCostOfSalesProcessor ib fb) w = (Inr (Inr (h', p')), w')"
  shows "\<exists>st. reset_collect A B w2 ib fb (map h' [0..<length ts]) = Inr st
     \<and> map (rs_store st) [0..<length ts] = ts"
proof -
  from sales_loop_worked [OF assms(3) set_fifo_refs(2) refs_disjoint [OF assms(1)]]
  have worked: "\<forall>i \<in> set (fifo_refs isSale ts). worked_sale (ts ! i) (h' i)"
    "\<forall>i \<in> set (fifo_refs isPurchase ts). worked_purchase (ts ! i) (h' i)" by auto
  have "reset_value A (h' i) = Inr (ts ! i)" if i: "i < length ts" for i
  proof (cases "isPurchase (ts ! i) \<and> fresh_purchase A (ts ! i)")
    case True
    with i worked(2) have "worked_purchase (ts ! i) (h' i)"
      by (auto simp: set_fifo_refs fresh_purchase_def)
    with True show ?thesis by (blast intro: reset_worked_purchase)
  next
    case False
    with i assms(2) have s: "isSale (ts ! i) \<and> fresh_sale (ts ! i)" by (metis nth_mem)
    with i worked(1) have "worked_sale (ts ! i) (h' i)"
      by (auto simp: set_fifo_refs fresh_sale_def)
    with s show ?thesis by (blast intro: reset_worked_sale)
  qed
  then have "\<forall>i < length (map h' [0..<length ts]). reset_value A (map h' [0..<length ts] ! i) = Inr (ts ! i)"
    by simp
  from reset_collect_values [OF this, of B w2 ib fb] obtain st where
    st: "reset_collect A B w2 ib fb (map h' [0..<length ts]) = Inr st" "\<forall>i < length ts. rs_store st i = ts ! i"
    by auto
  from st(2) have "map (rs_store st) [0..<length ts] = ts" by (intro nth_equalityI) simp_all
  with st(1) show ?thesis by blast
qed

lemma demo_fresh:
  "\<forall>t \<in> set demo_transactions. isPurchase t \<and> fresh_purchase decimal_lib t \<or> isSale t \<and> fresh_sale t"
proof -
  have t: "truthy (Some (show_amount q))" for q by (simp add: truthy_def show_amount_def)
  have n: "am_new decimal_lib (Some (show_amount x)) = Some x" "am_toString decimal_lib x = show_amount x" for x
    by (simp_all add: decimal_lib_def)
  have "fresh_purchase decimal_lib (demo_purchase i d q c)" for i d q c
    by (simp add: fresh_purchase_def demo_tx_defs t n)
  moreover have "fresh_sale (demo_sale i d q)" for i d q
    by (simp add: fresh_sale_def demo_tx_defs)
  moreover have "isPurchase (demo_purchase i d q c)" "isSale (demo_sale i d q)" for i d q c
    by (simp_all add: isPurchase_def isSale_def demo_tx_defs demo_defs)
  ultimately show ?thesis by (simp add: demo_transactions_def)
qed

lemma demo_refs: "fifo_refs isPurchase demo_transactions = [0, 1]" "fifo_refs isSale demo_transactions = [2]"
proof -
  have "open_refs isPurchase demo_transactions = [0, 1]" "open_refs isSale demo_transactions = [2]"
    by (simp_all add: open_refs_def upt_rec demo_transactions_def isSale_def isPurchase_def)
      (simp_all add: demo_tx_defs demo_defs)
  then show "fifo_refs isPurchase demo_transactions = [0, 1]" "fifo_refs isSale demo_transactions = [2]"
    by (simp_all only: fifo_refs_def demo_sort)
qed

lemma reset_undoes_calculation_witness:
  "\<exists>h' p' w'. sales_loop decimal_lib demo_app financial_book inventory_book (new_Summary ''w'') [0, 1] [2]
       (demo_store, demo_processor) demo_world = (Inr (Inr (h', p')), w')
     \<and> (\<exists>st. reset_collect decimal_lib demo_app w' inventory_book financial_book (map h' [0..<3]) = Inr st
          \<and> map (rs_store st) [0..<3] = demo_transactions)"
proof -
  obtain h' p' w' where run: "sales_loop decimal_lib demo_app financial_book inventory_book (new_Summary ''w'')
      [0, 1] [2] (demo_store, demo_processor) demo_world = (Inr (Inr (h', p')), w')"
    by (rule demo_run)
  have len: "length demo_transactions = 3" by (simp add: demo_transactions_def)
  have "\<forall>t \<in> set demo_transactions. \<not> (isSale t \<and> isPurchase t)"
    by (simp add: isSale_def isPurchase_def demo_tx_defs demo_defs)
  from reset_undoes_calculation [OF this demo_fresh run [folded demo_refs], of w', unfolded len] run
  show ?thesis by (intro exI [of _ h'] exI [of _ p'] exI [of _ w']) (rule conjI)
qed

section \<open>Locks\<close>

definition reset_unlocked :: "'w bkper_app \<Rightarrow> 'w \<Rightarrow> store \<Rightarrow> reset_processor \<Rightarrow> bool" where
  "reset_unlocked B w h p =
     ((\<forall>t \<in> set (map_values (rp_financialToTrash p)). \<not> app_isLocked B w (rp_financialBook p) t)
      \<and> (\<forall>r \<in> set (map_values (rp_inventoryToUpdate p)). \<not> app_isLocked B w (rp_inventoryBook p) (h r))
      \<and> (\<forall>r \<in> set (map_values (rp_inventoryToTrash p)). \<not> app_isLocked B w (rp_inventoryBook p) (h r)))"

definition reset_lock_noted :: "'w bkper_app \<Rightarrow> 'w \<Rightarrow> store \<Rightarrow> reset_processor \<Rightarrow> bool" where
  "reset_lock_noted B w h p = (rp_isAnyTransactionLocked p \<or> reset_unlocked B w h p)"

lemma reset_lock_noted_new: "reset_lock_noted B w h (new_ResetCostOfSalesProcessor ib fb)"
  by (simp add: reset_lock_noted_def reset_unlocked_def new_ResetCostOfSalesProcessor_def js.values_empty)

lemma reset_lock_noted_intros:
  "reset_lock_noted B w h p \<Longrightarrow> reset_lock_noted B w h (rp_setFinancialBookTransactionToTrash B w t p)"
  "reset_lock_noted B w h p \<Longrightarrow> reset_lock_noted B w h (rp_setInventoryBookTransactionToUpdate B w h r p)"
  "reset_lock_noted B w h p \<Longrightarrow> reset_lock_noted B w h (rp_setInventoryBookTransactionToTrash B w h r p)"
  by (auto simp: reset_lock_noted_def reset_unlocked_def processor_defs dest!: values_map_setD)

lemma reset_lock_noted_store:
  assumes "locks_stable B" and "reset_lock_noted B w h p" and "\<And>r. t_date (h' r) = t_date (h r)"
  shows "reset_lock_noted B w h' p"
  using assms(2) locks_stable_date [OF assms(1) assms(3)] by (simp add: reset_lock_noted_def reset_unlocked_def)

lemma reset_lock_noted_sale:
  assumes "locks_stable B" and "reset_lock_noted B w (rs_store st) (rs_processor st)"
  shows "reset_lock_noted B w (rs_store (reset_sale B w fb r st)) (rs_processor (reset_sale B w fb r st))"
proof -
  have "reset_lock_noted B w ((rs_store st)(r := set_prop TOTAL_COST_PROP None
      (set_prop PURCHASE_LOG_PROP None (rs_store st r)))) (rs_processor st)"
    by (rule reset_lock_noted_store [OF assms]) simp
  then show ?thesis
    by (auto simp: reset_sale_def Let_def intro!: reset_lock_noted_intros split: list.splits)
qed

lemma reset_lock_noted_root:
  assumes "locks_stable B" and "reset_lock_noted B w (rs_store st) (rs_processor st)"
    and "reset_root_purchase A B w r st = Inr st'"
  shows "reset_lock_noted B w (rs_store st') (rs_processor st')"
  using assms(3)
  by (auto simp: reset_root_purchase_def Let_def
      intro!: reset_lock_noted_intros reset_lock_noted_store [OF assms(1,2)])

lemma reset_lock_noted_purchase:
  assumes "locks_stable B" and "reset_lock_noted B w (rs_store st) (rs_processor st)"
    and "reset_purchase A B w r st = Inr st'"
  shows "reset_lock_noted B w (rs_store st') (rs_processor st')"
proof -
  let ?st1 = "if truthy (t_prop (rs_store st r) PARENT_ID)
    then st\<lparr>rs_processor := rp_setInventoryBookTransactionToTrash B w (rs_store st) r (rs_processor st)\<rparr> else st"
  have one: "reset_lock_noted B w (rs_store ?st1) (rs_processor ?st1)"
    using assms(2) by (auto intro: reset_lock_noted_intros)
  from assms(3) obtain st2 where st2: "(if truthy (t_prop (rs_store ?st1 r) ORIGINAL_QUANTITY_PROP)
      then reset_root_purchase A B w r ?st1 else Inr ?st1) = Inr st2"
    and st': "st' = (if truthy (t_prop (rs_store st2 r) CREDIT_NOTE_PROP)
      then st2\<lparr>rs_processor := rp_setInventoryBookTransactionToUpdate B w (rs_store st2) r (rs_processor st2)\<rparr>
      else st2)"
    unfolding reset_purchase_def Let_def by (auto split: if_splits)
  have "reset_lock_noted B w (rs_store st2) (rs_processor st2)"
    using st2 one reset_lock_noted_root [OF assms(1) one] by (auto split: if_splits)
  with st' show ?thesis by (auto intro: reset_lock_noted_intros)
qed

lemma reset_lock_noted_transaction:
  assumes "locks_stable B" and "reset_lock_noted B w (rs_store st) (rs_processor st)"
    and "reset_transaction A B w fb r st = Inr st'"
  shows "reset_lock_noted B w (rs_store st') (rs_processor st')"
proof -
  have one: "reset_lock_noted B w (rs_store (after_uncheck r st)) (rs_processor (after_uncheck r st))"
    unfolding after_uncheck_state by (rule reset_lock_noted_store [OF assms(1,2)]) simp
  show ?thesis
    using assms(3) one reset_lock_noted_sale [OF assms(1) one, of fb r] reset_lock_noted_purchase [OF assms(1) one]
    unfolding reset_transaction_eq by (auto split: if_splits)
qed

lemma reset_collect_lock_noted:
  assumes "locks_stable B" and "reset_collect A B w ib fb ts = Inr st"
  shows "reset_lock_noted B w (rs_store st) (rs_processor st)"
proof (rule forR_invariant [OF assms(2) [unfolded reset_collect_def]])
  show "reset_lock_noted B w (rs_store \<lparr>rs_store = (\<lambda>i. ts ! i),
      rs_processor = new_ResetCostOfSalesProcessor ib fb\<rparr>) (rs_processor \<lparr>rs_store = (\<lambda>i. ts ! i),
      rs_processor = new_ResetCostOfSalesProcessor ib fb\<rparr>)"
    by (simp add: reset_lock_noted_new)
  show "reset_lock_noted B w (rs_store s') (rs_processor s')"
    if "reset_lock_noted B w (rs_store s) (rs_processor s)" and "reset_transaction A B w fb r s = Inr s'" for r s s'
    using that by (rule reset_lock_noted_transaction [OF assms(1)])
qed

text \<open>
  C12. A reset is all or nothing and respects locks. A call either leaves the platform
  exactly as it was (no financial book, a locked transaction, an exception) or it answers
  \<open>Reseted\<close>; then it has sent the batches of one processor, none of whose transactions is
  locked, and written the account with the rebuild flag cleared and the calculation date
  emptied.
\<close>

theorem reset_all_or_nothing:
  assumes "locks_stable B" and "resetCostOfSalesForAccount A B ibId gaId w = (r, w')"
  shows "w' = w \<or>
     (\<exists>h p account. r = Inr (resetingAsync (new_Summary gaId))
        \<and> w' = app_updateAccount B (app_getBook B w ibId) account (rp_fireBatchOperations B h p w)
        \<and> \<not> needsRebuild (new_GoodAccount account) \<and> a_prop account COGS_CALC_DATE_PROP = Some []
        \<and> (\<forall>t \<in> set (map_values (rp_financialToTrash p)). \<not> app_isLocked B w (rp_financialBook p) t)
        \<and> (\<forall>r \<in> set (map_values (rp_inventoryToUpdate p)). \<not> app_isLocked B w (rp_inventoryBook p) (h r))
        \<and> (\<forall>r \<in> set (map_values (rp_inventoryToTrash p)). \<not> app_isLocked B w (rp_inventoryBook p) (h r)))"
proof (cases "w' = w")
  case False
  let ?ib = "app_getBook B w ibId"
  from False assms(2) obtain account fb st where
    run: "reset_collect A B w ?ib fb (app_getTransactions B w ?ib (getAccountQuery (a_name account) None None)) = Inr st"
    and ok: "\<not> rp_isAnyTransactionLocked (rs_processor st)"
    and res: "r = Inr (resetingAsync (new_Summary gaId))"
      "w' = app_updateAccount B ?ib (ga_account (reset_account (new_GoodAccount account)))
              (rp_fireBatchOperations B (rs_store st) (rs_processor st) w)"
    by (auto simp: resetCostOfSalesForAccount_def Let_def split: option.splits sum.splits if_splits)
  from reset_collect_lock_noted [OF assms(1) run] ok
  have "reset_unlocked B w (rs_store st) (rs_processor st)" by (simp add: reset_lock_noted_def)
  moreover have "\<not> needsRebuild (new_GoodAccount (ga_account (reset_account (new_GoodAccount account))))"
    "a_prop (ga_account (reset_account (new_GoodAccount account))) COGS_CALC_DATE_PROP = Some []"
    by (simp_all add: reset_account_def needsRebuild_def new_GoodAccount_def clearNeedsRebuild_def
        setCOGSCalculationDate_def)
  ultimately show ?thesis using res unfolding reset_unlocked_def by blast
qed simp

theorem reset_all_or_nothing_witness:
  "\<exists>r w'. resetCostOfSalesForAccount decimal_lib demo_app ''inv'' ''w'' demo_world = (r, w')
     \<and> (w' = demo_world \<or> r = Inr (resetingAsync (new_Summary ''w'')))"
proof -
  obtain r w' where "resetCostOfSalesForAccount decimal_lib demo_app ''inv'' ''w'' demo_world = (r, w')" by force
  with reset_all_or_nothing [OF demo_locks_stable this] show ?thesis by blast
qed

section \<open>What is trashed\<close>

lemma map_get_set: "map_get (map_set k v m) j = (if j = k then Some v else map_get m j)"
  by (simp add: map_get_def map_set_def update_conv)

text \<open>A part that a calculation split off: the bot created it with a parent.\<close>

definition is_split :: "transaction \<Rightarrow> bool" where
  "is_split t =
     (t_agentId t = Some AGENT_ID \<and> \<not> truthy (t_prop t PURCHASE_LOG_PROP) \<and> truthy (t_prop t PARENT_ID))"

lemma rp_trash_frame [simp]:
  "rp_inventoryToTrash (rp_setInventoryBookTransactionToUpdate B w h r p) = rp_inventoryToTrash p"
  "rp_inventoryToTrash (rp_setFinancialBookTransactionToTrash B w t p) = rp_inventoryToTrash p"
  "rp_inventoryToTrash (rp_setInventoryBookTransactionToTrash B w h r p) =
     map_set (t_id (h r)) r (rp_inventoryToTrash p)"
  by (simp_all add: processor_defs)

lemma reset_sale_trash:
  "rp_inventoryToTrash (rs_processor (reset_sale B w fb r st)) = rp_inventoryToTrash (rs_processor st)"
  by (simp add: reset_sale_def Let_def split: list.splits)

lemma reset_purchase_trash:
  assumes "reset_purchase A B w r st = Inr st'"
  shows "rp_inventoryToTrash (rs_processor st') =
     (if truthy (t_prop (rs_store st r) PARENT_ID)
      then map_set (t_id (rs_store st r)) r (rp_inventoryToTrash (rs_processor st))
      else rp_inventoryToTrash (rs_processor st))"
    and "t_id (rs_store st' i) = t_id (rs_store st i)" and "i \<noteq> r \<Longrightarrow> rs_store st' i = rs_store st i"
  using assms
  by (auto simp: reset_purchase_def reset_root_purchase_def Let_def split: if_splits)

lemma reset_transaction_trash:
  assumes "reset_transaction A B w fb r st = Inr st'"
  shows "rp_inventoryToTrash (rs_processor st') =
     (if is_split (rs_store st r) then map_set (t_id (rs_store st r)) r (rp_inventoryToTrash (rs_processor st))
      else rp_inventoryToTrash (rs_processor st))"
    and "t_id (rs_store st' i) = t_id (rs_store st i)" and "i \<noteq> r \<Longrightarrow> rs_store st' i = rs_store st i"
  using assms reset_purchase_trash [of A B w r "after_uncheck r st" st']
  by (auto simp: reset_transaction_eq is_split_def reset_sale_trash reset_sale_store split: if_splits)

lemma reset_loop_keeps_trash:
  assumes "forR (reset_transaction A B w fb) rs st = Inr st'" and "\<forall>r \<in> set rs. t_id (rs_store st r) \<noteq> k"
  shows "map_get (rp_inventoryToTrash (rs_processor st')) k = map_get (rp_inventoryToTrash (rs_processor st)) k"
  using assms
proof (induction rs arbitrary: st)
  case Nil
  then show ?case by simp
next
  case (Cons r rs)
  from Cons.prems(1) obtain st1 where step: "reset_transaction A B w fb r st = Inr st1"
    and rest: "forR (reset_transaction A B w fb) rs st1 = Inr st'" by auto
  from Cons.IH [OF rest] Cons.prems(2) show ?case
    by (auto simp: reset_transaction_trash(1,2) [OF step] map_get_set)
qed

lemma reset_loop_trashes:
  assumes "forR (reset_transaction A B w fb) rs st = Inr st'" and "distinct (map (\<lambda>r. t_id (rs_store st r)) rs)"
    and "i \<in> set rs" and "is_split (rs_store st i)"
  shows "map_get (rp_inventoryToTrash (rs_processor st')) (t_id (rs_store st i)) = Some i"
  using assms
proof (induction rs arbitrary: st)
  case Nil
  then show ?case by simp
next
  case (Cons r rs)
  from Cons.prems(1) obtain st1 where step: "reset_transaction A B w fb r st = Inr st1"
    and rest: "forR (reset_transaction A B w fb) rs st1 = Inr st'" by auto
  note one = reset_transaction_trash [OF step]
  show ?case
  proof (cases "i = r")
    case True
    have "\<forall>j \<in> set rs. t_id (rs_store st1 j) \<noteq> t_id (rs_store st i)"
    proof
      fix j assume "j \<in> set rs"
      then have "t_id (rs_store st j) \<in> (\<lambda>r. t_id (rs_store st r)) ` set rs" by (rule imageI)
      with Cons.prems(2) True show "t_id (rs_store st1 j) \<noteq> t_id (rs_store st i)" by (auto simp only: one(2)) auto
    qed
    from reset_loop_keeps_trash [OF rest this] True Cons.prems(4) show ?thesis
      by (simp add: one(1) map_get_set)
  next
    case False
    with Cons.prems(3) have "i \<in> set rs" by simp
    with Cons.IH [OF rest] Cons.prems(2,4) one(3) [OF False] show ?thesis
      by (simp add: one(2))
  qed
qed

text \<open>
  Reset removes every part a calculation split off. When the identifiers of the
  transactions of the account are their own, each transaction the bot created with a
  parent (the sold part of a purchase, the part a credit note took) is in the batch of
  inventory transactions to be trashed.
\<close>

lemma reset_trashes_splits:
  assumes "reset_collect A B w ib fb ts = Inr st" and "distinct (map t_id ts)"
    and "i < length ts" and "is_split (ts ! i)"
  shows "map_get (rp_inventoryToTrash (rs_processor st)) (t_id (ts ! i)) = Some i
     \<and> i \<in> set (map_values (rp_inventoryToTrash (rs_processor st)))"
proof -
  have "map (\<lambda>i. t_id (ts ! i)) [0..<length ts] = map t_id ts" by (rule nth_equalityI) simp_all
  with reset_loop_trashes [OF assms(1) [unfolded reset_collect_def], of i] assms(2-4)
  have "map_get (rp_inventoryToTrash (rs_processor st)) (t_id (ts ! i)) = Some i" by simp
  then show ?thesis by (force simp: map_get_def map_values_def dest: map_of_SomeD)
qed

definition demo_split :: transaction where
  "demo_split = demo_tx ''x1'' 20240110 2 buy_account widget [PURCHASE_CODE_PROP \<mapsto> ''p2'', PARENT_ID \<mapsto> ''p2'']"

lemma reset_trashes_splits_witness:
  "\<exists>st. reset_collect decimal_lib demo_app demo_world inventory_book financial_book
       [demo_purchase ''p2'' 20240110 3 36, demo_split] = Inr st
     \<and> map_get (rp_inventoryToTrash (rs_processor st)) ''x1'' = Some 1"
proof -
  let ?ts = "[demo_purchase ''p2'' 20240110 3 36, demo_split]"
  have "reset_value decimal_lib demo_split = Inr demo_split"
    by (simp add: reset_value_def demo_split_def demo_tx_def)
  moreover obtain v where "reset_value decimal_lib (demo_purchase ''p2'' 20240110 3 36) = Inr v"
    by (auto simp: reset_value_def demo_tx_defs decimal_lib_def)
  ultimately have "\<forall>i < length ?ts. reset_value decimal_lib (?ts ! i) = Inr ([v, demo_split] ! i)"
    by (auto simp: less_Suc_eq)
  from reset_collect_values [OF this, of demo_app demo_world inventory_book financial_book] obtain st where
    run: "reset_collect decimal_lib demo_app demo_world inventory_book financial_book ?ts = Inr st" by blast
  from reset_trashes_splits [OF run, of 1] run show ?thesis
    by (simp add: is_split_def demo_split_def demo_tx_def demo_purchase_def)
qed

end
