(* ===== verification/EventsProperties.thy ===== *)
theory EventsProperties
  imports DemoEvents ResetProperties
begin

text \<open>
  The event handlers: what they post is what the calculation expects, each event is
  replicated once, which deletions they act on and what a cascade trashes.
\<close>

section \<open>What the library promises\<close>

text \<open>
  Documented behaviour: posting keeps the fields that were set and makes the transaction a
  posted one of the agent; creating an account keeps its name and its type.
\<close>

definition posts_as_given :: "'w bkper_js \<Rightarrow> bool" where
  "posts_as_given S =
     (\<forall>b x w y w'. js_post S b x w = (Inr y, w') \<longrightarrow>
        (\<exists>i d c. y = x\<lparr>t_id := i, t_dateValue := d, t_posted := True, t_agentId := Some AGENT_ID, t_createdAt := c\<rparr>))"

definition creates_as_given :: "'w bkper_js \<Rightarrow> bool" where
  "creates_as_given S =
     (\<forall>b a w a' w'. js_createAccount S b a w = (Inr a', w') \<longrightarrow> a_type a' = a_type a \<and> a_name a' = a_name a)"

text \<open>The accounts the bot reserves in the inventory book have the type it creates them with.\<close>

definition reserved_account :: "'w bkper_js \<Rightarrow> book \<Rightarrow> string \<Rightarrow> account_type \<Rightarrow> bool" where
  "reserved_account S b n ty = (\<forall>w a. js_getAccount S w b (Some n) = Inr (Some a) \<longrightarrow> a_type a = ty)"

lemma bindA_InrE:
  assumes "bindA m k w = (Inr y, w'')"
  obtains x w' where "m w = (Inr x, w')" and "k x w' = (Inr y, w'')"
  using assms by (auto simp: bindA_eq_Inr)

lemma created_type:
  assumes "creates_as_given S" and "js_createAccount S b (new_account n ty) w = (Inr a, w')"
  shows "a_type a = ty"
proof -
  have "a_type a = a_type (new_account n ty)" using assms unfolding creates_as_given_def by blast
  then show ?thesis by (simp add: new_account_def)
qed

lemma ensure_account_type:
  assumes "creates_as_given S" and "reserved_account S b n ty" and "ensure_account S b n ty w = (Inr a, w')"
  shows "a_type a = ty"
proof (rule bindA_InrE [OF assms(3) [unfolded ensure_account_def]])
  fix found w1
  assume found: "readA (\<lambda>w. js_getAccount S w b (Some n)) w = (Inr found, w1)"
    and a: "(case found of None \<Rightarrow> js_createAccount S b (new_account n ty) | Some a \<Rightarrow> returnA a) w1 = (Inr a, w')"
  show ?thesis
  proof (cases found)
    case None
    with a show ?thesis by (auto intro: created_type [OF assms(1)])
  next
    case (Some x)
    with a found assms(2) show ?thesis by (auto simp: reserved_account_def)
  qed
qed

section \<open>Purchases and sales\<close>

text \<open>The payload of a transaction the handler of checked transactions acts on.\<close>

definition complete_payload :: "amount_lib \<Rightarrow> transaction_payload \<Rightarrow> amount \<Rightarrow> bool" where
  "complete_payload A t q =
     (tp_debitAccount t \<noteq> None \<and> tp_creditAccount t \<noteq> None \<and> tp_properties t \<noteq> None
      \<and> truthy (tp_date t) \<and> truthy (tp_id t) \<and> ev_getQuantity A t = Inr (Some q) \<and> q \<noteq> 0)"

lemma checked_notFound_complete:
  assumes "complete_payload A t q"
  shows "checked_notFound A S ib t exc =
    (if truthy (tp_prop t SALE_INVOICE_PROP) then checked_sell A S ib t q exc
     else if truthy (tp_prop t PURCHASE_INVOICE_PROP) then checked_buy A S ib t (the (tp_debitAccount t)) q exc
     else if truthy (tp_prop t CREDIT_NOTE_PROP) then checked_credit A S ib t (the (tp_creditAccount t)) q exc
     else returnA None)"
  using assms
  by (auto simp: checked_notFound_def complete_payload_def tp_prop_def fun_eq_iff split: option.splits)

lemma checked_buy_posts:
  assumes "checked_buy A S ib t d q exc w = (Inr r, w')"
  obtains buy good c newTx w1 w2 w3 w4 where
    "ensure_account S ib GOOD_BUY_ACCOUNT_NAME INCOMING w1 = (Inr buy, w2)"
    and "payload_amount A t = Inr c"
    and "js_post S ib (purchase_transaction A t q buy good exc c) w2 = (Inr newTx, w3)"
    and "posted_response A S ''BUY'' ib (a_name buy) good newTx t w3 = (Inr r, w4)"
  using assms unfolding checked_buy_def
  by (auto elim!: bindA_InrE)

lemma posted_purchase_fresh:
  assumes "amount_laws A" and "am_new A (Some []) = None" and "a_type buy = INCOMING"
    and "newTx = (purchase_transaction A t q buy good exc c)
      \<lparr>t_id := i, t_dateValue := d, t_posted := True, t_agentId := Some AGENT_ID, t_createdAt := k\<rparr>"
  shows "isPurchase newTx \<and> fresh_purchase A newTx \<and> t_amount newTx = q
     \<and> t_prop newTx PURCHASE_CODE_PROP = tp_prop t PURCHASE_CODE_PROP \<and> t_remoteIds newTx = [the (tp_id t)]"
proof -
  have "am_toString A q \<noteq> []" using am_new_toString [OF assms(1), of q] assms(2) by (metis option.distinct(1))
  then have "truthy (Some (am_toString A q))" by (simp add: truthy_def)
  with assms show ?thesis
    by (simp add: isPurchase_def fresh_purchase_def purchase_transaction_def)
qed

text \<open>
  C20. A purchase the bot replicates can be calculated and reset. When a complete payload
  with a purchase invoice and no sale invoice is handled without an exception, the handler
  has posted a transaction of the quantity of the payload, linked to it by the remote
  identifier and with its purchase code, that the calculation service takes for a purchase
  and whose quantity and cost are the originals the reset service goes back to.
\<close>

theorem replicated_purchase_is_fresh:
  assumes "amount_laws A" and "am_new A (Some []) = None"
    and "posts_as_given S" and "creates_as_given S" and "reserved_account S ib GOOD_BUY_ACCOUNT_NAME INCOMING"
    and "complete_payload A t q"
    and "\<not> truthy (tp_prop t SALE_INVOICE_PROP)" and "truthy (tp_prop t PURCHASE_INVOICE_PROP)"
    and "checked_notFound A S ib t exc w = (Inr r, w')"
  shows "\<exists>x newTx w1 w2. js_post S ib x w1 = (Inr newTx, w2)
     \<and> isPurchase newTx \<and> fresh_purchase A newTx \<and> t_amount newTx = q
     \<and> t_prop newTx PURCHASE_CODE_PROP = tp_prop t PURCHASE_CODE_PROP
     \<and> t_remoteIds newTx = [the (tp_id t)]"
proof -
  from assms(7-9) have "checked_buy A S ib t (the (tp_debitAccount t)) q exc w = (Inr r, w')"
    by (simp add: checked_notFound_complete [OF assms(6)])
  then obtain buy good c newTx w1 w2 w3 where
    buy: "ensure_account S ib GOOD_BUY_ACCOUNT_NAME INCOMING w1 = (Inr buy, w2)" and
    post: "js_post S ib (purchase_transaction A t q buy good exc c) w2 = (Inr newTx, w3)"
    by (rule checked_buy_posts)
  obtain i d k where "newTx = (purchase_transaction A t q buy good exc c)
      \<lparr>t_id := i, t_dateValue := d, t_posted := True, t_agentId := Some AGENT_ID, t_createdAt := k\<rparr>"
    using assms(3) post unfolding posts_as_given_def by blast
  from posted_purchase_fresh [OF assms(1,2) ensure_account_type [OF assms(4,5) buy] this] post
  show ?thesis by blast
qed

lemma checked_sell_posts:
  assumes "checked_sell A S ib t q exc w = (Inr r, w')"
  obtains sell good c newTx w1 w2 w3 where
    "ensure_account S ib GOOD_SELL_ACCOUNT_NAME OUTGOING w1 = (Inr sell, w2)"
    and "payload_amount A t = Inr c"
    and "js_post S ib (sale_transaction A t q good sell exc c) w2 = (Inr newTx, w3)"
    and "posted_response A S ''SELL'' ib (a_name good) good newTx t w3 = (Inr r, w')"
  using assms unfolding checked_sell_def
  by (auto elim!: bindA_InrE)

text \<open>
  C21. A sale the bot replicates is open stock demand. When a complete payload with a sale
  invoice is handled without an exception, the handler has posted a transaction of the
  quantity of the payload, linked to it by the remote identifier, that the calculation
  service takes for a sale, without cost and log, as a reset leaves it.
\<close>

theorem replicated_sale_is_fresh:
  assumes "posts_as_given S" and "creates_as_given S" and "reserved_account S ib GOOD_SELL_ACCOUNT_NAME OUTGOING"
    and "complete_payload A t q" and "truthy (tp_prop t SALE_INVOICE_PROP)"
    and "checked_notFound A S ib t exc w = (Inr r, w')"
  shows "\<exists>x newTx w1 w2. js_post S ib x w1 = (Inr newTx, w2)
     \<and> isSale newTx \<and> fresh_sale newTx \<and> t_amount newTx = q
     \<and> t_prop newTx SALE_INVOICE_PROP = tp_prop t SALE_INVOICE_PROP
     \<and> t_remoteIds newTx = [the (tp_id t)]"
proof -
  from assms(5,6) have "checked_sell A S ib t q exc w = (Inr r, w')"
    by (simp add: checked_notFound_complete [OF assms(4)])
  then obtain sell good c newTx w1 w2 w3 where
    sell: "ensure_account S ib GOOD_SELL_ACCOUNT_NAME OUTGOING w1 = (Inr sell, w2)" and
    post: "js_post S ib (sale_transaction A t q good sell exc c) w2 = (Inr newTx, w3)"
    by (rule checked_sell_posts)
  obtain i d k where "newTx = (sale_transaction A t q good sell exc c)
      \<lparr>t_id := i, t_dateValue := d, t_posted := True, t_agentId := Some AGENT_ID, t_createdAt := k\<rparr>"
    using assms(1) post unfolding posts_as_given_def by blast
  with ensure_account_type [OF assms(2,3) sell] have
    "isSale newTx \<and> fresh_sale newTx \<and> t_amount newTx = q
     \<and> t_prop newTx SALE_INVOICE_PROP = tp_prop t SALE_INVOICE_PROP \<and> t_remoteIds newTx = [the (tp_id t)]"
    by (simp add: isSale_def fresh_sale_def sale_transaction_def)
  with post show ?thesis by blast
qed

section \<open>Each transaction is replicated once\<close>

text \<open>
  C22. A transaction that has been replicated is not replicated again. When the inventory
  book has a transaction with the remote identifier of the payload, handling the event (a
  second time, or after a retry of the webhook) changes nothing on the platform, whatever
  the event carries.
\<close>

theorem replicated_once:
  assumes "\<not> ev_isInventoryBook (ev_book e)" and "ev_data e = Some (Some (Some t))"
    and "ev_getInventoryBook S w (ev_book e) = Some ib"
    and "js_listTransactions S w ib (Some (getTransactionQuery S t)) = Inr txs" and "txs \<noteq> []"
  shows "snd (checked_handleEvent A S e w) = w"
proof -
  have exc: "\<exists>r. getGoodExcCodeFromTransaction S t fb w = (r, w)" for fb
    by (auto simp: getGoodExcCodeFromTransaction_def exchangeCodeOfAccount_def bindA_def split: option.splits sum.splits)
  have found: "\<exists>r. checked_found A S ib x w = (r, w)" for x
    by (auto simp: checked_found_def bindA_def split: sum.splits)
  obtain x where x: "getFirst txs = Some x" using assms(5) by (cases txs) (simp_all add: getFirst_def)
  let ?p = "processObject S (\<lambda>t. Inr (getTransactionQuery S t)) (checked_found A S) (checked_notFound A S)"
  have "\<exists>r. ?p fb ib e w = (r, w)" for fb
    using exc [of fb] found [of x]
    by (auto simp: processObject_def assms(2,4) x bindA_def Let_def split: sum.splits)
  moreover have "flagRebuild_intercept S (ev_book e) e w = (Inr (result_of (RBool False)), w)"
    using assms(1) by (simp add: flagRebuild_intercept_def)
  ultimately show ?thesis
    by (auto simp: checked_handleEvent_def eh_handleEvent_def catchA_def bindA_def result_of_def assms(3)
        split: prod.splits sum.splits) (metis prod.inject)+
qed

section \<open>Examples\<close>

lemma demo_complete:
  "complete_payload decimal_lib purchase_payload 10" "complete_payload decimal_lib sale_payload 4"
  by (simp_all add: complete_payload_def payload_defs ev_getQuantity_def tp_prop_def trim_show_amount decimal_lib_def)

lemma demo_posts: "posts_as_given demo_js"
  unfolding posts_as_given_def
proof (intro allI impI)
  fix b x w y w'
  assume "js_post demo_js b x w = (Inr y, w')"
  then have "y = x\<lparr>t_id := t_id y, t_dateValue := t_dateValue x, t_posted := True, t_agentId := Some AGENT_ID,
      t_createdAt := Some 0\<rparr>"
    by (cases x) (auto simp: demo_js_def Let_def)
  then show "\<exists>i d c. y = x\<lparr>t_id := i, t_dateValue := d, t_posted := True, t_agentId := Some AGENT_ID,
      t_createdAt := c\<rparr>" by blast
qed

lemma demo_creates: "creates_as_given demo_js"
  by (auto simp: creates_as_given_def demo_js_def)

lemma demo_reserved:
  "reserved_account demo_js b GOOD_BUY_ACCOUNT_NAME INCOMING" "reserved_account demo_js b GOOD_SELL_ACCOUNT_NAME OUTGOING"
  by (auto simp: reserved_account_def demo_js_def reserve_def)

lemmas handler_defs = checked_buy_def checked_sell_def checkInventoryAccount_def add_groups_def financial_groups_def
  ensure_group_def ensure_account_def payload_amount_def posted_response_def checkLastTxDate_def
  ev_getCOGSCalculationDateValue_def financial_properties_def financial_archived_def bindA_def Let_def

lemma demo_buys:
  "\<exists>r w'. checked_notFound decimal_lib demo_js inventory_book purchase_payload (Some ''USD'') demo_world = (Inr r, w')"
  by (simp add: checked_notFound_complete [OF demo_complete(1)])
    (simp add: handler_defs payload_defs tp_prop_def demo_js_def reserve_def demo_defs decimal_lib_def)

lemma demo_sells:
  "\<exists>r w'. checked_notFound decimal_lib demo_js inventory_book sale_payload (Some ''USD'') demo_world = (Inr r, w')"
  by (simp add: checked_notFound_complete [OF demo_complete(2)])
    (simp add: handler_defs payload_defs tp_prop_def demo_js_def reserve_def demo_defs decimal_lib_def)

theorem replicated_purchase_is_fresh_witness:
  "\<exists>r w'. checked_notFound decimal_lib demo_js inventory_book purchase_payload (Some ''USD'') demo_world = (Inr r, w')
     \<and> (\<exists>x newTx w1 w2. js_post demo_js inventory_book x w1 = (Inr newTx, w2)
        \<and> isPurchase newTx \<and> fresh_purchase decimal_lib newTx \<and> t_amount newTx = 10
        \<and> t_remoteIds newTx = [''f1''])"
proof -
  obtain r w' where
    run: "checked_notFound decimal_lib demo_js inventory_book purchase_payload (Some ''USD'') demo_world = (Inr r, w')"
    using demo_buys by blast
  have empty: "am_new decimal_lib (Some []) = None" by (simp add: decimal_lib_def read_amount_def)
  have kind: "\<not> truthy (tp_prop purchase_payload SALE_INVOICE_PROP)" "truthy (tp_prop purchase_payload PURCHASE_INVOICE_PROP)"
    "the (tp_id purchase_payload) = ''f1''"
    by (simp_all add: payload_defs tp_prop_def)
  from replicated_purchase_is_fresh [OF decimal_lib_laws empty demo_posts demo_creates demo_reserved(1)
      demo_complete(1) kind(1,2) run] run kind(3)
  show ?thesis by metis
qed

theorem replicated_sale_is_fresh_witness:
  "\<exists>r w'. checked_notFound decimal_lib demo_js inventory_book sale_payload (Some ''USD'') demo_world = (Inr r, w')
     \<and> (\<exists>x newTx w1 w2. js_post demo_js inventory_book x w1 = (Inr newTx, w2)
        \<and> isSale newTx \<and> fresh_sale newTx \<and> t_amount newTx = 4 \<and> t_remoteIds newTx = [''f2''])"
proof -
  obtain r w' where
    run: "checked_notFound decimal_lib demo_js inventory_book sale_payload (Some ''USD'') demo_world = (Inr r, w')"
    using demo_sells by blast
  have kind: "truthy (tp_prop sale_payload SALE_INVOICE_PROP)" "the (tp_id sale_payload) = ''f2''"
    by (simp_all add: payload_defs tp_prop_def)
  from replicated_sale_is_fresh [OF demo_posts demo_creates demo_reserved(2) demo_complete(2) kind(1) run] run kind(2)
  show ?thesis by metis
qed

text \<open>The same books after the purchase was replicated.\<close>

definition demo_replicated :: demo where
  "demo_replicated = demo_world\<lparr>d_transactions := (\<lambda>b. [(demo_purchase ''n0'' 20240105 10 100)\<lparr>t_remoteIds := [''f1'']\<rparr>])\<rparr>"

theorem replicated_once_witness:
  "snd (checked_handleEvent decimal_lib demo_js (demo_event ''TRANSACTION_CHECKED'' financial_book purchase_payload)
     demo_replicated) = demo_replicated"
proof (rule replicated_once)
  show "\<not> ev_isInventoryBook (ev_book (demo_event ''TRANSACTION_CHECKED'' financial_book purchase_payload))"
    by (simp add: ev_isInventoryBook_def demo_event_def demo_defs)
  show "ev_data (demo_event ''TRANSACTION_CHECKED'' financial_book purchase_payload) = Some (Some (Some purchase_payload))"
    by (simp add: demo_event_def)
  show "ev_getInventoryBook demo_js demo_replicated
      (ev_book (demo_event ''TRANSACTION_CHECKED'' financial_book purchase_payload)) = Some inventory_book"
    by (simp add: ev_getInventoryBook_def demo_js_def ev_isInventoryBook_def demo_defs)
  show "js_listTransactions demo_js demo_replicated inventory_book (Some (getTransactionQuery demo_js purchase_payload))
      = Inr [(demo_purchase ''n0'' 20240105 10 100)\<lparr>t_remoteIds := [''f1'']\<rparr>]"
    by (simp add: demo_js_def getTransactionQuery_def js_show_def payload_defs find_remote_def demo_replicated_def)
qed simp

section \<open>Transactions older than the last calculation\<close>

text \<open>The two packages read the calculation date alike.\<close>

lemma ev_calculation_date: "ev_getCOGSCalculationDateValue a = getCOGSCalculationDateValue (new_GoodAccount a)"
  by (simp add: ev_getCOGSCalculationDateValue_def getCOGSCalculationDateValue_def getCOGSCalculationDate_def
      new_GoodAccount_def Let_def)

lemma js_le_int: "js_le (Num (of_int i)) (Num (of_nat n)) \<longleftrightarrow> i \<le> int n"
proof -
  have "(of_int i :: rat) \<le> of_nat n \<longleftrightarrow> i \<le> int n"
    by (metis of_int_le_iff of_int_of_nat_eq)
  then show ?thesis by (auto simp: js_le_def js_eq_def)
qed

text \<open>
  C23. A transaction dated on or before the last calculation asks for a rebuild, and only
  such a one. With the calculation date of the account written by the calculation service
  as an ISO date, the handler of checked transactions compares it with the date value of
  the payload as numbers; if the payload is not later, it writes the account with the flag
  on which the next calculation resets the account, and otherwise it writes nothing.
\<close>

theorem late_transaction_flags_account:
  assumes "list_all is_digit (replaceAll_dash d)" and "replaceAll_dash d \<noteq> []"
    and "digits_value (replaceAll_dash d) < 2 ^ 53" and "tp_dateValue t = Some n"
  shows "\<exists>flagged. needsRebuild (new_GoodAccount flagged)
     \<and> getCOGSCalculationDate (new_GoodAccount flagged) = Some d
     \<and> checkLastTxDate S (ga_account (setCOGSCalculationDate d g)) t =
         (if n \<le> int (digits_value (replaceAll_dash d))
          then bindA (js_updateAccount S flagged) (\<lambda>_. returnA True) else returnA False)"
proof -
  let ?a = "ga_account (setCOGSCalculationDate d g)"
  let ?f = "set_account_prop NEEDS_REBUILD_PROP (Some ''TRUE'') ?a"
  have "ev_getCOGSCalculationDateValue ?a = getCOGSCalculationDateValue (setCOGSCalculationDate d g)"
    by (simp add: ev_calculation_date getCOGSCalculationDateValue_def getCOGSCalculationDate_def new_GoodAccount_def)
  with calculation_date_value [OF assms(1-3)]
  have "ev_getCOGSCalculationDateValue ?a = Some (Num (of_nat (digits_value (replaceAll_dash d))))" by simp
  then have "checkLastTxDate S ?a t =
      (if n \<le> int (digits_value (replaceAll_dash d))
       then bindA (js_updateAccount S ?f) (\<lambda>_. returnA True) else returnA False)"
    by (simp add: checkLastTxDate_def assms(4) js_le_int flagForRebuild_def)
  moreover have "needsRebuild (new_GoodAccount ?f)" "getCOGSCalculationDate (new_GoodAccount ?f) = Some d"
    by (simp_all add: needsRebuild_def new_GoodAccount_def getCOGSCalculationDate_def setCOGSCalculationDate_def)
  ultimately show ?thesis by blast
qed

theorem late_transaction_flags_account_witness:
  "\<exists>flagged. needsRebuild (new_GoodAccount flagged)
     \<and> checkLastTxDate demo_js (ga_account (setCOGSCalculationDate ''2024-01-31'' (new_GoodAccount widget))) purchase_payload
         = bindA (js_updateAccount demo_js flagged) (\<lambda>_. returnA True)"
proof -
  have d: "list_all is_digit (replaceAll_dash ''2024-01-31'')" "replaceAll_dash ''2024-01-31'' \<noteq> []"
    "digits_value (replaceAll_dash ''2024-01-31'') = 20240131"
    by (simp_all add: replaceAll_dash_def is_digit_def code_unit_def digits_value_def)
  have "tp_dateValue purchase_payload = Some 20240105" by (simp add: payload_defs)
  from late_transaction_flags_account [OF d(1,2) _ this, of demo_js "new_GoodAccount widget"] d(3)
  show ?thesis by auto
qed

section \<open>Transactions that are not the bot's\<close>

text \<open>
  C24. Nobody posts in the inventory book but the bot's handlers. A transaction that was
  posted directly in the inventory book is unchecked if it is checked and trashed, in this
  order; a transaction posted in another book is left alone.
\<close>

theorem direct_posting_is_undone:
  assumes "ev_data e = Some (Some (Some p))"
    and "js_listTransactions S w (ev_book e) (tp_id p) = Inr (t # ts)"
  shows "snd (posted_handleEvent S e w) =
    (if ev_isInventoryBook (ev_book e)
     then (if t_checked t
           then (case js_uncheck S t w of (Inl _, w1) \<Rightarrow> w1 | (Inr t', w1) \<Rightarrow> snd (js_trash S t' w1))
           else snd (js_trash S t w))
     else w)"
  using assms
  by (auto simp: posted_handleEvent_def getFirst_def uncheckAndTrash_def bindA_def split: sum.splits prod.splits)

theorem direct_posting_is_undone_witness:
  "d_calls (snd (posted_handleEvent demo_js (demo_event ''TRANSACTION_POSTED'' inventory_book
     (purchase_payload\<lparr>tp_id := Some ''p1''\<rparr>)) demo_world)) = [Trash (demo_purchase ''p1'' 20240105 10 100)]"
proof -
  let ?e = "demo_event ''TRANSACTION_POSTED'' inventory_book (purchase_payload\<lparr>tp_id := Some ''p1''\<rparr>)"
  have data: "ev_data ?e = Some (Some (Some (purchase_payload\<lparr>tp_id := Some ''p1''\<rparr>)))"
    and book: "ev_book ?e = inventory_book" by (simp_all add: demo_event_def)
  have "js_listTransactions demo_js demo_world (ev_book ?e) (tp_id (purchase_payload\<lparr>tp_id := Some ''p1''\<rparr>))
      = Inr [demo_purchase ''p1'' 20240105 10 100]"
    by (simp add: demo_js_def demo_event_def find_remote_def demo_world_def inventory_book_def demo_book_def demo_tx_defs)
  note run = direct_posting_is_undone [OF data this]
  have inv: "ev_isInventoryBook (ev_book ?e)"
    by (simp only: book) (simp add: ev_isInventoryBook_def inventory_book_def demo_book_def)
  have "\<not> t_checked (demo_purchase ''p1'' 20240105 10 100)"
    and "d_calls (snd (js_trash demo_js t demo_world)) = [Trash t]" for t
    by (simp_all add: demo_purchase_def demo_tx_def demo_js_def log_call_def demo_world_def)
  with run inv show ?thesis by simp
qed

text \<open>
  The bot does not flag its own work. The interceptor of checked and unchecked
  transactions acts on the inventory book only, never on events of the bot itself, and
  never on an account that is already flagged: in these cases it answers \<open>false\<close> and
  writes nothing.
\<close>

lemma own_events_flag_nothing:
  assumes "ev_isInventoryBook b \<longrightarrow> ev_agentId e = Some AGENT_ID
      \<or> (\<exists>p t ts a. ev_data e = Some (Some (Some p)) \<and> js_listTransactions S w b (tp_id p) = Inr (t # ts)
           \<and> ev_getGoodAccount S t w = (Inr (Some a), w) \<and> a_prop a NEEDS_REBUILD_PROP \<noteq> None)"
  shows "flagRebuild_intercept S b e w = (Inr (result_of (RBool False)), w)"
  using assms by (auto simp: flagRebuild_intercept_def getFirst_def bindA_def)

lemma own_events_flag_nothing_witness:
  "flagRebuild_intercept demo_js inventory_book
     \<lparr>ev_type = ''TRANSACTION_CHECKED'', ev_book = inventory_book, ev_agentId = Some ''inventory-bot'',
      ev_data = Some (Some (Some purchase_payload))\<rparr> demo_world = (Inr (result_of (RBool False)), demo_world)"
  by (rule own_events_flag_nothing) simp

section \<open>Deletions\<close>

lemma includes_COGS_prefix: "str_includes (''#COGS '' @ d) COGS_HASHTAG = str_includes d COGS_HASHTAG"
  by (simp add: prefix_def)

lemma cogs_is_no_purchase_or_sale:
  "t_properties (costOfSaleTransaction A B good cogs sale cost) QUANTITY_PROP = None"
  "t_properties (costOfSaleTransaction A B good cogs sale cost) PURCHASE_CODE_PROP = None"
  "t_properties (costOfSaleTransaction A B good cogs sale cost) GOOD_PROP = None"
  by (simp_all add: costOfSaleTransaction_def new_transaction_def)

text \<open>After the interceptor, handling a deletion only reads.\<close>

lemma deletion_only_intercepts:
  assumes "\<not> ev_isInventoryBook (ev_book e)" and "deleteFinancial_intercept A S (ev_book e) e w = (Inr r, w)"
  shows "snd (deleted_handleEvent A S e w) = w"
proof -
  let ?p = "processObject S (\<lambda>t. Inr (getTransactionQuery S t)) (\<lambda>_ _. returnA None) (\<lambda>_ _ _. returnA None)"
  have exc: "\<exists>r. getGoodExcCodeFromTransaction S t fb w = (r, w)" for t fb
    by (auto simp: getGoodExcCodeFromTransaction_def exchangeCodeOfAccount_def bindA_def split: option.splits sum.splits)
  have "\<exists>r. ?p fb ib e w = (r, w)" for fb ib
  proof (cases "ev_data e")
    case (Some object)
    show ?thesis
    proof (cases object)
      case (Some operation)
      show ?thesis
      proof (cases operation)
        case (Some t)
        with exc [of t fb] \<open>object = Some operation\<close> \<open>ev_data e = Some object\<close> show ?thesis
          by (auto simp: processObject_def bindA_def Let_def split: sum.splits option.splits)
      qed (simp add: processObject_def \<open>object = Some operation\<close> \<open>ev_data e = Some object\<close> bindA_def)
    qed (simp add: processObject_def \<open>ev_data e = Some object\<close> bindA_def)
  qed (simp add: processObject_def)
  with assms show ?thesis
    by (auto simp: deleted_handleEvent_def eh_handleEvent_def catchA_def bindA_def
        split: prod.splits sum.splits option.splits) (metis prod.inject)+
qed

text \<open>
  C25. The bot does not recognise its own cost of sales transactions. The calculation
  writes descriptions that start with \<open>#COGS\<close>, the interceptor of deletions looks for
  \<open>#cost_of_sale\<close>. For a sale whose own description does not happen to contain that tag,
  the deletion of the cost of sales transaction, reported with the description and the
  properties the calculation gave it, is met by no branch of the interceptor: it answers
  \<open>false\<close>, and handling the event to its end writes nothing, so no account is flagged.
\<close>

theorem deleted_cogs_not_recognised:
  assumes "\<not> ev_isInventoryBook (ev_book e)" and "ev_data e = Some (Some (Some t))"
    and "tp_description t = Some (t_description (costOfSaleTransaction A B good cogs sale cost))"
    and "tp_properties t = Some (t_properties (costOfSaleTransaction A B good cogs sale cost))"
    and "\<not> str_includes (t_description sale) COGS_HASHTAG"
  shows "deleteFinancial_intercept A S (ev_book e) e w = (Inr (result_of (RBool False)), w)
     \<and> snd (deleted_handleEvent A S e w) = w"
proof -
  have "tp_description t = Some (''#COGS '' @ t_description sale)"
    using assms(3) by (simp add: costOfSaleTransaction_def)
  then have "\<not> is_deleted_cogs t"
    using assms(5) includes_COGS_prefix [of "t_description sale"] unfolding is_deleted_cogs_def by simp
  moreover have "tp_prop t QUANTITY_PROP = None" "tp_prop t PURCHASE_CODE_PROP = None" "tp_prop t GOOD_PROP = None"
    unfolding tp_prop_def assms(4) by (simp_all only: option.case cogs_is_no_purchase_or_sale)
  ultimately have intercept: "deleteFinancial_intercept A S (ev_book e) e w = (Inr (result_of (RBool False)), w)"
    by (auto simp: deleteFinancial_intercept_def assms(2) df_purchase_def df_additional_cost_def df_sale_def
        df_cogs_def bindA_def simp del: QUANTITY_PROP_def PURCHASE_CODE_PROP_def GOOD_PROP_def split: option.splits)
  show ?thesis by (rule conjI [OF intercept deletion_only_intercepts [OF assms(1) intercept]])
qed

text \<open>The cost of sales transaction of a sale of twelve, deleted in the financial book.\<close>

definition cogs_payload :: transaction_payload where
  "cogs_payload =
     (let cogs = costOfSaleTransaction decimal_lib demo_app None widget (demo_sale ''s1'' 20240115 12) 124
      in (demo_payload ''f9'' 0 124 widget_payload supplier_payload Map.empty)
           \<lparr>tp_description := Some (t_description cogs), tp_properties := Some (t_properties cogs),
            tp_agentId := Some ''inventory-bot'', tp_remoteIds := Some [''s1'']\<rparr>)"

theorem deleted_cogs_not_recognised_witness:
  "deleteFinancial_intercept decimal_lib demo_js financial_book
     (demo_event ''TRANSACTION_DELETED'' financial_book cogs_payload) demo_world
       = (Inr (result_of (RBool False)), demo_world)
   \<and> snd (deleted_handleEvent decimal_lib demo_js
            (demo_event ''TRANSACTION_DELETED'' financial_book cogs_payload) demo_world) = demo_world"
proof -
  let ?e = "demo_event ''TRANSACTION_DELETED'' financial_book cogs_payload"
  have e: "ev_book ?e = financial_book" "ev_data ?e = Some (Some (Some cogs_payload))"
    by (simp_all add: demo_event_def)
  have "\<not> ev_isInventoryBook (ev_book ?e)"
    unfolding e by (simp add: ev_isInventoryBook_def financial_book_def demo_book_def)
  from deleted_cogs_not_recognised [OF this e(2), where A = decimal_lib and B = demo_app and good = None and
      cogs = widget and sale = "demo_sale ''s1'' 20240115 12" and cost = 124 and S = demo_js and w = demo_world]
  show ?thesis unfolding e
    by (simp add: cogs_payload_def Let_def demo_sale_def demo_tx_def prefix_def)
qed

text \<open>
  C26. Deleting a replicated purchase or sale in the inventory book has no effect. The
  interceptor looks for a good account behind a debit to an incoming or a credit from an
  outgoing account; purchases are credited from an incoming and sales debited to an
  outgoing account, so for both it answers \<open>false\<close> and neither flags the account nor
  deletes what was split off.
\<close>

theorem goods_deletion_ignores_replicas:
  assumes "ev_data e = Some (Some (Some t))" and "tp_creditAccount t = Some credit" and "tp_debitAccount t = Some debit"
    and "ap_type credit = Some INCOMING \<and> ap_type debit = Some ASSET
       \<or> ap_type credit = Some ASSET \<and> ap_type debit = Some OUTGOING"
  shows "deleteGoods_intercept A S b e w = (Inr (result_of (RBool False)), w)"
  using assms by (auto simp: deleteGoods_intercept_def dg_getGoodAccount_def bindA_def Let_def)

theorem goods_deletion_ignores_replicas_witness:
  "deleteGoods_intercept decimal_lib demo_js inventory_book
     (demo_event ''TRANSACTION_DELETED'' inventory_book
        (purchase_payload\<lparr>tp_creditAccount := Some (supplier_payload\<lparr>ap_type := Some INCOMING\<rparr>)\<rparr>)) demo_world
   = (Inr (result_of (RBool False)), demo_world)"
  by (rule goods_deletion_ignores_replicas [where
        t = "purchase_payload\<lparr>tp_creditAccount := Some (supplier_payload\<lparr>ap_type := Some INCOMING\<rparr>)\<rparr>" and credit = "supplier_payload\<lparr>ap_type := Some INCOMING\<rparr>"
        and debit = widget_payload])
    (simp_all add: demo_event_def payload_defs)

section \<open>The parts of a deleted purchase\<close>

text \<open>
  Documented behaviour of the library, for the set \<open>live w\<close> of the identifiers of the
  transactions outside the trash: unchecking keeps the transaction where it is and clears
  its check mark, trashing an unchecked transaction moves it and no other to the trash;
  a call that fails moves nothing. Of trashing a checked transaction nothing is promised.
\<close>

definition trash_laws :: "'w bkper_js \<Rightarrow> ('w \<Rightarrow> string set) \<Rightarrow> bool" where
  "trash_laws S live =
     ((\<forall>t w. live (snd (js_uncheck S t w)) = live w
        \<and> (\<forall>t'. fst (js_uncheck S t w) = Inr t' \<longrightarrow> t_id t' = t_id t \<and> \<not> t_checked t'))
      \<and> (\<forall>t w. \<not> t_checked t \<longrightarrow>
           (case js_trash S t w of
              (Inl _, w') \<Rightarrow> live w' = live w
            | (Inr t', w') \<Rightarrow> t_id t' = t_id t \<and> live w' = live w - {t_id t})))"

lemma trash_laws_uncheck:
  assumes "trash_laws S live" and "js_uncheck S t w = (u, w')"
  shows "live w' = live w \<and> (\<forall>t'. u = Inr t' \<longrightarrow> t_id t' = t_id t \<and> \<not> t_checked t')"
  using assms(1) [unfolded trash_laws_def, THEN conjunct1, THEN spec [of _ t], THEN spec [of _ w]]
  unfolding assms(2) fst_conv snd_conv .

lemma trash_laws_trash:
  assumes "trash_laws S live" and "\<not> t_checked t" and "js_trash S t w = (r, w')"
  shows "case r of Inl _ \<Rightarrow> live w' = live w | Inr t' \<Rightarrow> t_id t' = t_id t \<and> live w' = live w - {t_id t}"
  using assms(1) [unfolded trash_laws_def, THEN conjunct2, THEN spec [of _ t], THEN spec [of _ w]]
  by (simp add: assms(2,3) split: sum.splits)

lemma uncheckAndTrash_trashes:
  assumes "trash_laws S live" and "uncheckAndTrash S t w = (r, w')"
  shows "case r of Inl _ \<Rightarrow> live w' = live w | Inr t' \<Rightarrow> t_id t' = t_id t \<and> live w' = live w - {t_id t}"
proof (cases "t_checked t")
  case False
  with assms(2) have "js_trash S t w = (r, w')" by (simp add: uncheckAndTrash_def bindA_def)
  with trash_laws_trash [OF assms(1) False] show ?thesis by blast
next
  case True
  obtain u w1 where u: "js_uncheck S t w = (u, w1)" by (cases "js_uncheck S t w")
  note kept = trash_laws_uncheck [OF assms(1) u]
  show ?thesis
  proof (cases u)
    case (Inl err)
    with assms(2) u True kept show ?thesis by (auto simp: uncheckAndTrash_def bindA_def)
  next
    case (Inr t')
    with kept have same: "t_id t' = t_id t" "\<not> t_checked t'" by auto
    have "js_trash S t' w1 = (r, w')" using assms(2) u True Inr by (simp add: uncheckAndTrash_def bindA_def)
    from trash_laws_trash [OF assms(1) same(2) this] kept same(1) show ?thesis by (simp split: sum.splits)
  qed
qed

abbreviation parts_of :: "string option \<Rightarrow> transaction list \<Rightarrow> transaction list" where
  "parts_of i ts \<equiv> filter (\<lambda>t. t_prop t PARENT_ID = i) ts"

abbreviation ids_of :: "transaction list \<Rightarrow> string set" where
  "ids_of ts \<equiv> t_id ` set ts"

lemma trash_splits_Cons:
  "trash_splits S i (t # ts) rs w =
     (if t_prop t PARENT_ID = i
      then (case uncheckAndTrash S t w of
              (Inl err, w1) \<Rightarrow> (Inl err, w1)
            | (Inr t', w1) \<Rightarrow> trash_splits S i ts (rs @ [t']) w1)
      else trash_splits S i ts rs w)"
  by (simp add: trash_splits_def bindA_def split: sum.splits prod.splits)

lemma trash_splits_effect:
  assumes "trash_laws S live" and "trash_splits S i ts rs w = (r, w')"
  shows "live w - ids_of (parts_of i ts) \<subseteq> live w' \<and> live w' \<subseteq> live w
     \<and> (\<forall>rs'. r = Inr rs' \<longrightarrow> live w' = live w - ids_of (parts_of i ts)
          \<and> map t_id rs' = map t_id rs @ map t_id (parts_of i ts))"
  using assms(2)
proof (induction ts arbitrary: rs w)
  case Nil
  then show ?case by (auto simp: trash_splits_def)
next
  case (Cons t ts rs w)
  show ?case
  proof (cases "t_prop t PARENT_ID = i")
    case False
    with Cons.prems have "trash_splits S i ts rs w = (r, w')" by (simp add: trash_splits_Cons)
    from Cons.IH [OF this] False show ?thesis by simp
  next
    case True
    obtain r1 w1 where step: "uncheckAndTrash S t w = (r1, w1)" by (cases "uncheckAndTrash S t w")
    note moved = uncheckAndTrash_trashes [OF assms(1) step]
    show ?thesis
    proof (cases r1)
      case (Inl err)
      with Cons.prems True step have "w1 = w'" and "r = Inl err" by (simp_all add: trash_splits_Cons)
      with moved Inl show ?thesis by auto
    next
      case (Inr t')
      with Cons.prems True step have "trash_splits S i ts (rs @ [t']) w1 = (r, w')" by (simp add: trash_splits_Cons)
      from Cons.IH [OF this] Inr moved True show ?thesis by auto
    qed
  qed
qed

text \<open>
  C27. The cascade of a deleted purchase moves its parts to the trash, and nothing else.
  Of the transactions the query for the account answers, the parts are those whose parent
  is the deleted transaction. Without a recorded original quantity (the deleted
  transaction is no root purchase) nothing happens. Otherwise only parts leave the live
  transactions, also when a call fails on the way; when the cascade succeeds all parts are
  gone, and it answers the transactions trashed in the order of the list, or nothing if
  there were none.
\<close>

theorem cascade_trashes_parts:
  assumes "trash_laws S live"
    and "js_listTransactions S w b (Some (''account:'' @ [CHR 0x27] @ dt_accountName d @ [CHR 0x27])) = Inr txs"
    and "cascadeDeleteInventoryTransactions S b d w = (r, w')"
  shows "if truthy (dt_originalQuantity d)
    then live w - ids_of (parts_of (dt_id d) txs) \<subseteq> live w' \<and> live w' \<subseteq> live w
      \<and> (\<forall>answer. r = Inr answer \<longrightarrow> live w' = live w - ids_of (parts_of (dt_id d) txs)
           \<and> map t_id (case answer of Some ts \<Rightarrow> ts | None \<Rightarrow> []) = map t_id (parts_of (dt_id d) txs)
           \<and> (answer = None \<longleftrightarrow> parts_of (dt_id d) txs = []))
    else r = Inr None \<and> w' = w"
proof (cases "truthy (dt_originalQuantity d)")
  case True
  obtain u w1 where u: "trash_splits S (dt_id d) txs [] w = (u, w1)" by (cases "trash_splits S (dt_id d) txs [] w")
  with assms(3) True have r: "r = (case u of Inl err \<Rightarrow> Inl err | Inr ts \<Rightarrow> Inr (some_if_any ts))" and w1: "w1 = w'"
    by (auto simp: cascadeDeleteInventoryTransactions_def assms(2) [simplified] bindA_def split: sum.splits)
  note effect = trash_splits_effect [OF assms(1) u]
  have "live w' = live w - ids_of (parts_of (dt_id d) txs)
      \<and> map t_id (case answer of Some ts \<Rightarrow> ts | None \<Rightarrow> []) = map t_id (parts_of (dt_id d) txs)
      \<and> (answer = None \<longleftrightarrow> parts_of (dt_id d) txs = [])" if "r = Inr answer" for answer
  proof -
    from that r obtain ts where "u = Inr ts" and answer: "answer = some_if_any ts" by (cases u) auto
    with effect have "live w1 = live w - ids_of (parts_of (dt_id d) txs)"
      and ids: "map t_id ts = map t_id (parts_of (dt_id d) txs)" by auto
    moreover have "ts = [] \<longleftrightarrow> parts_of (dt_id d) txs = []" using ids by (metis map_is_Nil_conv)
    ultimately show ?thesis unfolding answer w1 [symmetric] by (simp add: some_if_any_def)
  qed
  with True effect w1 show ?thesis by simp
next
  case False
  with assms(3) show ?thesis by (simp add: cascadeDeleteInventoryTransactions_def)
qed

text \<open>
  A purchase of ten of which two parts were split off, one of them checked; the service
  answers the query for the account with all transactions of the book.
\<close>

definition parts_js :: "demo bkper_js" where
  "parts_js = demo_js\<lparr>js_listTransactions := \<lambda>w b q. Inr (d_transactions w (b_id b))\<rparr>"

definition parts_world :: demo where
  "parts_world = demo_world\<lparr>d_transactions := \<lambda>b.
     [demo_purchase ''p1'' 20240105 4 100,
      (demo_purchase ''q1'' 20240105 3 100)\<lparr>t_properties := [PARENT_ID \<mapsto> ''p1''], t_checked := True\<rparr>,
      demo_sale ''s1'' 20240115 6,
      (demo_purchase ''q2'' 20240105 3 100)\<lparr>t_properties := [PARENT_ID \<mapsto> ''p1'']\<rparr>]\<rparr>"

definition live_ids :: "demo \<Rightarrow> string set" where
  "live_ids w = ids_of (d_transactions w ''inv'') - {i. \<exists>t. Trash t \<in> set (d_calls w) \<and> t_id t = i}"

lemma parts_laws: "trash_laws parts_js live_ids"
  by (auto simp: trash_laws_def parts_js_def demo_js_def live_ids_def log_call_def)

theorem cascade_trashes_parts_witness:
  "live_ids parts_world = {''p1'', ''q1'', ''s1'', ''q2''}
   \<and> live_ids (snd (cascadeDeleteInventoryTransactions parts_js inventory_book
        \<lparr>dt_id = Some ''p1'', dt_originalQuantity = Some ''10'', dt_accountName = ''Widget''\<rparr> parts_world))
     = {''p1'', ''s1''}"
proof
  let ?d = "\<lparr>dt_id = Some ''p1'', dt_originalQuantity = Some ''10'', dt_accountName = ''Widget''\<rparr>"
  let ?ts = "d_transactions parts_world ''inv''"
  show live: "live_ids parts_world = {''p1'', ''q1'', ''s1'', ''q2''}"
    by (auto simp: live_ids_def parts_world_def demo_world_def demo_tx_defs)
  obtain r w' where run: "cascadeDeleteInventoryTransactions parts_js inventory_book ?d parts_world = (r, w')"
    by (cases "cascadeDeleteInventoryTransactions parts_js inventory_book ?d parts_world")
  have list: "js_listTransactions parts_js parts_world inventory_book
      (Some (''account:'' @ [CHR 0x27] @ dt_accountName ?d @ [CHR 0x27])) = Inr ?ts"
    by (simp add: parts_js_def inventory_book_def demo_book_def)
  have "\<exists>answer. r = Inr answer"
    using run by (auto simp: cascadeDeleteInventoryTransactions_def parts_js_def demo_js_def parts_world_def
        demo_world_def trash_splits_Cons uncheckAndTrash_def bindA_def log_call_def demo_tx_defs)
      (auto simp: trash_splits_def)
  with cascade_trashes_parts [OF parts_laws list run]
  have "live_ids w' = live_ids parts_world - ids_of (parts_of (Some ''p1'') ?ts)" by auto
  also have "\<dots> = {''p1'', ''s1''}"
    unfolding live by (auto simp: parts_world_def demo_tx_defs)
  finally show "live_ids (snd (cascadeDeleteInventoryTransactions parts_js inventory_book ?d parts_world)) = {''p1'', ''s1''}"
    using run by simp
qed

end
