(* ===== verification/MenuProperties.thy ===== *)
theory MenuProperties
  imports BotView EventsProperties
begin

text \<open>
  The menu: which accounts an operation runs on, what it reports, and the states the
  dialog can get into.
\<close>

section \<open>The dialog\<close>

text \<open>
  C28. Operations never overlap. In every state the dialog can reach, at most one call to
  the server is under way; while a calculation or a reset runs, all buttons are disabled
  and the operation works on the parameters the dialog shows.
\<close>

theorem one_operation_at_a_time:
  assumes "view_reachable v"
  shows "length (v_pending v) \<le> 1
    \<and> (\<forall>op ps. Run op ps \<in> set (v_pending v) \<longrightarrow> v_disabled v \<and> v_params v = ps \<and> ps \<noteq> None)"
  using view_reachable_inv [OF assms] view_inv_pending [OF view_reachable_inv [OF assms]]
  by (fastforce simp: view_inv_def)

text \<open>A session up to the answer of the server to the start of an operation.\<close>

definition demo_params :: context_params where
  "demo_params = \<lparr>cx_book = \<lparr>it_id = ''inv'', it_name = ''inv''\<rparr>, cx_account = None, cx_group = None\<rparr>"

definition demo_view :: "server_call list \<Rightarrow> view" where
  "demo_view cs =
     \<lparr>v_params = Some demo_params, v_disabled = True, v_list = [''<p>Widget</p>''], v_pending = cs, v_alerts = []\<rparr>"

lemma demo_view_validating: "view_reachable (demo_view [Validate ''inv'' Calculate])"
proof -
  let ?l = "\<lparr>rq_bookId = ''fin'', rq_accountId = None, rq_groupId = None\<rparr>"
  let ?v0 = "view_init"
  let ?v1 = "loadTemplate ?l (answered GetLocation ?v0)"
  let ?v2 = "setParams demo_params (answered (GetContextParams ?l) ?v1)"
  let ?v3 = "showAccountsList [(''Widget'', ''w'')] (answered (GetAccountsToCalculate demo_params) ?v2)"
  have "view_reachable ?v1" by (rule view_reachable.step [OF view_reachable.start view_step.location]) (simp add: view_defs)
  then have "view_reachable ?v2" by (rule view_reachable.step [OF _ view_step.params]) (simp add: view_defs)
  then have "view_reachable ?v3" by (rule view_reachable.step [OF _ view_step.accounts]) (simp add: view_defs)
  then have "view_reachable (view_calculate ?v3)"
    by (rule view_reachable.step [OF _ view_step.click_calculate]) (simp add: view_defs)
  moreover have "view_calculate ?v3 = demo_view [Validate ''inv'' Calculate]"
    by (simp add: view_defs demo_view_def demo_params_def)
  ultimately show ?thesis by simp
qed

lemma demo_view_running: "view_reachable (demo_view [Run Calculate (Some demo_params)])"
proof -
  have "fireForAll Calculate (answered (Validate ''inv'' Calculate) (demo_view [Validate ''inv'' Calculate]))
      = demo_view [Run Calculate (Some demo_params)]"
    by (simp add: view_defs demo_view_def)
  moreover have "view_step (demo_view [Validate ''inv'' Calculate])
      (fireForAll Calculate (answered (Validate ''inv'' Calculate) (demo_view [Validate ''inv'' Calculate])))"
    by (rule view_step.validated) (simp add: demo_view_def)
  ultimately show ?thesis using view_reachable.step [OF demo_view_validating] by simp
qed

theorem one_operation_at_a_time_witness:
  "v_disabled (demo_view [Run Calculate (Some demo_params)])
   \<and> v_params (demo_view [Run Calculate (Some demo_params)]) = Some demo_params"
  using one_operation_at_a_time [OF demo_view_running] by (simp add: demo_view_def)

text \<open>
  C29. A failure ends the dialog. When a call to the server fails, in any state the dialog
  can reach, all buttons stay disabled, the button that closes the window included, and
  no call is under way: there is no further step, although the user has only been shown
  an alert.
\<close>

theorem failure_freezes_dialog:
  assumes "view_reachable v" and "c \<in> set (v_pending v)" and "c \<noteq> GetLocation"
  shows "\<not> view_step (if has_failure_handler c then showError m (answered c v) else answered c v) v'"
proof
  assume step: "view_step (if has_failure_handler c then showError m (answered c v) else answered c v) v'"
  note inv = view_reachable_inv [OF assms(1)]
  have p: "v_pending v = [c]" using view_inv_pending [OF inv assms(2)] .
  then have d: "v_disabled v" using inv assms(3) by (auto simp: view_inv_def)
  from step p d show False by (cases rule: view_step.cases) (auto simp: view_defs split: if_splits)
qed

theorem failure_freezes_dialog_witness:
  "\<nexists>v'. view_step (showError ''Cannot start operation: Inventory Book has pending tasks''
      (answered (Validate ''inv'' Calculate) (demo_view [Validate ''inv'' Calculate]))) v'"
  using failure_freezes_dialog [OF demo_view_validating, of "Validate ''inv'' Calculate"
      "''Cannot start operation: Inventory Book has pending tasks''"]
  by (simp add: demo_view_def has_failure_handler_def)

text \<open>
  C36. Operations end. From every state the dialog can reach, the server is asked at most
  three times in a row: a sequence of answers has at most three steps, and when the last
  call has been answered none is under way.
\<close>

theorem operations_end:
  assumes "view_reachable v" and "(answer_step ^^ n) v v'"
  shows "n \<le> 3 \<and> (n = 3 \<longrightarrow> v_pending v' = [])"
proof -
  note inv = view_reachable_inv [OF assms(1)]
  have "n + view_rank v' \<le> 3"
    using answer_steps_rank [OF inv assms(2)] view_rank_le_3 [OF inv] by simp
  moreover have "v_pending v' = []" if "view_rank v' = 0"
    using that by (cases "v_pending v'") (simp_all add: view_rank_def)
  ultimately show ?thesis by simp
qed

theorem operations_end_witness:
  "\<exists>v'. (answer_step ^^ 1) (demo_view [Run Calculate (Some demo_params)]) v' \<and> v_pending v' = [] \<and> (1 :: nat) \<le> 3"
proof -
  let ?v = "demo_view [Run Calculate (Some demo_params)]"
  let ?w = "showResults [(''Widget'', ''Calculated'')] (answered (Run Calculate (Some demo_params)) ?v)"
  have "view_step ?v ?w" by (rule view_step.results) (simp add: demo_view_def)
  then have step: "(answer_step ^^ 1) ?v ?w" by (auto simp: answer_step_def demo_view_def view_defs)
  with operations_end [OF demo_view_running step] show ?thesis by (auto simp: demo_view_def view_defs)
qed

section \<open>The functions of the server\<close>

text \<open>
  The page and the parameters the client fetches agree. The template of the page and
  the parameters of the dialog are computed by two functions; they fail alike and
  otherwise describe the same book, account and group.
\<close>

lemma page_and_params_agree:
  "getContextParams B w bookId accountId groupId =
     (case getBotViewTemplate B w bookId accountId groupId of
        Inl e \<Rightarrow> Inl e
      | Inr t \<Rightarrow> Inr \<lparr>cx_book = te_book t, cx_account = te_account t, cx_group = te_group t\<rparr>)"
  using template_params [of B w bookId accountId groupId] unfolding params_of_template_def .

text \<open>
  C30. A calculation of the whole book covers every good once. Without an account or a
  group in the context, the accounts to calculate are ordered by the text of their
  entries, no name occurs twice, and the names are exactly those of the asset accounts
  of the inventory book.
\<close>

theorem whole_book_covers_assets:
  assumes "getInventoryBook B w (app_getBook B w (it_id (cx_book ps))) = Some ib"
    and "cx_account ps = None" and "cx_group ps = None"
  shows "\<exists>accs. getAccountsToCalculate B w ps = Inr accs \<and> sorted (map entry_text accs)
    \<and> distinct (map fst accs)
    \<and> set (map fst accs) = a_name ` {a \<in> set (app_getAccounts B w ib). a_type a = ASSET}"
proof -
  let ?m = "asset_map (app_getAccounts B w ib)"
  have "mset (map fst (sort_key entry_text ?m)) = mset (map fst ?m)" by simp
  then have "distinct (map fst (sort_key entry_text ?m)) = distinct (map fst ?m)"
    by (rule mset_eq_imp_distinct_iff)
  moreover have "getAccountsToCalculate B w ps = Inr (sort_key entry_text ?m)"
    using assms by (simp add: getAccountsToCalculate_def Let_def)
  ultimately show ?thesis using asset_map_names [of "app_getAccounts B w ib"] by auto
qed

theorem whole_book_covers_assets_witness:
  "\<exists>accs. getAccountsToCalculate demo_app demo_world demo_params = Inr accs \<and> set (map fst accs) = {''Widget''}"
proof -
  have "getInventoryBook demo_app demo_world (app_getBook demo_app demo_world (it_id (cx_book demo_params)))
      = Some inventory_book"
    by (simp add: getInventoryBook_def demo_defs demo_params_def)
  moreover have "{a \<in> set (app_getAccounts demo_app demo_world inventory_book). a_type a = ASSET} = {widget}"
    by (auto simp: demo_app_def demo_world_def widget_def)
  ultimately obtain accs where "getAccountsToCalculate demo_app demo_world demo_params = Inr accs"
    "set (map fst accs) = a_name ` {widget}"
    using whole_book_covers_assets [of demo_app demo_world demo_params inventory_book]
    by (auto simp: demo_params_def)
  then show ?thesis by (simp add: widget_def)
qed

text \<open>
  C31. A reset ignores the context of the dialog. Whatever account or group the dialog was
  opened for, the accounts to reset are all asset accounts of the inventory book, while
  the calculation of the same dialog is restricted to the account.
\<close>

theorem reset_ignores_context:
  assumes "cx_account ps = Some a"
    and "getInventoryBook B w (app_getBook B w (it_id (cx_book ps))) = Some ib"
    and "app_getAccount B w ib (Some (it_id a)) = Some account"
  shows "getAccountsToReset B w ps = Inr (filter (\<lambda>a. a_type a = ASSET) (app_getAccounts B w ib))
    \<and> getAccountsToCalculate B w ps = Inr [(a_name account, a_id account)]"
  using assms by (simp add: getAccountsToReset_def getAccountsToCalculate_def map_set_def map_empty_def Let_def)

theorem reset_ignores_context_witness:
  "getAccountsToReset demo_app (demo_world\<lparr>d_accounts := (\<lambda>b. [widget, widget\<lparr>a_id := ''g'', a_name := ''Gadget''\<rparr>])\<rparr>)
     (demo_params\<lparr>cx_account := Some \<lparr>it_id = ''w'', it_name = ''Widget''\<rparr>\<rparr>)
   = Inr [widget, widget\<lparr>a_id := ''g'', a_name := ''Gadget''\<rparr>]"
proof -
  let ?w = "demo_world\<lparr>d_accounts := (\<lambda>b. [widget, widget\<lparr>a_id := ''g'', a_name := ''Gadget''\<rparr>])\<rparr>"
  let ?ps = "demo_params\<lparr>cx_account := Some \<lparr>it_id = ''w'', it_name = ''Widget''\<rparr>\<rparr>"
  have "getAccountsToReset demo_app ?w ?ps =
      Inr (filter (\<lambda>a. a_type a = ASSET) (app_getAccounts demo_app ?w inventory_book))"
    using reset_ignores_context [of ?ps "\<lparr>it_id = ''w'', it_name = ''Widget''\<rparr>" demo_app ?w inventory_book widget]
    by (simp add: getInventoryBook_def demo_defs demo_params_def)
  then show ?thesis by (simp add: demo_app_def widget_def)
qed

lemma forA_results:
  assumes "forA (\<lambda>x rs. bindA (f x) (\<lambda>s. returnA (rs @ [g x s]))) xs rs w = (Inr rs', w')"
    and "\<And>x s. k (g x s) = j x"
  shows "map k rs' = map k rs @ map j xs"
  using assms(1)
proof (induction xs arbitrary: rs w)
  case Nil
  then show ?case by simp
next
  case (Cons x xs)
  from Cons.prems [unfolded forA.simps] obtain y w1 where
    step: "bindA (f x) (\<lambda>s. returnA (rs @ [g x s])) w = (Inr y, w1)" and
    rest: "forA (\<lambda>x rs. bindA (f x) (\<lambda>s. returnA (rs @ [g x s]))) xs y w1 = (Inr rs', w')"
    by (rule bindA_InrE)
  from step obtain s where "y = rs @ [g x s]" by (elim bindA_InrE) auto
  with Cons.IH [OF rest] show ?case by (simp add: assms(2))
qed

text \<open>
  Every account gets one line of the report. A calculation that returns reports, in
  the order of the accounts, one result for each account to calculate and nothing else.
\<close>

lemma one_result_per_account:
  assumes "calculateCostOfSales A B ps d w = (Inr results, w')"
  shows "\<exists>accs. getAccountsToCalculate B w ps = Inr accs \<and> map fst results = map fst accs"
proof -
  from assms obtain accs w1 where accs: "getAccountsToCalculate B w ps = Inr accs" and
    loop: "forA (\<lambda>(accountName, accountId) results.
         bindA (calculateCostOfSalesForAccount A B (it_id (cx_book ps)) accountId d) (\<lambda>summary.
           returnA (results @ [(accountName, s_result summary)]))) accs [] w1 = (Inr results, w')"
    unfolding calculateCostOfSales_def by (auto elim!: bindA_InrE)
  have "(\<lambda>(accountName, accountId) results.
         bindA (calculateCostOfSalesForAccount A B (it_id (cx_book ps)) accountId d) (\<lambda>summary.
           returnA (results @ [(accountName, s_result summary)]))) =
      (\<lambda>x results. bindA (calculateCostOfSalesForAccount A B (it_id (cx_book ps)) (snd x) d) (\<lambda>summary.
           returnA (results @ [(fst x, s_result summary)])))"
    by (auto simp: fun_eq_iff)
  from forA_results [OF loop [unfolded this], of fst fst] accs show ?thesis by simp
qed

lemma one_result_per_account_witness:
  "\<exists>results w'. calculateCostOfSales decimal_lib demo_app demo_params None demo_world = (Inr results, w')
     \<and> (\<exists>accs. getAccountsToCalculate demo_app demo_world demo_params = Inr accs \<and> map fst results = map fst accs)"
proof -
  have accs: "getAccountsToCalculate demo_app demo_world demo_params = Inr [(''Widget'', ''w'')]"
    by (simp add: getAccountsToCalculate_def getInventoryBook_def demo_params_def demo_defs asset_map_def
        map_set_def map_empty_def)
  obtain w' where "calculateCostOfSalesForAccount decimal_lib demo_app ''inv'' ''w'' None demo_world
     = (Inr (calculatingAsync (new_Summary ''w'')), w')" using demo_calculate by blast
  then have run: "\<exists>results w'. calculateCostOfSales decimal_lib demo_app demo_params None demo_world = (Inr results, w')"
    by (simp add: calculateCostOfSales_def bindA_def accs) (simp add: demo_params_def)
  then show ?thesis using one_result_per_account by metis
qed

section \<open>Sales without an invoice\<close>

text \<open>
  A sale without an invoice number is not replicated. The README calls the property
  \<open>sale_invoice\<close> of a sale optional; a payload that names the good and the quantity but has
  no invoice and is no credit note posts nothing, and the handler answers nothing.
\<close>

lemma uninvoiced_sale_is_ignored:
  assumes "complete_payload A t q" and "truthy (tp_prop t GOOD_PROP)"
    and "\<not> truthy (tp_prop t SALE_INVOICE_PROP)" and "\<not> truthy (tp_prop t PURCHASE_INVOICE_PROP)"
    and "\<not> truthy (tp_prop t CREDIT_NOTE_PROP)"
  shows "checked_notFound A S ib t exc w = (Inr None, w)"
  using assms(3-5) by (simp add: checked_notFound_complete [OF assms(1)])

lemma uninvoiced_sale_is_ignored_witness:
  "checked_notFound decimal_lib demo_js inventory_book
     (demo_payload ''f2'' 4 80 supplier_payload supplier_payload [GOOD_PROP \<mapsto> ''Widget'']) None demo_world
   = (Inr None, demo_world)"
  by (rule uninvoiced_sale_is_ignored [where q = 4])
    (simp_all add: complete_payload_def payload_defs ev_getQuantity_def tp_prop_def trim_show_amount decimal_lib_def)

end
