(* ===== verification/ResetRoundTrip.thy ===== *)
theory ResetRoundTrip
  imports ResetProperties
begin

text \<open>
  Reset after a whole calculation, returned goods and split purchases included: the
  transactions of the account come back as they were, and exactly the ones the
  calculation created go to the trash.
\<close>

section \<open>What a reset sends\<close>

text \<open>A batch of references that gets, one by one, the transactions with a property.\<close>

lemma reset_loop_batch:
  assumes "\<And>r st st'. reset_transaction A B w fb r st = Inr st' \<Longrightarrow> batch (rs_processor st') =
      (if P (rs_store st r) then map_set (t_id (rs_store st r)) r (batch (rs_processor st)) else batch (rs_processor st))"
    and "forR (reset_transaction A B w fb) rs st = Inr st'" and "distinct rs"
  shows "batch (rs_processor st') =
     js.set_all (map (\<lambda>r. (t_id (rs_store st r), r)) (filter (\<lambda>r. P (rs_store st r)) rs)) (batch (rs_processor st))"
  using assms(2,3)
proof (induction rs arbitrary: st)
  case Nil
  then show ?case by (simp add: js.set_all_def)
next
  case (Cons r rs)
  from Cons.prems(1) obtain st1 where step: "reset_transaction A B w fb r st = Inr st1"
    and rest: "forR (reset_transaction A B w fb) rs st1 = Inr st'" by auto
  have same: "rs_store st1 i = rs_store st i" if "i \<in> set rs" for i
    using that Cons.prems(2) reset_transaction_trash(3) [OF step, of i] by auto
  then have "filter (\<lambda>r. P (rs_store st1 r)) rs = filter (\<lambda>r. P (rs_store st r)) rs"
    by (intro filter_cong) simp_all
  then show ?case
    using Cons.IH [OF rest] Cons.prems(2)
    by (simp add: assms(1) [OF step] reset_transaction_trash(2) [OF step] js.set_all_def)
qed

lemma reset_collect_batch:
  assumes "\<And>r st st'. reset_transaction A B w fb r st = Inr st' \<Longrightarrow> batch (rs_processor st') =
      (if P (rs_store st r) then map_set (t_id (rs_store st r)) r (batch (rs_processor st)) else batch (rs_processor st))"
    and "batch (new_ResetCostOfSalesProcessor ib fb) = map_empty"
    and "reset_collect A B w ib fb ts = Inr st" and "distinct (map t_id ts)"
  shows "map_values (batch (rs_processor st)) = filter (\<lambda>i. P (ts ! i)) [0..<length ts]"
proof -
  let ?kvs = "map (\<lambda>i. (t_id (ts ! i), i)) (filter (\<lambda>i. P (ts ! i)) [0..<length ts])"
  have "map (\<lambda>i. t_id (ts ! i)) [0..<length ts] = map t_id ts" by (rule nth_equalityI) simp_all
  then have "distinct (map (\<lambda>i. t_id (ts ! i)) [0..<length ts])" using assms(4) by simp
  then have "distinct (map (\<lambda>i. t_id (ts ! i)) (filter (\<lambda>i. P (ts ! i)) [0..<length ts]))"
    by (rule distinct_map_filter)
  then have "distinct (map fst ?kvs)" by (simp add: comp_def)
  moreover have "batch (rs_processor st) = js.set_all ?kvs map_empty"
    using reset_loop_batch [where batch = batch, OF assms(1) assms(3) [unfolded reset_collect_def]] assms(2) by simp
  ultimately show ?thesis by (simp add: set_all_empty map_values_def comp_def)
qed

text \<open>The transactions a reset updates: those of the bot with a log, an original quantity or a credit note.\<close>

definition resent :: "transaction \<Rightarrow> bool" where
  "resent t =
     (t_agentId t = Some AGENT_ID
      \<and> (truthy (t_prop t PURCHASE_LOG_PROP) \<or> truthy (t_prop t ORIGINAL_QUANTITY_PROP)
          \<or> truthy (t_prop t CREDIT_NOTE_PROP)))"

lemma rp_batch_frame [simp]:
  "rp_inventoryToUpdate (rp_setInventoryBookTransactionToTrash B w h r p) = rp_inventoryToUpdate p"
  "rp_inventoryToUpdate (rp_setFinancialBookTransactionToTrash B w t p) = rp_inventoryToUpdate p"
  "rp_inventoryToUpdate (rp_setInventoryBookTransactionToUpdate B w h r p) =
     map_set (t_id (h r)) r (rp_inventoryToUpdate p)"
  "rp_financialToTrash (rp_setInventoryBookTransactionToTrash B w h r p) = rp_financialToTrash p"
  "rp_financialToTrash (rp_setInventoryBookTransactionToUpdate B w h r p) = rp_financialToTrash p"
  "rp_financialToTrash (rp_setFinancialBookTransactionToTrash B w t p) = map_set (t_id t) t (rp_financialToTrash p)"
  by (simp_all add: processor_defs)

lemma reset_purchase_update:
  assumes "reset_purchase A B w r st = Inr st'"
  shows "rp_inventoryToUpdate (rs_processor st') =
      (if truthy (t_prop (rs_store st r) ORIGINAL_QUANTITY_PROP) \<or> truthy (t_prop (rs_store st r) CREDIT_NOTE_PROP)
       then map_set (t_id (rs_store st r)) r (rp_inventoryToUpdate (rs_processor st))
       else rp_inventoryToUpdate (rs_processor st))"
    and "rp_financialToTrash (rs_processor st') = rp_financialToTrash (rs_processor st)"
  using assms
  by (auto simp: reset_purchase_def reset_root_purchase_def Let_def split: if_splits)

lemma reset_sale_update:
  "rp_inventoryToUpdate (rs_processor (reset_sale B w fb r st)) =
     map_set (t_id (rs_store st r)) r (rp_inventoryToUpdate (rs_processor st))"
  by (simp add: reset_sale_def Let_def split: list.splits)

lemma reset_transaction_update:
  assumes "reset_transaction A B w fb r st = Inr st'"
  shows "rp_inventoryToUpdate (rs_processor st') =
     (if resent (rs_store st r) then map_set (t_id (rs_store st r)) r (rp_inventoryToUpdate (rs_processor st))
      else rp_inventoryToUpdate (rs_processor st))"
  using assms reset_purchase_update(1) [of A B w r "after_uncheck r st" st']
  by (auto simp: reset_transaction_eq resent_def reset_sale_update split: if_splits)

lemma reset_batches:
  assumes "reset_collect A B w ib fb ts = Inr st" and "distinct (map t_id ts)"
  shows "map_values (rp_inventoryToTrash (rs_processor st)) = filter (\<lambda>i. is_split (ts ! i)) [0..<length ts]"
    and "map_values (rp_inventoryToUpdate (rs_processor st)) = filter (\<lambda>i. resent (ts ! i)) [0..<length ts]"
  by (rule reset_collect_batch [OF reset_transaction_trash(1) _ assms]
      reset_collect_batch [OF reset_transaction_update _ assms];
      simp add: new_ResetCostOfSalesProcessor_def)+

text \<open>The cost of sales transaction that a reset finds for a charged sale of the bot.\<close>

definition charge_of :: "'w bkper_app \<Rightarrow> 'w \<Rightarrow> book \<Rightarrow> transaction \<Rightarrow> transaction option" where
  "charge_of B w fb t =
     (if t_agentId t = Some AGENT_ID \<and> truthy (t_prop t PURCHASE_LOG_PROP)
      then (case app_getTransactions B w fb (''remoteId:'' @ t_id t) of [] \<Rightarrow> None | c # _ \<Rightarrow> Some c) else None)"

lemma reset_transaction_financial:
  assumes "reset_transaction A B w fb r st = Inr st'"
  shows "rp_financialToTrash (rs_processor st') =
     (case charge_of B w fb (rs_store st r) of None \<Rightarrow> rp_financialToTrash (rs_processor st)
      | Some c \<Rightarrow> map_set (t_id c) (c\<lparr>t_checked := False\<rparr>) (rp_financialToTrash (rs_processor st)))"
  using assms reset_purchase_update(2) [of A B w r "after_uncheck r st" st']
  by (auto simp: reset_transaction_eq charge_of_def reset_sale_def Let_def split: if_splits list.splits)

definition has_key :: "'k \<Rightarrow> ('k, 'v) js_map \<Rightarrow> bool" where
  "has_key k m = (k \<in> fst ` set m)"

lemma has_key_set [simp]: "has_key j (map_set k v m) = (j = k \<or> has_key j m)"
  by (auto simp: has_key_def map_set_def dom_update)

lemma keyed_has_key: "keyed_by f m \<Longrightarrow> has_key k m \<Longrightarrow> \<exists>v \<in> set (map_values m). f v = k"
  by (force simp: keyed_by_def has_key_def map_values_def)

lemma reset_loop_financial:
  assumes "forR (reset_transaction A B w fb) rs st = Inr st'" and "distinct rs"
    and "keyed_by t_id (rp_financialToTrash (rs_processor st))"
  shows "keyed_by t_id (rp_financialToTrash (rs_processor st'))
     \<and> (\<forall>k. has_key k (rp_financialToTrash (rs_processor st)) \<longrightarrow> has_key k (rp_financialToTrash (rs_processor st')))
     \<and> (\<forall>i \<in> set rs. \<forall>c. charge_of B w fb (rs_store st i) = Some c \<longrightarrow>
           has_key (t_id c) (rp_financialToTrash (rs_processor st')))"
  using assms
proof (induction rs arbitrary: st)
  case Nil
  then show ?case by simp
next
  case (Cons r rs)
  from Cons.prems(1) obtain st1 where step: "reset_transaction A B w fb r st = Inr st1"
    and rest: "forR (reset_transaction A B w fb) rs st1 = Inr st'" by auto
  note one = reset_transaction_financial [OF step]
  have "keyed_by t_id (rp_financialToTrash (rs_processor st1))"
    using Cons.prems(3) by (auto simp: one intro: keyed_by_set split: option.splits)
  note ih = Cons.IH [OF rest _ this]
  have "rs_store st1 i = rs_store st i" if "i \<in> set rs" for i
    using that Cons.prems(2) reset_transaction_trash(3) [OF step, of i] by auto
  with ih Cons.prems(2) show ?case by (auto simp: one split: option.splits)
qed

lemma reset_collect_financial:
  assumes "reset_collect A B w ib fb ts = Inr st" and "i < length ts" and "charge_of B w fb (ts ! i) = Some c"
  shows "\<exists>t \<in> set (map_values (rp_financialToTrash (rs_processor st))). t_id t = t_id c"
  using reset_loop_financial [OF assms(1) [unfolded reset_collect_def]] assms(2,3)
  by (auto simp: new_ResetCostOfSalesProcessor_def intro: keyed_has_key)

section \<open>What a calculation creates\<close>

definition only_parts :: "ref set \<Rightarrow> store \<Rightarrow> store \<Rightarrow> calc_processor \<Rightarrow> bool" where
  "only_parts R h0 h p =
     ((\<forall>i. t_id (h i) = t_id (h0 i))
      \<and> (\<forall>t \<in> set (map_values (cp_inventoryToCreate p)). \<exists>r \<in> R. part_of (h0 r) t))"

lemma part_of_id: "t_id t = t_id t' \<Longrightarrow> part_of t = part_of t'"
  by (simp add: part_of_def fun_eq_iff)

interpretation parts: run_invariant B R "\<lambda>_. only_parts R h0" for B R h0
proof unfold_locales
  fix w h and p :: calc_processor and t r n
  assume I: "only_parts R h0 h p"
  then show "only_parts R h0 h (cp_setInventoryBookTransactionToCreate B w t p)" if "r \<in> R" "part_of (h r) t"
    using that part_of_id [of "h r" "h0 r"]
    by (auto simp: only_parts_def processor_defs dest!: values_map_setD)
  from I show "only_parts R h0 h (cp_setInventoryBookTransactionToUpdate B w h r p)"
    and "only_parts R h0 h (cp_setFinancialBookTransactionToCreate B w t p)"
    and "only_parts R h0 h (p\<lparr>cp_generated := n\<rparr>)"
    by (simp_all add: only_parts_def processor_defs)
  show "only_parts R h0 h' p" if "\<And>r. tx_kept (h r) (h' r)" for h'
    using I that by (simp add: only_parts_def tx_kept_def)
qed

lemma only_parts_start: "only_parts R h h (new_CalculateCostOfSalesProcessor ib fb)"
  by (simp add: only_parts_def new_CalculateCostOfSalesProcessor_def js.values_empty)

section \<open>What the credit notes leave\<close>

lemma credit_note_step_others:
  assumes "credit_note_step A B w summary cn (h, p, m) = Inr (Inr (h', p', m'))" and "i \<notin> set (map_values m)"
  shows "map_values m' = map_values m \<and> (h' i = h i \<or> h' i = (h i)\<lparr>t_checked := True\<rparr>)"
proof (cases "map_get m (t_prop (h (snd cn)) PURCHASE_CODE_PROP)")
  case None
  with assms show ?thesis by (auto simp: credit_note_step_def split: prod.splits)
next
  case (Some r)
  with assms get_in_values [OF Some] show ?thesis
    by (auto simp: credit_note_step_def map_set_same Let_def split: prod.splits if_splits)
qed

lemma credit_note_loop_others:
  assumes "credit_note_loop A B w summary cns (h, p, m) = Inr (Inr (h', p', m'))" and "i \<notin> set (map_values m)"
  shows "h' i = h i \<or> h' i = (h i)\<lparr>t_checked := True\<rparr>"
  using assms
proof (induction cns arbitrary: h p m)
  case Nil
  then show ?case by simp
next
  case (Cons c cns)
  from Cons.prems(1) obtain h1 p1 m1 where
    step: "credit_note_step A B w summary c (h, p, m) = Inr (Inr (h1, p1, m1))"
    and rest: "credit_note_loop A B w summary cns (h1, p1, m1) = Inr (Inr (h', p', m'))"
    by (auto split: sum.splits)
  from credit_note_step_others [OF step Cons.prems(2)] Cons.IH [OF rest] Cons.prems(2) show ?case by auto
qed

section \<open>The account after a run\<close>

lemma run_account:
  assumes "number_laws A" and "ledger_ready A B w fb ts"
    and "committed A B ib fb g summary (\<lambda>i. ts ! i) (collect A (\<lambda>i. ts ! i) [0..<length ts]) w h' p' w1 w'"
  shows "\<forall>i \<in> set (open_refs isPurchase ts). worked_purchase (ts ! i) (h' i)"
    and "\<forall>i \<in> set (open_refs isSale ts). worked_sale (ts ! i) (h' i)"
    and "\<forall>i. i \<notin> set (open_refs isPurchase ts) \<union> set (open_refs isSale ts) \<longrightarrow>
           h' i = ts ! i \<or> h' i = (ts ! i)\<lparr>t_checked := True\<rparr>"
    and "only_parts (set (open_refs isPurchase ts)) (\<lambda>i. ts ! i) h' p'"
    and "run_result A B ib fb summary (\<lambda>i. ts ! i) (collect A (\<lambda>i. ts ! i) [0..<length ts]) w
           = Some (h', p', fifo_refs isSale ts, w1)"
proof -
  let ?c = "collect A (\<lambda>i. ts ! i) [0..<length ts]" and ?R = "set (open_refs isPurchase ts)"
  obtain h1 p1 where loop: "credit_note_loop A B w summary (co_creditNotes ?c)
       (\<lambda>i. ts ! i, new_CalculateCostOfSalesProcessor ib fb, co_purchases ?c) = Inr (Inr (h1, p1, co_purchases ?c))"
    and h1: "\<forall>i \<in> ?R. h1 i = after_returns ts (ts ! i)" "\<forall>i \<in> set (open_refs isSale ts). h1 i = ts ! i"
    by (rule credit_phase [OF assms(1,2)])
  note ready = ready_run [OF assms(2) h1] and coll = collect_ready [OF assms(2)]
  from assms(3) have run: "sales_loop A B fb ib summary (fifo_refs isPurchase ts) (fifo_refs isSale ts) (h1, p1) w
      = (Inr (Inr (h', p')), w1)"
    unfolding committed_def by (auto simp: loop coll(2,4) ready(1,2))
  then show "run_result A B ib fb summary (\<lambda>i. ts ! i) ?c w = Some (h', p', fifo_refs isSale ts, w1)"
    by (simp add: run_result_def loop coll(2,4) ready(1,2))
  have sets: "set (fifo_refs isPurchase ts) = ?R" "set (fifo_refs isSale ts) = set (open_refs isSale ts)"
    by (simp_all add: fifo_refs_def)
  note worked = sales_loop_worked [OF run set_fifo_refs(2) ready_disjoint [OF assms(2)], unfolded sets]
  have "worked_purchase t (after_returns ts t)" for t
    by (cases t) (simp add: worked_purchase_def after_returns_def)
  with worked h1(1) show "\<forall>i \<in> ?R. worked_purchase (ts ! i) (h' i)" by (metis worked_purchase_trans)
  show "\<forall>i \<in> set (open_refs isSale ts). worked_sale (ts ! i) (h' i)" using worked h1(2) by simp
  show "\<forall>i. i \<notin> ?R \<union> set (open_refs isSale ts) \<longrightarrow> h' i = ts ! i \<or> h' i = (ts ! i)\<lparr>t_checked := True\<rparr>"
    using worked credit_note_loop_others [OF loop] by (simp add: coll(4))
  have "only_parts ?R (\<lambda>i. ts ! i) h1 p1"
    using parts.inv_credit_note_loop [OF loop only_parts_start] by (simp add: coll(4))
  from parts.inv_sales_loop [OF run this] show "only_parts ?R (\<lambda>i. ts ! i) h' p'" by (simp add: sets)
qed

section \<open>The round trip\<close>

text \<open>A credit note as the bot wrote it, and a transaction the bot keeps an account of.\<close>

definition fresh_note :: "transaction \<Rightarrow> bool" where
  "fresh_note t =
     (t_agentId t = Some AGENT_ID \<and> \<not> t_checked t \<and> truthy (t_prop t CREDIT_NOTE_PROP)
      \<and> \<not> truthy (t_prop t PURCHASE_LOG_PROP) \<and> \<not> truthy (t_prop t ORIGINAL_QUANTITY_PROP))"

definition fresh :: "amount_lib \<Rightarrow> transaction \<Rightarrow> bool" where
  "fresh A t =
     (t_id t \<noteq> [] \<and> \<not> truthy (t_prop t PARENT_ID)
      \<and> (isPurchase t \<and> fresh_purchase A t \<or> isSale t \<and> fresh_sale t 
          \<or> isCreditNote t \<and> \<not> isPurchase t \<and> \<not> isSale t \<and> fresh_note t))"

text \<open>
  Documented behaviour: a transaction the bot creates is stored as it was sent, under an
  identifier of its own and with the bot as its agent.
\<close>

definition stored_as :: "transaction \<Rightarrow> transaction \<Rightarrow> bool" where
  "stored_as t t' = (t' = t\<lparr>t_id := t_id t', t_agentId := Some AGENT_ID\<rparr>)"

lemma stored_part:
  assumes "stored_as t t'" and "part_of u t" and "t_id u \<noteq> []"
  shows "is_split t'" and "reset_value A t' = Inr (t'\<lparr>t_checked := False\<rparr>)"
proof -
  obtain i where t': "t' = t\<lparr>t_id := i, t_agentId := Some AGENT_ID\<rparr>"
    using assms(1) unfolding stored_as_def by blast
  show "is_split t'" "reset_value A t' = Inr (t'\<lparr>t_checked := False\<rparr>)"
    using assms(2,3) by (auto simp: t' is_split_def part_of_def reset_value_def truthy_def)
qed

lemma worked_purchase_parent:
  "worked_purchase t t' \<Longrightarrow> t_prop t' PARENT_ID = t_prop t PARENT_ID \<and> t_id t' = t_id t"
  by (cases t; cases t') (simp add: worked_purchase_def)

lemma worked_sale_parent:
  "worked_sale t t' \<Longrightarrow> t_prop t' PARENT_ID = t_prop t PARENT_ID \<and> t_id t' = t_id t"
  by (auto simp: worked_sale_def)

lemma worked_sale_log:
  assumes "worked_sale t t'"
  shows "t_agentId t' = t_agentId t" and "t' \<noteq> t \<Longrightarrow> truthy (t_prop t' PURCHASE_LOG_PROP)"
proof -
  consider "t' = t" | log total where "truthy (Some log)" "t' = t\<lparr>t_properties := (t_properties t)
      (TOTAL_COST_PROP := total, PURCHASE_LOG_PROP := Some log), t_checked := True\<rparr>"
    using assms unfolding worked_sale_def by blast
  then have "t_agentId t' = t_agentId t \<and> (t' = t \<or> truthy (t_prop t' PURCHASE_LOG_PROP))"
    by cases simp_all
  then show "t_agentId t' = t_agentId t" "t' \<noteq> t \<Longrightarrow> truthy (t_prop t' PURCHASE_LOG_PROP)" by simp_all
qed

lemma fresh_reset:
  assumes "fresh A t" and "\<not> (isSale t \<and> isPurchase t)" and "isPurchase t \<Longrightarrow> worked_purchase t t'"
    and "isSale t \<Longrightarrow> worked_sale t t'"
    and "\<not> isPurchase t \<Longrightarrow> \<not> isSale t \<Longrightarrow> t' = t \<or> t' = t\<lparr>t_checked := True\<rparr>"
  shows "reset_value A t' = Inr t" and "\<not> is_split t'" and "t_id t' = t_id t"
    and "t' \<noteq> t \<Longrightarrow> resent t'" and "t_agentId t' = Some AGENT_ID"
proof -
  consider "isPurchase t" "fresh_purchase A t" "worked_purchase t t'" | "isSale t" "fresh_sale t" "worked_sale t t'"
    | "fresh_note t" "t' = t \<or> t' = t\<lparr>t_checked := True\<rparr>"
    using assms by (auto simp: fresh_def)
  then have "reset_value A t' = Inr t \<and> t_prop t' PARENT_ID = t_prop t PARENT_ID \<and> t_id t' = t_id t
      \<and> (t' \<noteq> t \<longrightarrow> resent t') \<and> t_agentId t' = Some AGENT_ID"
  proof cases
    case 1
    moreover from 1(3) have "t_prop t' ORIGINAL_QUANTITY_PROP = t_prop t ORIGINAL_QUANTITY_PROP" "t_agentId t' = t_agentId t"
      by (simp add: worked_purchase_def, cases t, cases t', simp add: worked_purchase_def)
    ultimately show ?thesis using reset_worked_purchase [OF 1(2,3)] worked_purchase_parent [OF 1(3)]
      by (simp add: resent_def fresh_purchase_def)
  next
    case 2
    then show ?thesis using reset_worked_sale [OF 2(2,3)] worked_sale_parent [OF 2(3)] worked_sale_log [OF 2(3)]
      by (auto simp only: resent_def fresh_sale_def)
  next
    case 3
    then show ?thesis by (cases t) (auto simp: fresh_note_def reset_value_def resent_def)
  qed
  then show "reset_value A t' = Inr t" "\<not> is_split t'" "t_id t' = t_id t" "t' \<noteq> t \<Longrightarrow> resent t'"
    "t_agentId t' = Some AGENT_ID"
    using assms(1) by (auto simp: fresh_def is_split_def)
qed

text \<open>What it takes for a reset to undo a run that left \<open>h\<close> and whose created transactions are stored as \<open>us\<close>.\<close>

definition undone :: "'w bkper_app \<Rightarrow> 'w \<Rightarrow> book \<Rightarrow> transaction list \<Rightarrow> store \<Rightarrow> transaction list \<Rightarrow> reset_state \<Rightarrow> bool" where
  "undone B w fb ts h us st =
     (map (rs_store st) [0..<length ts] = ts
      \<and> (\<forall>i < length ts. h i \<noteq> ts ! i \<longrightarrow> i \<in> set (map_values (rp_inventoryToUpdate (rs_processor st))))
      \<and> map_values (rp_inventoryToTrash (rs_processor st)) = [length ts..<length ts + length us]
      \<and> (\<forall>i < length ts. truthy (t_prop (h i) PURCHASE_LOG_PROP) \<longrightarrow>
           (\<forall>c cs. app_getTransactions B w fb (''remoteId:'' @ t_id (ts ! i)) = c # cs \<longrightarrow>
              (\<exists>t \<in> set (map_values (rp_financialToTrash (rs_processor st))). t_id t = t_id c))))"

lemma reset_undoes_committed:
  assumes "number_laws A" and "ledger_ready A B w fb ts" and "\<forall>t \<in> set ts. fresh A t"
    and "committed A B ib fb g summary (\<lambda>i. ts ! i) (collect A (\<lambda>i. ts ! i) [0..<length ts]) w h' p' w1 w'"
    and "list_all2 stored_as (map_values (cp_inventoryToCreate p')) us" and "distinct (map t_id (ts @ us))"
  shows "\<exists>st. reset_collect A B w2 ib2 fb2 (map h' [0..<length ts] @ us) = Inr st \<and> undone B w2 fb2 ts h' us st"
proof -
  let ?n = "length ts" and ?all = "map h' [0..<length ts] @ us"
  note account = run_account [OF assms(1,2,4)]
  have old: "reset_value A (h' i) = Inr (ts ! i)" "\<not> is_split (h' i)" "t_id (h' i) = t_id (ts ! i)"
    "h' i \<noteq> ts ! i \<Longrightarrow> resent (h' i)" "t_agentId (h' i) = Some AGENT_ID" if i: "i < ?n" for i
  proof -
    have t: "fresh A (ts ! i)" "\<not> (isSale (ts ! i) \<and> isPurchase (ts ! i))"
      using i assms(2,3) by (auto simp: ledger_ready_def)
    then have open_i: "\<not> t_checked (ts ! i)"
      by (auto simp: fresh_def fresh_purchase_def fresh_sale_def fresh_note_def)
    have p: "worked_purchase (ts ! i) (h' i)" if "isPurchase (ts ! i)"
      using account(1) i open_i that by (simp add: set_open_refs)
    have s: "worked_sale (ts ! i) (h' i)" if "isSale (ts ! i)"
      using account(2) i open_i that by (simp add: set_open_refs)
    have o: "h' i = ts ! i \<or> h' i = (ts ! i)\<lparr>t_checked := True\<rparr>" if "\<not> isPurchase (ts ! i)" "\<not> isSale (ts ! i)"
      using account(3) that by (simp add: set_open_refs)
    from fresh_reset [OF t p s o] show "reset_value A (h' i) = Inr (ts ! i)" "\<not> is_split (h' i)"
      "t_id (h' i) = t_id (ts ! i)" "h' i \<noteq> ts ! i \<Longrightarrow> resent (h' i)" "t_agentId (h' i) = Some AGENT_ID" by blast+
  qed
  have new: "is_split u \<and> reset_value A u = Inr (u\<lparr>t_checked := False\<rparr>)" if "u \<in> set us" for u
  proof -
    obtain i where i: "i < length us" "u = us ! i" using \<open>u \<in> set us\<close> by (metis in_set_conv_nth)
    define t where "t = map_values (cp_inventoryToCreate p') ! i"
    have t: "t \<in> set (map_values (cp_inventoryToCreate p'))" "stored_as t u"
      using list_all2_nthD2 [OF assms(5) i(1)] list_all2_lengthD [OF assms(5)] i by (simp_all add: t_def)
    then obtain r where "r \<in> set (open_refs isPurchase ts)" "part_of (ts ! r) t"
      using account(4) by (auto simp: only_parts_def)
    moreover from this(1) have "t_id (ts ! r) \<noteq> []" using assms(3) by (simp add: set_open_refs fresh_def)
    ultimately show ?thesis using stored_part [OF t(2)] by blast
  qed
  define v where "v i = (if i < ?n then ts ! i else (us ! (i - ?n))\<lparr>t_checked := False\<rparr>)" for i
  have "reset_value A (?all ! i) = Inr (v i)" if "i < length ?all" for i
    using old(1) new that by (simp add: v_def nth_append)
  from reset_collect_values [OF allI [OF impI [OF this]], of B w2 ib2 fb2] obtain st where
    st: "reset_collect A B w2 ib2 fb2 ?all = Inr st" "\<forall>i < length ?all. rs_store st i = v i" by blast
  have ids: "distinct (map t_id ?all)"
  proof -
    have "map t_id ?all = map t_id (ts @ us)" using old(3) by (intro nth_equalityI) (simp_all add: nth_append)
    then show ?thesis using assms(6) by simp
  qed
  have "map (rs_store st) [0..<?n] = ts" using st(2) by (intro nth_equalityI) (simp_all add: v_def)
  moreover have "i \<in> set (map_values (rp_inventoryToUpdate (rs_processor st)))" if "i < ?n" "h' i \<noteq> ts ! i" for i
    using old(4) [OF that] that(1) by (simp add: reset_batches(2) [OF st(1) ids] nth_append)
  moreover have "map_values (rp_inventoryToTrash (rs_processor st)) = [?n..<?n + length us]"
  proof -
    have "[0..<length ?all] = [0..<?n] @ [?n..<?n + length us]"
      using upt_add_eq_append [of 0 ?n "length us"] by simp
    moreover have "filter (\<lambda>i. is_split (?all ! i)) [0..<?n] = []"
      using old(2) by (simp add: filter_empty_conv nth_append)
    moreover have "filter (\<lambda>i. is_split (?all ! i)) [?n..<?n + length us] = [?n..<?n + length us]"
      using new by (auto simp: filter_id_conv nth_append)
    ultimately show ?thesis by (simp only: reset_batches(1) [OF st(1) ids] filter_append append_Nil)
  qed
  moreover have "\<exists>t \<in> set (map_values (rp_financialToTrash (rs_processor st))). t_id t = t_id c"
    if "i < ?n" "truthy (t_prop (h' i) PURCHASE_LOG_PROP)"
      "app_getTransactions B w2 fb2 (''remoteId:'' @ t_id (ts ! i)) = c # cs" for i c cs
    using that old(3,5) [OF that(1)] by (intro reset_collect_financial [OF st(1), of i]) (simp_all add: charge_of_def nth_append)
  ultimately show ?thesis using st(1) unfolding undone_def by blast
qed

section \<open>The answer of a reset\<close>

text \<open>What a call of the reset finds: the account, its financial book and its transactions.\<close>

definition reset_finds ::
    "'w bkper_app \<Rightarrow> string \<Rightarrow> string \<Rightarrow> 'w \<Rightarrow> account \<Rightarrow> book \<Rightarrow> transaction list \<Rightarrow> bool" where
  "reset_finds B ibId gaId w account fb ts =
     (app_getAccount B w (app_getBook B w ibId) (Some gaId) = Some account
      \<and> getFinancialBook B w (app_getBook B w ibId) (getExchangeCode account) = Some fb
      \<and> app_getTransactions B w (app_getBook B w ibId) (getAccountQuery (a_name account) None None) = ts)"

lemma reset_lock_free:
  assumes "no_lock B w" and "reset_collect A B w ib fb ts = Inr st"
  shows "\<not> rp_isAnyTransactionLocked (rs_processor st)"
proof (rule forR_invariant [OF assms(2) [unfolded reset_collect_def], of "\<lambda>s. \<not> rp_isAnyTransactionLocked (rs_processor s)"])
  fix r s s'
  assume "\<not> rp_isAnyTransactionLocked (rs_processor s)" and "reset_transaction A B w fb r s = Inr s'"
  then show "\<not> rp_isAnyTransactionLocked (rs_processor s')"
    using assms(1)
    by (auto simp: reset_transaction_eq reset_sale_def reset_purchase_def reset_root_purchase_def processor_defs
        no_lock_def Let_def split: if_splits list.splits)
qed (simp add: new_ResetCostOfSalesProcessor_def)

lemma reset_answer:
  assumes "reset_finds B ibId gaId w account fb ts" and "no_lock B w"
    and "reset_collect A B w (app_getBook B w ibId) fb ts = Inr st"
  shows "resetCostOfSalesForAccount A B ibId gaId w =
     (Inr (resetingAsync (new_Summary gaId)),
      app_updateAccount B (app_getBook B w ibId) (ga_account (reset_account (new_GoodAccount account)))
        (rp_fireBatchOperations B (rs_store st) (rs_processor st) w))"
  using assms(1,3) reset_lock_free [OF assms(2,3)]
  by (simp add: reset_finds_def resetCostOfSalesForAccount_def Let_def)

section \<open>The round trip of the two services\<close>

text \<open>
  C11. Reset undoes a whole calculation. Take an account whose transactions are as the bot
  wrote them, with returned goods, and a call that calculates it. When a reset then finds
  the transactions as the run left them, followed by the ones it created, and no lock, it
  answers \<open>Reseted\<close>; in the batches it sends every transaction the run changed is back
  exactly as it was (quantity, cost, check mark and all properties), exactly the created
  transactions of the inventory book are trashed, and for every charged sale the cost of
  sales transaction that the financial book has for it.
\<close>

theorem reset_undoes_run:
  assumes "number_laws A" and "run_of A B ibId gaId d w r"
    and "r_store r = (\<lambda>i. ts ! i)" and "r_collected r = collect A (r_store r) [0..<length ts]"
    and "ledger_ready A B w (r_financialBook r) ts" and "\<forall>t \<in> set ts. fresh A t"
    and "calculateCostOfSalesForAccount A B ibId gaId d w = (Inr (calculatingAsync (new_Summary gaId)), w')"
  shows "\<exists>h p w1. fired A B ibId gaId r w = Some (h, p, fifo_refs isSale ts, w1)
     \<and> w' = storeLastCalcTxDate B (app_getBook B w ibId) h (new_GoodAccount (r_account r))
                      (fifo_refs isSale ts) (cp_fireBatchOperations B h p w1)
     \<and> (\<forall>us w2 account fb.
          list_all2 stored_as (map_values (cp_inventoryToCreate p)) us \<and> distinct (map t_id (ts @ us))
          \<and> reset_finds B ibId gaId w2 account fb (map h [0..<length ts] @ us) \<and> no_lock B w2 \<longrightarrow>
          (\<exists>st. reset_collect A B w2 (app_getBook B w2 ibId) fb (map h [0..<length ts] @ us) = Inr st
             \<and> undone B w2 fb ts h us st
             \<and> resetCostOfSalesForAccount A B ibId gaId w2 =
                 (Inr (resetingAsync (new_Summary gaId)),
                  app_updateAccount B (app_getBook B w2 ibId) (ga_account (reset_account (new_GoodAccount account)))
                    (rp_fireBatchOperations B (rs_store st) (rs_processor st) w2))))"
proof -
  obtain h p sales w1 where f: "fired A B ibId gaId r w = Some (h, p, sales, w1)"
    and w': "w' = storeLastCalcTxDate B (app_getBook B w ibId) h (new_GoodAccount (r_account r)) sales
           (cp_fireBatchOperations B h p w1)"
    and c: "committed A B (app_getBook B w ibId) (r_financialBook r) (new_GoodAccount (r_account r))
          (new_Summary gaId) (r_store r) (r_collected r) w h p w1 w'"
    by (rule calculate_fired [OF assms(7,2)])
  note c = c [unfolded assms(4) assms(3)]
  have sales: "sales = fifo_refs isSale ts"
    using run_account(5) [OF assms(1,5) c] f by (simp add: fired_def assms(3,4))
  have "\<exists>st. reset_collect A B w2 (app_getBook B w2 ibId) fb (map h [0..<length ts] @ us) = Inr st
      \<and> undone B w2 fb ts h us st
      \<and> resetCostOfSalesForAccount A B ibId gaId w2 =
          (Inr (resetingAsync (new_Summary gaId)),
           app_updateAccount B (app_getBook B w2 ibId) (ga_account (reset_account (new_GoodAccount account)))
             (rp_fireBatchOperations B (rs_store st) (rs_processor st) w2))"
    if us: "list_all2 stored_as (map_values (cp_inventoryToCreate p)) us" "distinct (map t_id (ts @ us))"
      and w2: "reset_finds B ibId gaId w2 account fb (map h [0..<length ts] @ us)" "no_lock B w2" for us w2 account fb
    using reset_undoes_committed [OF assms(1,5,6) c us] reset_answer [OF w2] by blast
  with f w' sales show ?thesis by blast
qed

definition part_id :: "nat \<Rightarrow> string" where
  "part_id i = ''part'' @ replicate i CHR ''x''"

definition stored :: "transaction list \<Rightarrow> transaction list" where
  "stored cs = map (\<lambda>i. (cs ! i)\<lparr>t_id := part_id i, t_agentId := Some AGENT_ID\<rparr>) [0..<length cs]"

definition books_after :: "transaction list \<Rightarrow> transaction list \<Rightarrow> demo" where
  "books_after ts costs = demo_world\<lparr>d_transactions := (\<lambda>b. if b = ''inv'' then ts else costs)\<rparr>"

lemma stored_ids: "distinct (map t_id (stored cs))" "k \<in> set (map t_id (stored cs)) \<Longrightarrow> \<exists>i. k = part_id i"
proof -
  have ids: "map t_id (stored cs) = map part_id [0..<length cs]" by (simp add: stored_def)
  have "inj part_id" by (rule injI) (simp add: part_id_def)
  then show "distinct (map t_id (stored cs))"
    unfolding ids distinct_map by (blast intro: distinct_upt inj_on_subset)
  show "k \<in> set (map t_id (stored cs)) \<Longrightarrow> \<exists>i. k = part_id i" unfolding ids by auto
qed

lemma stored_stored: "list_all2 stored_as cs (stored cs)"
  by (simp add: list_all2_conv_all_nth stored_def stored_as_def)

lemma return_fresh: "\<forall>t \<in> set return_ledger. fresh decimal_lib t"
proof -
  have t: "truthy (Some (show_amount q))" for q by (simp add: truthy_def show_amount_def)
  have n: "am_new decimal_lib (Some (show_amount x)) = Some x" "am_toString decimal_lib x = show_amount x" for x
    by (simp_all add: decimal_lib_def)
  have "fresh decimal_lib (demo_purchase i d q c)" if "i \<noteq> []" for i d q c
    using that by (simp add: fresh_def fresh_purchase_def isPurchase_def demo_tx_defs demo_defs t n)
  moreover have "fresh decimal_lib (demo_sale i d q)" if "i \<noteq> []" for i d q
    using that by (simp add: fresh_def fresh_sale_def isSale_def demo_tx_defs demo_defs)
  moreover have "fresh decimal_lib (return_ledger ! 2)"
    by (simp add: return_ledger_def fresh_def fresh_note_def isCreditNote_def isPurchase_def isSale_def truthy_def
        demo_tx_defs demo_defs)
  ultimately show ?thesis by (simp add: return_ledger_def)
qed

lemma return_ids: "distinct (map t_id (return_ledger @ stored cs))"
proof -
  have "t_id t \<noteq> part_id i" if "t \<in> set return_ledger" for t i
    using that by (auto simp: return_ledger_def demo_tx_defs part_id_def)
  then have "set (map t_id return_ledger) \<inter> set (map t_id (stored cs)) = {}"
    using stored_ids(2) [of _ cs] unfolding set_map by blast
  moreover have "distinct (map t_id return_ledger)" by (simp add: return_ledger_def demo_tx_defs)
  ultimately show ?thesis using stored_ids(1) by (simp only: map_append distinct_append)
qed

lemma books_after_found:
  "reset_finds demo_app ''inv'' ''w'' (books_after ts costs) widget financial_book ts"
  "no_lock demo_app (books_after ts costs)"
  by (simp_all add: reset_finds_def books_after_def getFinancialBook_def getExchangeCode_def getExcCode_def demo_defs
      Let_def trim_def is_space_def code_unit_def no_lock_def)

theorem reset_undoes_run_witness:
  "\<exists>h p w1 us w2 st.
     (\<exists>w'. calculateCostOfSalesForAccount decimal_lib demo_app ''inv'' ''w'' None (account_of return_ledger)
       = (Inr (calculatingAsync (new_Summary ''w'')), w'))
     \<and> fired decimal_lib demo_app ''inv'' ''w'' (account_run return_ledger) (account_of return_ledger)
         = Some (h, p, fifo_refs isSale return_ledger, w1)
     \<and> us = stored (map_values (cp_inventoryToCreate p))
     \<and> w2 = books_after (map h [0..<length return_ledger] @ us) (map_values (cp_financialToCreate p))
     \<and> undone demo_app w2 financial_book return_ledger h us st
     \<and> resetCostOfSalesForAccount decimal_lib demo_app ''inv'' ''w'' w2 =
         (Inr (resetingAsync (new_Summary ''w'')),
          app_updateAccount demo_app inventory_book (ga_account (reset_account (new_GoodAccount widget)))
            (rp_fireBatchOperations demo_app (rs_store st) (rs_processor st) w2))"
proof -
  let ?w = "account_of return_ledger"
  have b: "app_getBook demo_app w ''inv'' = inventory_book" for w by (simp add: demo_app_def)
  obtain w' where run: "calculateCostOfSalesForAccount decimal_lib demo_app ''inv'' ''w'' None ?w
       = (Inr (calculatingAsync (new_Summary ''w'')), w')"
    using return_calculates by blast
  from reset_undoes_run [OF decimal_lib_numbers account_run_of, of return_ledger return_ledger, unfolded return_run b,
        OF refl return_collected(1) return_ledger_ready return_fresh run]
  show ?thesis
  proof (elim exE conjE)
    fix h p w1
    assume f: "fired decimal_lib demo_app ''inv'' ''w'' (account_run return_ledger) (account_of return_ledger)
         = Some (h, p, fifo_refs isSale return_ledger, w1)"
    assume undo: "\<forall>us w2 account fb. list_all2 stored_as (map_values (cp_inventoryToCreate p)) us \<and> distinct (map t_id (return_ledger @ us))
      \<and> reset_finds demo_app ''inv'' ''w'' w2 account fb (map h [0..<length return_ledger] @ us) \<and> no_lock demo_app w2 \<longrightarrow>
      (\<exists>st. reset_collect decimal_lib demo_app w2 inventory_book fb (map h [0..<length return_ledger] @ us) = Inr st
         \<and> undone demo_app w2 fb return_ledger h us st
         \<and> resetCostOfSalesForAccount decimal_lib demo_app ''inv'' ''w'' w2 =
             (Inr (resetingAsync (new_Summary ''w'')),
              app_updateAccount demo_app inventory_book (ga_account (reset_account (new_GoodAccount account)))
                (rp_fireBatchOperations demo_app (rs_store st) (rs_processor st) w2)))"
    let ?us = "stored (map_values (cp_inventoryToCreate p))"
    let ?w2 = "books_after (map h [0..<length return_ledger] @ ?us) (map_values (cp_financialToCreate p))"
    obtain st where "undone demo_app ?w2 financial_book return_ledger h ?us st"
      "resetCostOfSalesForAccount decimal_lib demo_app ''inv'' ''w'' ?w2 =
         (Inr (resetingAsync (new_Summary ''w'')),
          app_updateAccount demo_app inventory_book (ga_account (reset_account (new_GoodAccount widget)))
            (rp_fireBatchOperations demo_app (rs_store st) (rs_processor st) ?w2))"
      using undo [rule_format, OF conjI [OF stored_stored conjI [OF return_ids conjI [OF books_after_found]]]] by blast
    with run f show ?thesis
      by (intro exI [of _ h] exI [of _ p] exI [of _ w1] exI [of _ ?us] exI [of _ ?w2] exI [of _ st]) simp
  qed
qed

end
