(* ===== verification/RebuildLock.thy ===== *)
theory RebuildLock
  imports ResetRoundTrip
begin

text \<open>
  A call of the calculation on an account that needs a rebuild: it resets the account, and
  what it answers when the reset meets a locked transaction.
\<close>

section \<open>A locked transaction stops a reset\<close>

lemma reset_transaction_book:
  "reset_transaction A B w fb r st = Inr st' \<Longrightarrow>
     rp_inventoryBook (rs_processor st') = rp_inventoryBook (rs_processor st)"
  by (auto simp: reset_transaction_eq reset_sale_def reset_purchase_def reset_root_purchase_def processor_defs
      split: if_splits list.splits)

lemma reset_transaction_lock_stays:
  "reset_transaction A B w fb r st = Inr st' \<Longrightarrow> rp_isAnyTransactionLocked (rs_processor st) \<Longrightarrow>
     rp_isAnyTransactionLocked (rs_processor st')"
  by (auto simp: reset_transaction_eq reset_sale_def reset_purchase_def reset_root_purchase_def processor_defs
      split: if_splits list.splits)

lemma reset_transaction_locks:
  assumes "locks_stable B" and "reset_transaction A B w fb r st = Inr st'" and "resent (rs_store st r)"
    and "app_isLocked B w (rp_inventoryBook (rs_processor st)) (rs_store st r)"
  shows "rp_isAnyTransactionLocked (rs_processor st')"
proof -
  have locked: "app_isLocked B w (rp_inventoryBook (rs_processor st)) t" if "t_date t = t_date (rs_store st r)" for t
    using assms(4) locks_stable_date [OF assms(1) that] by simp
  show ?thesis
    using assms(2,3)
    by (auto simp: reset_transaction_eq resent_def reset_sale_def reset_purchase_def reset_root_purchase_def
        processor_defs locked split: if_splits list.splits)
qed

lemma reset_loop_locked:
  assumes "locks_stable B" and "forR (reset_transaction A B w fb) rs st = Inr st'"
    and "rp_isAnyTransactionLocked (rs_processor st) \<or>
      (\<exists>r \<in> set rs. resent (rs_store st r) \<and> app_isLocked B w (rp_inventoryBook (rs_processor st)) (rs_store st r))"
    and "distinct rs"
  shows "rp_isAnyTransactionLocked (rs_processor st')"
  using assms(2-)
proof (induction rs arbitrary: st)
  case Nil
  then show ?case by simp
next
  case (Cons r rs)
  from Cons.prems(1) obtain st1 where step: "reset_transaction A B w fb r st = Inr st1"
    and rest: "forR (reset_transaction A B w fb) rs st1 = Inr st'" by auto
  have same: "rs_store st1 i = rs_store st i" if "i \<in> set rs" for i
    using that Cons.prems(3) reset_transaction_trash(3) [OF step, of i] by auto
  show ?case
    using Cons.IH [OF rest] Cons.prems(2,3) same reset_transaction_lock_stays [OF step]
      reset_transaction_locks [OF assms(1) step]
    by (auto simp: reset_transaction_book [OF step])
qed

lemma reset_meets_lock:
  assumes "locks_stable B" and "reset_finds B ibId gaId w account fb ts"
    and "\<forall>t \<in> set ts. \<exists>v. reset_value A t = Inr v"
    and "t \<in> set ts" and "resent t" and "app_isLocked B w (app_getBook B w ibId) t"
  shows "resetCostOfSalesForAccount A B ibId gaId w = (Inr (lockError (new_Summary gaId)), w)"
proof -
  let ?ib = "app_getBook B w ibId"
  have "\<forall>i < length ts. reset_value A (ts ! i) = Inr (projr (reset_value A (ts ! i)))"
    using assms(3) by (metis nth_mem sum.sel(2))
  from reset_collect_values [OF this, of B w ?ib fb] obtain st where st: "reset_collect A B w ?ib fb ts = Inr st" by blast
  obtain i where "i < length ts" "ts ! i = t" using assms(4) by (auto simp: in_set_conv_nth)
  with assms(5,6) have "rp_isAnyTransactionLocked (rs_processor st)"
    by (intro reset_loop_locked [OF assms(1) st [unfolded reset_collect_def]])
      (auto simp: new_ResetCostOfSalesProcessor_def)
  with st assms(2) show ?thesis
    by (simp add: reset_finds_def resetCostOfSalesForAccount_def Let_def)
qed

section \<open>The answer on a flagged account\<close>

text \<open>
  C37. A call on an account that needs a rebuild hides a locked book. When the account is
  flagged, its transactions can be read, and one of those that the reset has to write is
  locked, the reset stops with the error about the lock and changes nothing; the calculation answers that
  the account is being reset, without the error flag, and the platform is as it was, the
  flag included, so that every further call gives the same answer.
\<close>

theorem rebuild_hides_lock:
  assumes "locks_stable B" and "reset_finds B ibId gaId w account fb ts" and "needsRebuild (new_GoodAccount account)"
    and "\<forall>t \<in> set ts. \<exists>v. reset_value A t = Inr v"
    and "t \<in> set ts" and "resent t" and "app_isLocked B w (app_getBook B w ibId) t"
  shows "resetCostOfSalesForAccount A B ibId gaId w = (Inr (lockError (new_Summary gaId)), w)
     \<and> s_error (lockError (new_Summary gaId))
     \<and> calculateCostOfSalesForAccount A B ibId gaId d w = (Inr (rebuild (new_Summary gaId)), w)
     \<and> \<not> s_error (rebuild (new_Summary gaId))"
  using reset_meets_lock [OF assms(1,2,4-7)] assms(2,3)
  by (simp add: calculateCostOfSalesForAccount_def reset_finds_def bindA_def Let_def summary_defs)

definition flagged_world :: demo where
  "flagged_world =
     demo_world\<lparr>d_accounts := (\<lambda>b. [widget\<lparr>a_properties := [NEEDS_REBUILD_PROP \<mapsto> ''TRUE'']\<rparr>]),
       d_transactions := (\<lambda>b. if b = ''inv'' then [demo_purchase ''p1'' 20240105 10 100] else []),
       d_locked := [''2024-01-05'']\<rparr>"

theorem rebuild_hides_lock_witness:
  "calculateCostOfSalesForAccount decimal_lib demo_app ''inv'' ''w'' None flagged_world
     = (Inr (rebuild (new_Summary ''w'')), flagged_world)"
proof -
  let ?p = "demo_purchase ''p1'' 20240105 10 100" and ?a = "widget\<lparr>a_properties := [NEEDS_REBUILD_PROP \<mapsto> ''TRUE'']\<rparr>"
  have found: "reset_finds demo_app ''inv'' ''w'' flagged_world ?a financial_book [?p]"
    by (simp add: reset_finds_def flagged_world_def getFinancialBook_def getExchangeCode_def getExcCode_def demo_defs
        Let_def trim_def is_space_def code_unit_def)
  have n: "am_new decimal_lib (Some (show_amount x)) = Some x" for x by (simp add: decimal_lib_def)
  have some: "truthy (Some (show_amount q))" for q by (simp add: truthy_def show_amount_def)
  have readable: "\<forall>t \<in> set [?p]. \<exists>v. reset_value decimal_lib t = Inr v"
    by (simp add: reset_value_def demo_tx_defs n some)
  have resent: "resent ?p" by (simp add: resent_def demo_tx_defs some)
  have locked: "app_isLocked demo_app flagged_world (app_getBook demo_app flagged_world ''inv'') ?p"
    by (simp add: demo_app_def flagged_world_def demo_tx_defs)
  have flag: "needsRebuild (new_GoodAccount ?a)" by (simp add: needsRebuild_def new_GoodAccount_def)
  show ?thesis using rebuild_hides_lock [OF demo_locks_stable found flag readable _ resent locked, of None] by simp
qed

end
