(* ===== verification/CalculateOutcome.thy ===== *)
theory CalculateOutcome
  imports CalculateEndToEnd
begin

text \<open>
  What a calculation leaves behind: the batches, the calculation date of the account and
  the notes on the purchases it has worked on.
\<close>

section \<open>The batches\<close>

lemma committed_keyed:
  assumes "committed A B ib fb g summary h c w h' p' w1 w'"
  shows "batches_keyed h' p'"
proof -
  from assms obtain h1 p1 m1 where
    cn: "credit_note_loop A B w summary (co_creditNotes c)
          (h, new_CalculateCostOfSalesProcessor ib fb, co_purchases c) = Inr (Inr (h1, p1, m1))" and
    run: "sales_loop A B fb ib summary (sort_fifo h1 (map_values m1)) (sort_fifo h1 (co_sales c)) (h1, p1) w
            = (Inr (Inr (h', p')), w1)"
    unfolding committed_def by blast
  show ?thesis
    by (rule keyed.inv_sales_loop [OF run _ subset_UNIV])
      (use keyed.inv_credit_note_loop [OF cn batches_keyed_new subset_UNIV] in blast)
qed

text \<open>
  C17. The batches are well-formed: no transaction is sent twice. When a call returns
  \<open>Calculated\<close>, the transactions of the inventory batch of updates have pairwise different
  identifiers, and the transactions of each batch of creations pairwise different remote
  identifiers.
\<close>

theorem batches_have_no_duplicates:
  assumes "calculateCostOfSalesForAccount A B ibId gaId d w = (Inr (calculatingAsync (new_Summary gaId)), w')"
  shows "\<exists>r h p sales w1. run_of A B ibId gaId d w r \<and> fired A B ibId gaId r w = Some (h, p, sales, w1)
     \<and> w' = storeLastCalcTxDate B (app_getBook B w ibId) h (new_GoodAccount (r_account r)) sales
            (cp_fireBatchOperations B h p w1)
     \<and> distinct (map (\<lambda>i. t_id (h i)) (map_values (cp_inventoryToUpdate p)))
     \<and> distinct (map getRemoteId (map_values (cp_inventoryToCreate p)))
     \<and> distinct (map getRemoteId (map_values (cp_financialToCreate p)))"
proof -
  from calculate_success_run [OF assms] obtain r where r: "run_of A B ibId gaId d w r" ..
  obtain h p sales w1 where f: "fired A B ibId gaId r w = Some (h, p, sales, w1)"
    and w': "w' = storeLastCalcTxDate B (app_getBook B w ibId) h (new_GoodAccount (r_account r)) sales
            (cp_fireBatchOperations B h p w1)"
    and c: "committed A B (app_getBook B w ibId) (r_financialBook r) (new_GoodAccount (r_account r))
          (new_Summary gaId) (r_store r) (r_collected r) w h p w1 w'"
    by (rule calculate_fired [OF assms r])
  from batches_keyed_distinct [OF committed_keyed [OF c]] r f w' show ?thesis by metis
qed

theorem batches_have_no_duplicates_witness:
  "\<exists>w' r h p sales w1.
     calculateCostOfSalesForAccount decimal_lib demo_app ''inv'' ''w'' None demo_world
       = (Inr (calculatingAsync (new_Summary ''w'')), w')
     \<and> fired decimal_lib demo_app ''inv'' ''w'' r demo_world = Some (h, p, sales, w1)
     \<and> w' = storeLastCalcTxDate demo_app inventory_book h (new_GoodAccount (r_account r)) sales
            (cp_fireBatchOperations demo_app h p w1)
     \<and> distinct (map (\<lambda>i. t_id (h i)) (map_values (cp_inventoryToUpdate p)))"
proof -
  obtain w' where run: "calculateCostOfSalesForAccount decimal_lib demo_app ''inv'' ''w'' None demo_world
     = (Inr (calculatingAsync (new_Summary ''w'')), w')" using demo_calculate by blast
  have "app_getBook demo_app demo_world ''inv'' = inventory_book" by (simp add: demo_app_def)
  with batches_have_no_duplicates [OF run] run show ?thesis by metis
qed

section \<open>The calculation date\<close>

text \<open>
  Documented behaviour: the date value of a transaction is its ISO date without dashes.
\<close>

definition dated :: "transaction \<Rightarrow> bool" where
  "dated t = (t_date t \<noteq> [] \<and> string_to_number (replaceAll_dash (t_date t)) = Num (of_int (t_dateValue t)))"

lemma date_value_set:
  "dated t \<Longrightarrow> getCOGSCalculationDateValue (setCOGSCalculationDate (t_date t) g) = Some (Num (of_int (t_dateValue t)))"
  by (simp add: dated_def getCOGSCalculationDateValue_def getCOGSCalculationDate_def setCOGSCalculationDate_def truthy_def)

lemma js_le_total: "x \<noteq> NaN \<Longrightarrow> y \<noteq> NaN \<Longrightarrow> \<not> js_less x y \<Longrightarrow> js_le y x"
  by (cases x; cases y) (auto simp: js_le_def js_eq_def)

lemma js_le_trans: "js_le x y \<Longrightarrow> js_le y z \<Longrightarrow> js_le x z"
  by (cases x; cases y; cases z) (auto simp: js_le_def js_eq_def)

lemma sort_fifo_last_date:
  assumes "\<forall>s \<in> set rs. fifo_ok (h s)" and "s \<in> set rs"
  shows "t_dateValue (h s) \<le> t_dateValue (h (last (sort_fifo h rs)))"
proof -
  let ?ts = "sort_js compareToFIFO (map h rs)"
  have ok: "\<forall>t \<in> set (map h rs). fifo_ok t" using assms(1) by simp
  have ts: "?ts = map h (sort_fifo h rs)" by (simp add: map_sort_fifo)
  have ne: "sort_fifo h rs \<noteq> []" using assms(2) by auto
  have "h s \<in> set ?ts" using assms(2) by simp
  then have "fifo_key (h s) \<in> set (map fifo_key ?ts)" by simp
  moreover have "x \<le> last xs" if "sorted xs" "x \<in> set xs" for x and xs :: "(int \<times> int \<times> int) list"
    using that by (induction xs) auto
  ultimately have "fifo_key (h s) \<le> last (map fifo_key ?ts)" using sorted_fifo [OF ok] by blast
  also have "last (map fifo_key ?ts) = fifo_key (h (last (sort_fifo h rs)))"
    using ne by (simp add: ts last_map)
  finally show ?thesis by (auto simp: fifo_key_def less_eq_prod_def less_prod_def)
qed

text \<open>
  C18. The calculation date never moves backwards and covers the sales. For dated sales in
  FIFO order, the account the service keeps afterwards (the one it writes, or the one it
  had, if it writes none) has a calculation date that is at least the date of every sale
  of the run and at least the date stored before.
\<close>

theorem calculation_date_covers_sales:
  assumes "\<forall>s \<in> set rs. fifo_ok (h s) \<and> dated (h s)" and "rs \<noteq> []"
    and "getCOGSCalculationDateValue g \<noteq> Some NaN"
  shows "\<exists>w' g' v. storeLastCalcTxDate B ib h g (sort_fifo h rs) w = w'
     \<and> (w' = w \<and> g' = g \<or> w' = app_updateAccount B ib (ga_account g') w)
     \<and> getCOGSCalculationDateValue g' = Some v
     \<and> (\<forall>s \<in> set rs. js_le (Num (of_int (t_dateValue (h s)))) v)
     \<and> (\<forall>v0. getCOGSCalculationDateValue g = Some v0 \<longrightarrow> js_le v0 v)"
proof -
  let ?last = "h (last (sort_fifo h rs))" and ?old = "getCOGSCalculationDateValue g"
  let ?v = "Num (of_int (t_dateValue ?last))" and ?g = "setCOGSCalculationDate (t_date ?last) g"
  have "last (sort_fifo h rs) \<in> set (sort_fifo h rs)" using assms(2) by (intro last_in_set) simp
  then have date: "getCOGSCalculationDateValue ?g = Some ?v"
    using assms(1) by (intro date_value_set) simp
  have le: "js_le (Num (of_int (t_dateValue (h s)))) ?v" if "s \<in> set rs" for s
    using sort_fifo_last_date [of rs h s] assms(1) that by (auto simp: js_le_def js_eq_def)
  show ?thesis
  proof (cases "?old = None \<or> js_less (the ?old) ?v")
    case True
    then have "storeLastCalcTxDate B ib h g (sort_fifo h rs) w = app_updateAccount B ib (ga_account ?g) w"
      using assms(2) by (simp add: storeLastCalcTxDate_def Let_def)
    moreover have "\<forall>v0. ?old = Some v0 \<longrightarrow> js_le v0 ?v" using True by (auto simp: js_le_def)
    ultimately show ?thesis using date le by blast
  next
    case False
    then obtain v0 where v0: "?old = Some v0" and "\<not> js_less v0 ?v" by auto
    then have "js_le ?v v0" using assms(3) by (intro js_le_total) auto
    then have "\<forall>s \<in> set rs. js_le (Num (of_int (t_dateValue (h s)))) v0" using le js_le_trans by blast
    moreover have "storeLastCalcTxDate B ib h g (sort_fifo h rs) w = w"
      using v0 \<open>\<not> js_less v0 ?v\<close> by (simp add: storeLastCalcTxDate_def Let_def)
    moreover have "js_le v0 v0" using v0 assms(3) by (cases v0) (auto simp: js_le_def js_eq_def)
    ultimately show ?thesis using v0 by (metis option.inject)
  qed
qed

lemma dated_example: "dated (demo_purchase i 20240105 q c)" "dated (demo_sale i 20240105 q)"
proof -
  have "replaceAll_dash ''2024-01-05'' = ''20240105''" by (simp add: replaceAll_dash_def)
  moreover have "string_to_number ''20240105'' = Num 20240105"
    by (subst string_to_number_digits) (simp_all add: is_digit_def digits_value_def code_unit_def)
  ultimately show "dated (demo_purchase i 20240105 q c)" "dated (demo_sale i 20240105 q)"
    by (simp_all add: dated_def demo_tx_defs)
qed

theorem calculation_date_covers_sales_witness:
  "\<exists>w' g' v. storeLastCalcTxDate demo_app inventory_book (\<lambda>i. demo_sale ''s1'' 20240105 1) (new_GoodAccount widget)
         (sort_fifo (\<lambda>i. demo_sale ''s1'' 20240105 1) [0]) demo_world = w'
     \<and> getCOGSCalculationDateValue g' = Some v \<and> js_le (Num 20240105) v"
proof -
  have "fifo_ok (demo_sale ''s1'' 20240105 1)"
    by (simp add: fifo_ok_def order_int_def order_value_def demo_tx_defs)
  then have "\<forall>s \<in> set [0]. fifo_ok (demo_sale ''s1'' 20240105 1) \<and> dated (demo_sale ''s1'' 20240105 1)"
    by (simp add: dated_example)
  moreover have "getCOGSCalculationDateValue (new_GoodAccount widget) \<noteq> Some NaN"
    by (simp add: getCOGSCalculationDateValue_def getCOGSCalculationDate_def new_GoodAccount_def widget_def)
  moreover have "t_dateValue (demo_sale ''s1'' 20240105 1) = 20240105" by (simp add: demo_tx_defs)
  ultimately show ?thesis
    using calculation_date_covers_sales [of "[0]" "\<lambda>i. demo_sale ''s1'' 20240105 1" "new_GoodAccount widget"
        demo_app inventory_book demo_world] by auto
qed

section \<open>Ties within a day\<close>

text \<open>
  C40. Transactions of one day are not always ordered by creation. If two transactions have
  the same date and order number, the comparison looks at the milliseconds within the
  second only, so the one created first is sorted after the other when its milliseconds
  are larger.
\<close>

theorem creation_order_lost:
  assumes "fifo_ok t1" and "fifo_ok t2" and "t_dateValue t1 = t_dateValue t2" and "order_int t1 = order_int t2"
    and "t_createdAt t1 = Some earlier" and "t_createdAt t2 = Some later"
    and "earlier < later" and "later mod 1000 < earlier mod 1000"
  shows "sort_js compareToFIFO [t1, t2] = [t2, t1]"
proof -
  have "fifo_key t2 < fifo_key t1"
    using assms by (simp add: fifo_key_def less_prod_def created_ms_def getMilliseconds_def)
  then show ?thesis using assms(1,2) by (simp add: fifo.sort_js_sort_key)
qed

text \<open>Created at 1.9 and 2.1 seconds.\<close>

theorem creation_order_lost_witness:
  "sort_js compareToFIFO [(demo_purchase ''p1'' 20240105 1 10)\<lparr>t_createdAt := Some 1900\<rparr>,
       (demo_purchase ''p2'' 20240105 1 20)\<lparr>t_createdAt := Some 2100\<rparr>]
   = [(demo_purchase ''p2'' 20240105 1 20)\<lparr>t_createdAt := Some 2100\<rparr>,
      (demo_purchase ''p1'' 20240105 1 10)\<lparr>t_createdAt := Some 1900\<rparr>]"
  by (rule creation_order_lost [where earlier = 1900 and later = 2100])
    (simp_all add: fifo_ok_def order_int_def order_value_def demo_tx_defs)

section \<open>Additional costs are added once\<close>

lemma purchase_costs_noted:
  "t_prop t ADD_COSTS_PROP \<noteq> None \<Longrightarrow> purchase_costs B w fb t = Inr (0, 0)"
  by (auto simp: purchase_costs_def)

text \<open>
  C19. Additional costs and credits of the financial book enter the cost of a purchase once.
  After a sale was charged to a purchase, used up or not, no later reading of it, whatever
  the financial book holds by then, finds further costs: what it reads is the total cost
  the purchase carries.
\<close>

theorem costs_counted_once:
  assumes "process_purchase A B w fb s r st = Inr st'" and "read_purchase A B w' fb' (ss_store st' r) = Inr pinfo"
  shows "pi_additionalCosts pinfo = 0 \<and> pi_creditNotesAmount pinfo = 0
     \<and> Some (pi_updatedCost pinfo) = am_new A (t_prop (ss_store st' r) TOTAL_COST_PROP)"
proof -
  have "t_prop (ss_store st' r) ADD_COSTS_PROP \<noteq> None"
    using assms(1) by (auto simp: process_purchase_def liquidate_purchase_def liquidated_purchase_def
        split_purchase_def remaining_purchase_def generateId_def set_prop_def Let_def split: if_splits)
  then show ?thesis
    using assms(2) by (auto simp: read_purchase_def purchase_costs_noted Let_def)
qed

lemma liquidated_purchase_ready:
  assumes "amount_laws A" and "purchase_ready A B w fb t"
  shows "purchase_ready A B w' fb' (liquidated_purchase A sale pinfo t)"
  using assms by (simp add: purchase_ready_def liquidated_purchase_def purchase_costs_noted set_prop_def)

theorem costs_counted_once_witness:
  "\<exists>st' pinfo. process_purchase decimal_lib demo_app demo_world financial_book 2 0
        (start_sale 2 (demo_store, demo_processor)) = Inr st'
     \<and> read_purchase decimal_lib demo_app demo_world financial_book (ss_store st' 0) = Inr pinfo
     \<and> pi_additionalCosts pinfo = 0"
proof -
  let ?A = decimal_lib and ?st = "start_sale 2 (demo_store, demo_processor)"
  have t: "demo_store 0 = demo_purchase ''p1'' 20240105 10 100" by (simp add: demo_transactions_def)
  note ready = demo_purchase_ready(1) [of 10 "''p1''" 20240105 100, simplified]
  obtain pinfo where pinfo: "read_purchase ?A demo_app demo_world financial_book (demo_store 0) = Inr pinfo"
    and q: "pi_transactionQuantity pinfo = 10"
    using read_purchase_ready [OF decimal_lib_laws ready] t by (metis demo_tx_kinds(7))
  have step: "process_purchase ?A demo_app demo_world financial_book 2 0 ?st
      = Inr (liquidate_purchase ?A demo_app demo_world 2 0 pinfo ?st)"
    by (simp add: process_purchase_def pinfo q demo_sale_amount del: decimal_lib_simps)
  obtain pinfo' where read: "read_purchase ?A demo_app demo_world financial_book
      (ss_store (liquidate_purchase ?A demo_app demo_world 2 0 pinfo ?st) 0) = Inr pinfo'"
    using read_purchase_ready [OF decimal_lib_laws liquidated_purchase_ready [OF decimal_lib_laws ready]]
    by (simp add: t) metis
  from costs_counted_once [OF step read] step read show ?thesis by blast
qed

section \<open>The credit note recorded on a purchase\<close>

text \<open>What a step notes on the purchase is what it read: original less present quantity.\<close>

lemma process_purchase_note:
  assumes "process_purchase A B w fb s r st = Inr st'"
  shows "\<exists>pinfo. read_purchase A B w fb (ss_store st r) = Inr pinfo
     \<and> t_prop (ss_store st' r) CREDIT_NOTE_PROP =
           Some (json_credit_note (pi_creditNotesQuantity pinfo) (am_toNumber A (pi_creditNotesAmount pinfo)))
     \<and> t_prop (ss_store st' r) ORIGINAL_QUANTITY_PROP = t_prop (ss_store st r) ORIGINAL_QUANTITY_PROP
     \<and> t_prop (ss_store st' r) ADD_COSTS_PROP \<noteq> None
     \<and> (soldQuantity st < t_amount (ss_store st r) \<longrightarrow>
           t_amount (ss_store st' r) = t_amount (ss_store st r) - soldQuantity st)"
proof -
  obtain pinfo where read: "read_purchase A B w fb (ss_store st r) = Inr pinfo"
    using assms by (auto simp: process_purchase_def bindR_eq_Inr)
  then have "pi_transactionQuantity pinfo = t_amount (ss_store st r)"
    by (auto simp: read_purchase_def bindR_eq_Inr Let_def)
  with assms read show ?thesis
    by (intro exI [of _ pinfo])
      (auto simp: process_purchase_def liquidate_purchase_def liquidated_purchase_def split_purchase_def
        remaining_purchase_def generateId_def set_prop_def Let_def split: if_splits)
qed

text \<open>
  C38. Sold quantities are recorded as returned ones. When a part of a fresh purchase (its
  quantity is the recorded original) was sold, the next sale charged to the purchase
  writes a \<^verbatim>\<open>credit_note\<close> on it whose quantity is exactly the quantity sold before, with no
  amount, although nothing was returned.
\<close>

theorem sold_quantity_recorded_as_returned:
  assumes "amount_laws A"
    and "process_purchase A B w fb s r st = Inr st1"
    and "t_prop (ss_store st r) ORIGINAL_QUANTITY_PROP = Some (am_toString A (t_amount (ss_store st r)))"
    and "soldQuantity st < t_amount (ss_store st r)"
    and "ss_store st2 r = ss_store st1 r" and "process_purchase A B w2 fb s2 r st2 = Inr st3"
  shows "t_prop (ss_store st3 r) CREDIT_NOTE_PROP =
     Some (json_credit_note (am_toNumber A (soldQuantity st)) (am_toNumber A 0))"
proof -
  from process_purchase_note [OF assms(2)] assms(3,4) have
    one: "t_prop (ss_store st1 r) ORIGINAL_QUANTITY_PROP = Some (am_toString A (t_amount (ss_store st r)))"
      "t_amount (ss_store st1 r) = t_amount (ss_store st r) - soldQuantity st"
      "t_prop (ss_store st1 r) ADD_COSTS_PROP \<noteq> None"
    by auto
  obtain pinfo where read: "read_purchase A B w2 fb (ss_store st2 r) = Inr pinfo"
    and note_: "t_prop (ss_store st3 r) CREDIT_NOTE_PROP =
           Some (json_credit_note (pi_creditNotesQuantity pinfo) (am_toNumber A (pi_creditNotesAmount pinfo)))"
    using process_purchase_note [OF assms(6)] by blast
  have "pi_creditNotesQuantity pinfo = am_toNumber A (soldQuantity st)" "pi_creditNotesAmount pinfo = 0"
    using read one assms(1)
    by (auto simp: assms(5) read_purchase_def purchase_costs_noted bindR_eq_Inr Let_def)
  with note_ show ?thesis by simp
qed

lemma process_purchase_part:
  assumes "amount_laws A" and "purchase_ready A B w fb (ss_store st r)"
    and "soldQuantity st < t_amount (ss_store st r)"
  shows "\<exists>st'. process_purchase A B w fb s r st = Inr st' \<and> purchase_ready A B w fb (ss_store st' r)
     \<and> t_amount (ss_store st' r) = t_amount (ss_store st r) - soldQuantity st
     \<and> (\<forall>i. i \<noteq> r \<longrightarrow> ss_store st' i = ss_store st i)"
proof -
  obtain pinfo where read: "read_purchase A B w fb (ss_store st r) = Inr pinfo"
    and q: "pi_transactionQuantity pinfo = t_amount (ss_store st r)"
    by (rule read_purchase_ready [OF assms(1,2)])
  have "t_prop (ss_store st r) PURCHASE_CODE_PROP \<noteq> None" using assms(2) by (simp add: purchase_ready_def)
  from split_purchase_ready [OF this, of A B w s pinfo] obtain st' where
    split: "split_purchase A B w s r pinfo st = Inr st'"
    and st': "ss_store st' = (ss_store st)(r := remaining_purchase A (t_amount (ss_store st r) - soldQuantity st)
           (pi_updatedCost pinfo - soldQuantity st * pi_costOfSalePerUnit pinfo) pinfo (ss_store st r))"
    unfolding q by metis
  have "process_purchase A B w fb s r st = Inr st'"
    using assms(3) split by (simp add: process_purchase_def read q)
  moreover have "purchase_ready A B w fb (ss_store st' r)"
    using assms(2,3) by (simp add: st' remaining_purchase_layer(3) [OF assms(1)])
  ultimately show ?thesis by (intro exI [of _ st']) (simp add: st' remaining_purchase_def Let_def)
qed

text \<open>Ten bought, four sold, then three.\<close>

theorem sold_quantity_recorded_as_returned_witness:
  "\<exists>st1 st3. process_purchase decimal_lib demo_app demo_world financial_book 1 0
       (start_sale 1 (\<lambda>i. [demo_purchase ''p1'' 20240105 10 100, demo_sale ''s1'' 20240110 4,
                            demo_sale ''s2'' 20240111 3] ! i, demo_processor)) = Inr st1
     \<and> process_purchase decimal_lib demo_app demo_world financial_book 2 0
         (start_sale 2 (ss_store st1, ss_processor st1)) = Inr st3
     \<and> t_prop (ss_store st3 0) CREDIT_NOTE_PROP =
         Some (json_credit_note (am_toNumber decimal_lib 4) (am_toNumber decimal_lib 0))"
proof -
  let ?A = decimal_lib and ?p = "demo_purchase ''p1'' 20240105 10 100"
  let ?h = "\<lambda>i. [?p, demo_sale ''s1'' 20240110 4, demo_sale ''s2'' 20240111 3] ! i"
  let ?st = "start_sale 1 (?h, demo_processor)"
  have st: "ss_store ?st = ?h" "soldQuantity ?st = 4" by (simp_all add: start_sale_def demo_tx_defs)
  have "purchase_ready ?A demo_app demo_world financial_book (ss_store ?st 0)"
    unfolding st using demo_purchase_ready(1) [of 10 "''p1''" 20240105 100] by simp
  moreover have p: "t_amount (ss_store ?st 0) = 10" unfolding st by (simp add: demo_tx_defs)
  ultimately obtain st1 where one: "process_purchase ?A demo_app demo_world financial_book 1 0 ?st = Inr st1"
    and ready: "purchase_ready ?A demo_app demo_world financial_book (ss_store st1 0)"
    and left: "t_amount (ss_store st1 0) = 6" and same: "ss_store st1 2 = ?h 2"
    using process_purchase_part [OF decimal_lib_laws, of demo_app demo_world financial_book ?st 0 1] st by auto
  let ?st2 = "start_sale 2 (ss_store st1, ss_processor st1)"
  have st2: "ss_store ?st2 = ss_store st1" "soldQuantity ?st2 = 3"
    by (simp_all add: start_sale_def same) (simp add: demo_tx_defs)
  obtain st3 where two: "process_purchase ?A demo_app demo_world financial_book 2 0 ?st2 = Inr st3"
    using process_purchase_part [OF decimal_lib_laws, of demo_app demo_world financial_book ?st2 0 2] ready left st2
    by auto
  have "t_prop (ss_store ?st 0) ORIGINAL_QUANTITY_PROP = Some (am_toString ?A (t_amount (ss_store ?st 0)))"
    unfolding st by (simp add: demo_tx_defs) (simp add: decimal_lib_def)
  from sold_quantity_recorded_as_returned [OF decimal_lib_laws one this _ _ two] one two p st st2
  show ?thesis by simp
qed

end
