(* ===== verification/CalculateAgain.thy ===== *)
theory CalculateAgain
  imports CalculateEndToEnd
begin

text \<open>
  Calculating twice: what a run leaves behind holds no open sale, neither among the
  transactions it worked on nor among the ones it creates, so a second call on what the
  service then answers has nothing to calculate.
\<close>

section \<open>A run makes no new open sale\<close>

definition no_new_sale :: "store \<Rightarrow> store \<Rightarrow> calc_processor \<Rightarrow> bool" where
  "no_new_sale h0 h p =
     ((\<forall>i. open_tx isSale (h i) \<longrightarrow> open_tx isSale (h0 i))
      \<and> (\<forall>t \<in> set (map_values (cp_inventoryToCreate p)). t_checked t))"

lemma open_sale_kept: "tx_kept t t' \<Longrightarrow> open_tx isSale t' \<Longrightarrow> open_tx isSale t"
  by (auto simp: tx_kept_def isSale_def)

interpretation sales: run_invariant B UNIV "\<lambda>w h p. no_new_sale h0 h p" for B h0
proof unfold_locales
  fix w h and p :: calc_processor and t r n
  assume I: "no_new_sale h0 h p"
  then show "no_new_sale h0 h (cp_setInventoryBookTransactionToCreate B w t p)" if "part_of (h r) t"
    using that by (auto simp: no_new_sale_def part_of_def processor_defs dest!: values_map_setD)
  from I show "no_new_sale h0 h (cp_setInventoryBookTransactionToUpdate B w h r p)"
    and "no_new_sale h0 h (cp_setFinancialBookTransactionToCreate B w t p)"
    and "no_new_sale h0 h (p\<lparr>cp_generated := n\<rparr>)"
    by (simp_all add: no_new_sale_def processor_defs)
  show "no_new_sale h0 h' p" if "\<And>r. tx_kept (h r) (h' r)" for h'
    using I open_sale_kept [OF that] unfolding no_new_sale_def by blast
qed

lemma no_new_sale_start: "no_new_sale h h (new_CalculateCostOfSalesProcessor ib fb)"
  by (simp add: no_new_sale_def new_CalculateCostOfSalesProcessor_def js.values_empty)

section \<open>The purchases cover the sales\<close>

text \<open>Every open sale sells something, and together not more than the purchases keep after the returns.\<close>

definition stock_covers :: "transaction list \<Rightarrow> bool" where
  "stock_covers ts =
     ((\<forall>t \<in> set (filter (open_tx isSale) ts). 0 < t_amount t)
      \<and> (\<Sum>t\<leftarrow>filter (open_tx isSale) ts. t_amount t)
          \<le> (\<Sum>t\<leftarrow>filter (open_tx isPurchase) ts. t_amount (after_returns ts t)))"

lemma sum_list_sort_key: "(\<Sum>x\<leftarrow>sort_key k xs. f x) = (\<Sum>x\<leftarrow>xs. (f x :: amount))"
  by (metis mset_map mset_sort sum_mset_sum_list)

lemma run_leaves_no_open_sale:
  assumes "amount_laws A" and "account_creation_frame B" and "ledger_ready A B w fb ts" and "stock_covers ts"
    and h1: "\<forall>i \<in> set (open_refs isPurchase ts). h1 i = after_returns ts (ts ! i)"
      "\<forall>i \<in> set (open_refs isSale ts). h1 i = ts ! i"
    and "no_new_sale (\<lambda>i. ts ! i) h1 p1"
    and run: "sales_loop A B fb ib summary (fifo_refs isPurchase ts) (fifo_refs isSale ts) (h1, p1) w
           = (Inr (Inr (h', p')), w')"
  shows "\<forall>t \<in> set (map h' [0..<length ts]) \<union> set (map_values (cp_inventoryToCreate p')). \<not> open_tx isSale t"
proof -
  note ready = ready_run [OF assms(3) h1]
  have kept: "no_new_sale (\<lambda>i. ts ! i) h' p'" by (rule sales.inv_sales_loop [OF run assms(7) subset_UNIV])
  have "set (map t_amount (sort_key fifo_key (filter (open_tx isSale) ts))) =
      t_amount ` set (filter (open_tx isSale) ts)" by simp
  then have "\<forall>a \<in> (\<lambda>s. t_amount (h1 s)) ` set (fifo_refs isSale ts). 0 < a"
    using assms(4) unfolding ready(5) [symmetric] stock_covers_def set_map by simp
  then have pos: "\<forall>s \<in> set (fifo_refs isSale ts). 0 < t_amount (h1 s)" by blast
  have "(\<Sum>s\<leftarrow>fifo_refs isSale ts. t_amount (h1 s)) = (\<Sum>t\<leftarrow>filter (open_tx isSale) ts. t_amount t)"
    by (simp only: ready(5) sum_list_sort_key)
  moreover have "stock_quantity (layers A B w fb h1 (fifo_refs isPurchase ts)) =
      (\<Sum>t\<leftarrow>filter (open_tx isPurchase) ts. t_amount (after_returns ts t))"
    unfolding ready(6) stock_quantity_def
    by (simp add: layer_of_def comp_def sum_list_sort_key del: sort_key_simps)
  ultimately have "(\<Sum>s\<leftarrow>fifo_refs isSale ts. t_amount (h1 s))
      \<le> stock_quantity (layers A B w fb h1 (fifo_refs isPurchase ts))"
    using assms(4) by (simp add: stock_covers_def)
  from run_closes_covered_sales [OF assms(1,2) ready(3) set_fifo_refs(2) ready_disjoint [OF assms(3)] pos this run]
  have "t_checked (h' i)" if "i < length ts" "open_tx isSale (ts ! i)" for i
    using that by (simp add: set_fifo_refs)
  then have "\<not> open_tx isSale (h' i)" if "i < length ts" for i
    using that kept unfolding no_new_sale_def by blast
  moreover have "\<not> open_tx isSale t" if "t \<in> set (map_values (cp_inventoryToCreate p'))" for t
    using that kept unfolding no_new_sale_def by blast
  ultimately show ?thesis by auto blast
qed

lemma collect_nothing_sold:
  assumes "\<forall>t \<in> set us. \<not> open_tx isSale t"
  shows "co_totalSales (collect A (\<lambda>i. us ! i) [0..<length us]) = Num 0"
  by (rule collect_no_sales) (use assms in \<open>auto simp: collect_sales filter_empty_conv\<close>)

section \<open>The second call\<close>

text \<open>
  What a service may answer after a run: transactions of the account as the run left them
  and transactions the run created, in any order.
\<close>

definition follows_up ::
    "amount_lib \<Rightarrow> 'w bkper_app \<Rightarrow> string \<Rightarrow> string \<Rightarrow> transaction list \<Rightarrow> string option \<Rightarrow> 'w \<Rightarrow> bool" where
  "follows_up A B ibId gaId ts d w =
     (\<exists>r us. run_of A B ibId gaId d w r \<and> r_store r = (\<lambda>i. us ! i)
        \<and> r_collected r = collect A (r_store r) [0..<length us] \<and> set us \<subseteq> set ts)"

lemma nothing_to_calculate:
  assumes "follows_up A B ibId gaId ts d w" and "\<forall>t \<in> set ts. \<not> open_tx isSale t"
  shows "calculateCostOfSalesForAccount A B ibId gaId d w = (Inr (new_Summary gaId), w)"
proof -
  from assms(1) obtain r us where r: "run_of A B ibId gaId d w r" "r_store r = (\<lambda>i. us ! i)"
    "r_collected r = collect A (r_store r) [0..<length us]" "set us \<subseteq> set ts"
    unfolding follows_up_def by blast
  then have "co_totalSales (r_collected r) = Num 0"
    using assms(2) by (simp only: r(2,3)) (rule collect_nothing_sold, blast)
  then show ?thesis by (simp add: calculate_run [OF r(1)] js_eq_def)
qed

text \<open>
  C2. A calculation is not repeated. When the purchases cover the sales and a call answers
  \<open>Calculated\<close>, then a later call, for whatever date, that finds the transactions of the
  account as the run of the first one left and created them, and no others, has nothing to
  do: it answers the empty summary and leaves the platform as it is. No sale is charged
  twice.
\<close>

theorem calculation_not_repeated:
  assumes "amount_laws A" and "number_laws A" and "account_creation_frame B"
    and "run_of A B ibId gaId d w r"
    and "r_store r = (\<lambda>i. ts ! i)" and "r_collected r = collect A (r_store r) [0..<length ts]"
    and "ledger_ready A B w (r_financialBook r) ts" and "stock_covers ts"
    and "calculateCostOfSalesForAccount A B ibId gaId d w = (Inr (calculatingAsync (new_Summary gaId)), w')"
  shows "\<exists>h p w1. fired A B ibId gaId r w = Some (h, p, fifo_refs isSale ts, w1)
     \<and> w' = storeLastCalcTxDate B (app_getBook B w ibId) h (new_GoodAccount (r_account r))
                      (fifo_refs isSale ts) (cp_fireBatchOperations B h p w1)
     \<and> (\<forall>d2 w2. follows_up A B ibId gaId (map h [0..<length ts] @ map_values (cp_inventoryToCreate p)) d2 w2 \<longrightarrow>
           calculateCostOfSalesForAccount A B ibId gaId d2 w2 = (Inr (new_Summary gaId), w2))"
proof -
  let ?ib = "app_getBook B w ibId" and ?fb = "r_financialBook r" and ?g = "new_GoodAccount (r_account r)"
  obtain h1 p1 q w1 where
    loop: "credit_note_loop A B w (new_Summary gaId) (co_creditNotes (r_collected r))
       (r_store r, new_CalculateCostOfSalesProcessor ?ib ?fb, co_purchases (r_collected r))
       = Inr (Inr (h1, p1, co_purchases (r_collected r)))"
    and h1: "\<forall>i \<in> set (open_refs isPurchase ts). h1 i = after_returns ts (ts ! i)"
      "\<forall>i \<in> set (open_refs isSale ts). h1 i = ts ! i"
    and run: "sales_loop A B ?fb ?ib (new_Summary gaId) (fifo_refs isPurchase ts) (fifo_refs isSale ts) (h1, p1) w
       = (Inr q, w1)"
    and collected: "calculate_collected A B ?ib ?fb ?g (new_Summary gaId) (r_store r) (r_collected r) w =
         (case q of Inl s \<Rightarrow> (Inr s, w1)
          | Inr (h, p) \<Rightarrow> (Inr (calculatingAsync (new_Summary gaId)),
              storeLastCalcTxDate B ?ib h ?g (fifo_refs isSale ts) (cp_fireBatchOperations B h p w1)))"
    and fired: "fired A B ibId gaId r w = (case q of Inl s \<Rightarrow> None | Inr (h, p) \<Rightarrow> Some (h, p, fifo_refs isSale ts, w1))"
    by (rule ready_calculation [OF assms(1-7)])
  have "no_new_sale (\<lambda>i. ts ! i) h1 p1"
    using sales.inv_credit_note_loop [OF loop no_new_sale_start subset_UNIV] by (simp only: assms(5))
  note none = run_leaves_no_open_sale [OF assms(1,3,7,8) h1 this]
  have "q \<noteq> Inl s" for s
  proof
    assume q: "q = Inl s"
    then have "s = lockError (new_Summary gaId)" using sales_loop_error run by metis
    then show False
      using assms(9) unfolding calculate_run [OF assms(4)] collected q by (auto simp: summary_defs split: if_splits)
  qed
  then obtain h p where q: "q = Inr (h, p)" by (cases q) auto
  have w': "w' = storeLastCalcTxDate B ?ib h ?g (fifo_refs isSale ts) (cp_fireBatchOperations B h p w1)"
    using assms(9) unfolding calculate_run [OF assms(4)] collected q by (auto simp: summary_defs split: if_splits)
  have "\<forall>t \<in> set (map h [0..<length ts] @ map_values (cp_inventoryToCreate p)). \<not> open_tx isSale t"
    using none [OF run [unfolded q]] by simp
  then have "calculateCostOfSalesForAccount A B ibId gaId d2 w2 = (Inr (new_Summary gaId), w2)"
    if "follows_up A B ibId gaId (map h [0..<length ts] @ map_values (cp_inventoryToCreate p)) d2 w2" for d2 w2
    using nothing_to_calculate [OF that] by simp
  with w' fired [unfolded q] show ?thesis by (intro exI [of _ h] exI [of _ p] exI [of _ w1]) simp
qed

lemma return_covers: "stock_covers return_ledger"
  unfolding stock_covers_def return_kinds
  by (simp add: return_after del: One_nat_def) (simp add: return_ledger_def demo_tx_defs)

lemma account_follows_up: "follows_up decimal_lib demo_app ''inv'' ''w'' us None (account_of us)"
  unfolding follows_up_def
  by (intro exI [of _ "account_run us"] exI [of _ us]) (simp add: account_run_of, simp add: account_run_def)

theorem calculation_not_repeated_witness:
  "\<exists>w' h p w1 us. calculateCostOfSalesForAccount decimal_lib demo_app ''inv'' ''w'' None (account_of return_ledger)
       = (Inr (calculatingAsync (new_Summary ''w'')), w')
     \<and> fired decimal_lib demo_app ''inv'' ''w'' (account_run return_ledger) (account_of return_ledger)
         = Some (h, p, fifo_refs isSale return_ledger, w1)
     \<and> w' = storeLastCalcTxDate demo_app inventory_book h (new_GoodAccount widget)
              (fifo_refs isSale return_ledger) (cp_fireBatchOperations demo_app h p w1)
     \<and> us = map h [0..<length return_ledger] @ map_values (cp_inventoryToCreate p)
     \<and> calculateCostOfSalesForAccount decimal_lib demo_app ''inv'' ''w'' None (account_of us)
          = (Inr (new_Summary ''w''), account_of us)"
proof -
  let ?w = "account_of return_ledger"
  have b: "app_getBook demo_app ?w ''inv'' = inventory_book" by (simp add: demo_app_def)
  obtain w' where run: "calculateCostOfSalesForAccount decimal_lib demo_app ''inv'' ''w'' None ?w
       = (Inr (calculatingAsync (new_Summary ''w'')), w')"
    using return_calculates by blast
  from calculation_not_repeated [OF decimal_lib_laws decimal_lib_numbers demo_account_creation_frame
      account_run_of, of return_ledger return_ledger, unfolded return_run b, OF refl return_collected(1) return_ledger_ready
      return_covers run]
  show ?thesis using run account_follows_up by blast
qed

end
