(* ===== verification/Json.thy ===== *)
theory Json
  imports JavaScript
begin

text \<open>
  Reading back what \<^verbatim>\<open>JSON.stringify\<close> writes. The texts the program stores or answers are
  concatenations of encodings of which none continues another, so they determine what was
  written. That contract is the locale \<open>prefix_code\<close>; strings are its first instance.
\<close>

section \<open>Encodings without continuations\<close>

locale prefix_code =
  fixes enc :: "'a \<Rightarrow> string"
  assumes cancel: "enc a @ x = enc b @ y \<longleftrightarrow> a = b \<and> x = y"
begin

lemma injective: "enc a = enc b \<longleftrightarrow> a = b"
  using cancel [of a "[]" b "[]"] by simp

text \<open>Elements with a separator in between, up to an end that is not the separator.\<close>

lemma join_cancel:
  assumes "c \<noteq> d" and "xs \<noteq> []" and "ys \<noteq> []"
  shows "join_with (c # s) (map enc xs) @ d # x = join_with (c # s) (map enc ys) @ d # y \<longleftrightarrow> xs = ys \<and> x = y"
  using assms(2,3)
proof (induction xs arbitrary: ys rule: induct_list012)
  case (2 a)
  then obtain b ys' where "ys = b # ys'" by (cases ys) auto
  then show ?case using assms(1) by (cases ys') (auto simp: cancel)
next
  case (3 a a' xs)
  then obtain b ys' where ys: "ys = b # ys'" by (cases ys) auto
  show ?case
  proof (cases ys')
    case Nil
    then show ?thesis using assms(1) by (auto simp: ys cancel)
  next
    case (Cons b' ys'')
    then show ?thesis using "3.IH"(2) [of ys'] by (auto simp: ys cancel)
  qed
qed simp

lemma join_inject:
  assumes "xs \<noteq> []" and "ys \<noteq> []"
  shows "join_with (c # s) (map enc xs) = join_with (c # s) (map enc ys) \<longleftrightarrow> xs = ys"
proof -
  define d where "d = (if c = CHR ''a'' then CHR ''b'' else CHR ''a'')"
  have "c \<noteq> d" by (simp add: d_def)
  from join_cancel [OF this assms, of s "[]" "[]"] show ?thesis by (simp only: append_same_eq simp_thms)
qed

text \<open>Lists in brackets, where no element starts with the closing one.\<close>

lemma array_cancel:
  assumes "c \<noteq> d" and "\<And>a x y. enc a @ x \<noteq> d # y"
  shows "join_with (c # s) (map enc xs) @ d # x = join_with (c # s) (map enc ys) @ d # y \<longleftrightarrow> xs = ys \<and> x = y"
proof -
  have start: "join_with (c # s) (map enc zs) @ d # x \<noteq> d # y" if "zs \<noteq> []" for zs x y
    using that assms(2) by (induction zs rule: induct_list012) simp_all
  consider "xs = []" "ys = []" | "xs = []" "ys \<noteq> []" | "xs \<noteq> []" "ys = []" | "xs \<noteq> []" "ys \<noteq> []" by blast
  then show ?thesis
  proof cases
    case 1
    then show ?thesis by simp
  next
    case 2
    then show ?thesis using start [OF 2(2), of y x] by (simp del: join_with.simps add: join_with.simps(1))
  next
    case 3
    then show ?thesis using start [OF 3(1), of x y] by (simp del: join_with.simps add: join_with.simps(1))
  next
    case 4
    then show ?thesis by (rule join_cancel [OF assms(1)])
  qed
qed

end

section \<open>Strings\<close>

text \<open>One character of a JSON string and what follows it; a quote ends the string.\<close>

definition hex_value :: "char \<Rightarrow> nat" where
  "hex_value c = (if code_unit c < 58 then code_unit c - 48 else code_unit c - 87)"

definition read_escape :: "char \<Rightarrow> string \<Rightarrow> (char \<times> string) option" where
  "read_escape d s =
     (if code_unit d = 98 then Some (char_of (8::nat), s)
      else if code_unit d = 102 then Some (char_of (12::nat), s)
      else if code_unit d = 110 then Some (char_of (10::nat), s)
      else if code_unit d = 114 then Some (char_of (13::nat), s)
      else if code_unit d = 116 then Some (char_of (9::nat), s)
      else if code_unit d = 117 then
        (case s of _ # _ # a # b # s \<Rightarrow> Some (char_of (16 * hex_value a + hex_value b), s) | _ \<Rightarrow> None)
      else Some (d, s))"

definition read_char :: "string \<Rightarrow> (char \<times> string) option" where
  "read_char t =
     (case t of [] \<Rightarrow> None
      | c # s \<Rightarrow>
          if code_unit c = 34 then None
          else if code_unit c \<noteq> 92 then Some (c, s)
          else (case s of [] \<Rightarrow> None | d # s \<Rightarrow> read_escape d s))"

lemma code_unit_char_of [simp]: "code_unit (char_of n) = n mod 256"
  by (simp add: code_unit_def)

lemma char_of_code_unit [simp]: "char_of (code_unit c) = c"
  by (simp add: code_unit_def)

lemma code_unit_less: "code_unit c < 256"
  by (simp add: code_unit_def)

lemma char_eqI: "code_unit c = n \<Longrightarrow> c = char_of n"
  by (metis char_of_code_unit)

lemma hex_value_char [simp]: "n < 16 \<Longrightarrow> hex_value (hex_char n) = n"
  by (auto simp: hex_value_def hex_char_def)

lemma code_unit_escapes:
  "code_unit CHR ''b'' = 98" "code_unit CHR ''f'' = 102" "code_unit CHR ''n'' = 110" "code_unit CHR ''r'' = 114"
  "code_unit CHR ''t'' = 116" "code_unit CHR ''u'' = 117"
  by (simp_all add: code_unit_def)

lemma read_json_char_of:
  fixes n :: nat
  assumes "n < 256"
  shows "read_char (json_char (char_of n) @ s) = Some (char_of n, s)"
proof (cases "n < 32 \<and> n \<notin> {8, 12, 10, 13, 9}")
  case True
  have "16 * hex_value (hex_char (n div (16::nat))) + hex_value (hex_char (n mod 16)) = n"
    using True by (subst hex_value_char, simp, subst hex_value_char, simp) simp
  then show ?thesis
    using True by (simp add: json_char_def read_char_def read_escape_def code_unit_escapes Let_def)
next
  case False
  with assms consider "n = 34" | "n = 92" | "n = 8" | "n = 12" | "n = 10" | "n = 13" | "n = 9"
    | "32 \<le> n \<and> n \<noteq> 34 \<and> n \<noteq> 92" by fastforce
  then show ?thesis
    using assms
    by cases (simp_all add: json_char_def read_char_def read_escape_def code_unit_escapes Let_def del: char_of_mod_256)
qed

lemma read_json_char: "read_char (json_char c @ s) = Some (c, s)"
  using read_json_char_of [of "code_unit c" s] by (simp add: code_unit_less)

lemma json_char_quote: "json_char c @ r \<noteq> CHR 0x22 # z"
proof
  assume eq: "json_char c @ r = CHR 0x22 # z"
  have "read_char (CHR 0x22 # z) = None" by (simp add: read_char_def code_unit_def)
  with read_json_char [of c r] eq show False by simp
qed

lemma json_char_cancel: "json_char c @ r = json_char d @ r' \<longleftrightarrow> c = d \<and> r = r'"
proof
  assume eq: "json_char c @ r = json_char d @ r'"
  from read_json_char [of c r] have "read_char (json_char d @ r') = Some (c, r)" by (simp only: eq)
  with read_json_char [of d r'] show "c = d \<and> r = r'" by simp
qed simp

lemma json_chars_cancel:
  "concat (map json_char s) @ CHR 0x22 # x = concat (map json_char t) @ CHR 0x22 # y \<longleftrightarrow> s = t \<and> x = y"
proof (induction s arbitrary: t)
  case Nil
  show ?case by (cases t) (simp_all add: json_char_quote json_char_quote [symmetric])
next
  case (Cons c s)
  show ?case
  proof (cases t)
    case Nil
    then show ?thesis by (simp add: json_char_quote)
  next
    case (Cons d t')
    then show ?thesis using Cons.IH [of t'] by (simp add: json_char_cancel)
  qed
qed

lemma char_of_quote: "char_of (34::nat) = CHR 0x22"
  by code_simp

lemma json_string_start: "json_string s @ x = CHR 0x22 # concat (map json_char s) @ CHR 0x22 # x"
  by (simp add: json_string_def char_of_quote)

interpretation json_str: prefix_code json_string
  by unfold_locales (simp only: json_string_start list.inject json_chars_cancel simp_thms)

end
