(* ===== verification/AuditLogs.thy ===== *)
theory AuditLogs
  imports CalculateProperties Json
begin

text \<open>
  The logs of a calculation: the text a settled sale carries determines the purchases, the
  quantities and the unit costs it was charged with, and the quantities add up to what was
  sold (\<^verbatim>\<open>CalculateCostOfSalesService.ts\<close>, lines 183-270).
\<close>

section \<open>Log texts determine their entries\<close>

lemma json_purchase_log_cancel: "json_purchase_log e @ x = json_purchase_log e' @ y \<longleftrightarrow> e = e' \<and> x = y"
  by (cases e; cases e') (simp add: json_purchase_log_def json_object_def json_str.cancel conj_assoc)

lemma json_liquidation_log_cancel:
  "json_liquidation_log e @ x = json_liquidation_log e' @ y \<longleftrightarrow> e = e' \<and> x = y"
  by (cases e; cases e') (simp add: json_liquidation_log_def json_object_def json_str.cancel conj_assoc)

interpretation purchase_log: prefix_code json_purchase_log
  by unfold_locales (rule json_purchase_log_cancel)

interpretation liquidation_log: prefix_code json_liquidation_log
  by unfold_locales (rule json_liquidation_log_cancel)

lemma json_purchase_log_entries_cancel:
  "json_purchase_log_entries es = json_purchase_log_entries es' \<longleftrightarrow> es = es'"
proof -
  have "json_purchase_log e @ x \<noteq> CHR '']'' # y" for e x y
    by (simp add: json_purchase_log_def json_object_def)
  from purchase_log.array_cancel [of "CHR '',''" "CHR '']''" "[]" es "[]" es' "[]", OF _ this] show ?thesis
    by (simp add: json_purchase_log_entries_def json_array_def)
qed

section \<open>The entries of a sale\<close>

text \<open>What a sale was charged with: purchase, quantity and cost per unit.\<close>

type_synonym charge = "string \<times> amount \<times> amount"

definition log_entry :: "amount_lib \<Rightarrow> charge \<Rightarrow> purchase_log_entry" where
  "log_entry A c = (case c of (i, q, u) \<Rightarrow>
     \<lparr>pl_id = i, pl_qt = am_toString A q, pl_uc = am_toString A u, pl_rt = []\<rparr>)"

definition charged :: "charge list \<Rightarrow> amount" where
  "charged cs = (\<Sum>(i, q, u)\<leftarrow>cs. q)"

lemma charged_simps [simp]: "charged [] = 0" "charged ((i, q, u) # cs) = q + charged cs"
  by (simp_all add: charged_def)

lemma log_entry_inj:
  assumes "amount_laws A"
  shows "inj (log_entry A)"
proof -
  have print: "x = y" if "am_toString A x = am_toString A y" for x y
    using am_new_toString [OF assms] that by (metis option.inject)
  show ?thesis
  proof (rule injI)
    fix c d assume "log_entry A c = log_entry A d"
    then show "c = d" using print by (cases c; cases d) (simp add: log_entry_def)
  qed
qed

lemma process_purchase_charge:
  assumes "process_purchase A B w fb s r st = Inr st'"
  shows "\<exists>q u. purchaseLogEntries st' = purchaseLogEntries st @ [log_entry A (t_id (ss_store st r), q, u)]
     \<and> soldQuantity st = q + soldQuantity st' \<and> (\<forall>i. t_id (ss_store st' i) = t_id (ss_store st i))
     \<and> (\<forall>i. i \<noteq> r \<longrightarrow> ss_store st' i = ss_store st i)"
proof -
  from assms obtain pinfo where
    step: "(if pi_transactionQuantity pinfo \<le> soldQuantity st then Inr (liquidate_purchase A B w s r pinfo st)
            else split_purchase A B w s r pinfo st) = Inr st'"
    by (auto simp: process_purchase_def bindR_eq_Inr)
  show ?thesis
  proof (cases "pi_transactionQuantity pinfo \<le> soldQuantity st")
    case True
    with step have st': "st' = liquidate_purchase A B w s r pinfo st" by simp
    show ?thesis
      unfolding st' liquidate_purchase_def
      by (intro exI [of _ "pi_transactionQuantity pinfo"] exI [of _ "pi_costOfSalePerUnit pinfo"])
        (simp add: getPurchaseLog_def log_entry_def Let_def)
  next
    case False
    with step show ?thesis
      by (intro exI [of _ "soldQuantity st"] exI [of _ "pi_costOfSalePerUnit pinfo"])
        (auto simp: split_purchase_def generateId_def getPurchaseLog_def log_entry_def remaining_purchase_def
          bindR_eq_Inr Let_def)
  qed
qed

lemma purchase_loop_charges:
  assumes "purchase_loop A B w fb s rs st = Inr st'"
  shows "\<exists>cs. purchaseLogEntries st' = purchaseLogEntries st @ map (log_entry A) cs
     \<and> soldQuantity st = charged cs + soldQuantity st' \<and> fst ` set cs \<subseteq> (\<lambda>r. t_id (ss_store st r)) ` set rs
     \<and> (\<forall>i. i \<notin> set rs \<longrightarrow> ss_store st' i = ss_store st i)"
  using assms
proof (induction rs arbitrary: st)
  case Nil
  then show ?case by (intro exI [of _ "[]"]) simp
next
  case (Cons r rs)
  show ?case
  proof (cases "t_checked (ss_store st r)")
    case True
    with Cons.prems have "purchase_loop A B w fb s rs st = Inr st'" by simp
    from Cons.IH [OF this] obtain cs where "purchaseLogEntries st' = purchaseLogEntries st @ map (log_entry A) cs"
      "soldQuantity st = charged cs + soldQuantity st'" "fst ` set cs \<subseteq> (\<lambda>r. t_id (ss_store st r)) ` set rs"
      "\<forall>i. i \<notin> set rs \<longrightarrow> ss_store st' i = ss_store st i" by blast
    then show ?thesis by (intro exI [of _ cs]) auto
  next
    case False
    with Cons.prems obtain st1 where one: "process_purchase A B w fb s r st = Inr st1"
      and rest: "(if soldQuantity st1 = 0 then Inr st1 else purchase_loop A B w fb s rs st1) = Inr st'"
      by (auto simp: bindR_eq_Inr)
    from process_purchase_charge [OF one] obtain q u where
      c: "purchaseLogEntries st1 = purchaseLogEntries st @ [log_entry A (t_id (ss_store st r), q, u)]"
        "soldQuantity st = q + soldQuantity st1" "\<forall>i. t_id (ss_store st1 i) = t_id (ss_store st i)"
        "\<forall>i. i \<noteq> r \<longrightarrow> ss_store st1 i = ss_store st i" by blast
    have "\<exists>cs. purchaseLogEntries st' = purchaseLogEntries st1 @ map (log_entry A) cs
       \<and> soldQuantity st1 = charged cs + soldQuantity st' \<and> fst ` set cs \<subseteq> (\<lambda>r. t_id (ss_store st1 r)) ` set rs
       \<and> (\<forall>i. i \<notin> set rs \<longrightarrow> ss_store st' i = ss_store st1 i)"
    proof (cases "soldQuantity st1 = 0")
      case True
      with rest show ?thesis by (intro exI [of _ "[]"]) simp
    next
      case False
      with rest show ?thesis by (intro Cons.IH) simp
    qed
    then obtain cs where "purchaseLogEntries st' = purchaseLogEntries st1 @ map (log_entry A) cs"
      "soldQuantity st1 = charged cs + soldQuantity st'" "fst ` set cs \<subseteq> (\<lambda>r. t_id (ss_store st1 r)) ` set rs"
      "\<forall>i. i \<notin> set rs \<longrightarrow> ss_store st' i = ss_store st1 i" by blast
    with c show ?thesis
      by (intro exI [of _ "(t_id (ss_store st r), q, u) # cs"]) (auto simp: algebra_simps)
  qed
qed

text \<open>
  C5. The log of a settled sale accounts for its quantity. A sale that a call of
  \<open>processSale\<close> closes carries a text from which the purchases it was charged with, the
  quantities and the costs per unit can be read back in one way only; every purchase is
  one of the run, and the quantities add up to what was sold, up to a rest that rounds to
  zero in the inventory book.
\<close>

theorem sale_log_accounts_for_quantity:
  assumes "amount_laws A" and "processSale A B fb ib s purchases (h, p) w = (Inr (h', p'), w')"
    and "s \<notin> set purchases" and "\<not> t_checked (h s)" and "t_checked (h' s)"
  shows "\<exists>cs left. t_prop (h' s) PURCHASE_LOG_PROP = Some (json_purchase_log_entries (map (log_entry A) cs))
     \<and> (\<forall>es. json_purchase_log_entries (map (log_entry A) es) = json_purchase_log_entries (map (log_entry A) cs)
           \<longrightarrow> es = cs)
     \<and> cs \<noteq> [] \<and> fst ` set cs \<subseteq> (\<lambda>r. t_id (h r)) ` set purchases
     \<and> charged cs + left = t_amount (h s) \<and> am_round A left (b_fractionDigits ib) = 0"
proof -
  let ?start = "\<lparr>ss_store = h, ss_processor = p, soldQuantity = t_amount (h s), saleCost = 0,
      purchaseLogEntries = []\<rparr>"
  obtain st where loop: "purchase_loop A B w fb s purchases ?start = Inr st"
    and h': "h' = ss_store (settle_sale A B w ib s st)"
    using assms(2) by (auto simp: processSale_def Let_def split: sum.splits prod.splits)
  from purchase_loop_charges [OF loop] assms(3) obtain cs where
    cs: "purchaseLogEntries st = map (log_entry A) cs" "t_amount (h s) = charged cs + soldQuantity st"
      "fst ` set cs \<subseteq> (\<lambda>r. t_id (h r)) ` set purchases" "ss_store st s = h s" by auto
  have settled: "am_round A (soldQuantity st) (b_fractionDigits ib) = 0" "purchaseLogEntries st \<noteq> []"
    using assms(4,5) cs(4) by (auto simp: h' settle_sale_def Let_def split: if_splits)
  then have "t_prop (h' s) PURCHASE_LOG_PROP = Some (json_purchase_log_entries (map (log_entry A) cs))"
    by (simp add: h' settle_sale_def set_prop_def cs(1) Let_def)
  moreover have "es = cs"
    if "json_purchase_log_entries (map (log_entry A) es) = json_purchase_log_entries (map (log_entry A) cs)" for es
    using that log_entry_inj [OF assms(1)] by (simp add: json_purchase_log_entries_cancel inj_map_eq_map)
  ultimately show ?thesis using cs settled by (intro exI [of _ cs] exI [of _ "soldQuantity st"]) auto
qed

theorem sale_log_accounts_for_quantity_witness:
  "\<exists>h' p' w' cs left. processSale decimal_lib demo_app financial_book inventory_book 2 [0, 1]
       (demo_store, demo_processor) demo_world = (Inr (h', p'), w')
     \<and> t_prop (h' 2) PURCHASE_LOG_PROP = Some (json_purchase_log_entries (map (log_entry decimal_lib) cs))
     \<and> fst ` set cs \<subseteq> {''p1'', ''p2''} \<and> charged cs + left = 12 \<and> am_round decimal_lib left 0 = 0"
proof -
  obtain acc w' where w': "costOfSalesAccount demo_app financial_book demo_world = (acc, w')" by force
  obtain h' p' where run: "processSale decimal_lib demo_app financial_book inventory_book 2 [0, 1]
       (demo_store, demo_processor) demo_world = (Inr (h', p'), w')"
    and proc: "sale_processed decimal_lib demo_app demo_world financial_book inventory_book 2 [0, 1]
       (demo_store, demo_processor) (0, 124, [(3, 36)]) (h', p')"
    using process_sale_refines [OF decimal_lib_laws, of demo_app demo_world financial_book
        "(demo_store, demo_processor)" "[0, 1]" 2 acc w' inventory_book] demo_purchases_ready w'
    unfolding demo_issue fst_conv by auto
  have "layers decimal_lib demo_app demo_world financial_book demo_store [0, 1] \<noteq> []"
    by (simp only: demo_layers) simp
  then have "t_checked (h' 2)" using proc decimal_lib_laws by (simp add: sale_processed_def)
  moreover have "\<not> t_checked (demo_store 2)" by (simp add: demo_tx_defs)
  moreover have "(\<lambda>r. t_id (demo_store r)) ` set [0, 1] = {''p1'', ''p2''}" "b_fractionDigits inventory_book = 0"
    by (simp_all add: demo_tx_defs inventory_book_def demo_book_def)
  ultimately show ?thesis
    using sale_log_accounts_for_quantity [OF decimal_lib_laws run] run demo_sale_amount(1) by fastforce
qed

end
