(* ===== verification/EventAnswers.thy ===== *)
theory EventAnswers
  imports EventsProperties
begin

text \<open>
  The answers of the event handlers: which parts an answer has, what becomes of the warning
  of a late transaction in the string the handlers pass it in, and what a replicated
  purchase leaves of the properties of its account.
\<close>

section \<open>Splitting at a separator\<close>

lemma split_at_separated:
  "\<not> suffix '' /'' s \<Longrightarrow>
   split_at '' / '' acc (s @ '' / '' @ rest) = split_at '' / '' acc s @ split_at '' / '' [] rest"
proof (induction s arbitrary: acc rule: length_induct)
  case (1 s)
  show ?case
  proof (cases s)
    case (Cons c s')
    show ?thesis
    proof (cases "prefix '' / '' s")
      case True
      then obtain u where u: "s = '' / '' @ u" by (auto simp: prefix_def)
      with 1(2) have "\<not> suffix '' /'' u" by (auto intro: suffix_ConsI)
      with 1(1) u have "split_at '' / '' [] (u @ '' / '' @ rest) = split_at '' / '' [] u @ split_at '' / '' [] rest"
        by simp
      then show ?thesis by (simp add: u)
    next
      case False
      have "\<not> prefix '' / '' (s @ '' / '' @ rest)"
      proof
        assume pre: "prefix '' / '' (s @ '' / '' @ rest)"
        consider "s' = []" | d where "s' = [d]" | d e s'' where "s' = d # e # s''" by (metis neq_Nil_conv)
        then show False using pre False 1(2) by cases (auto simp: Cons suffix_def)
      qed
      then have "split_at '' / '' acc (s @ '' / '' @ rest) = split_at '' / '' (acc @ [c]) (s' @ '' / '' @ rest)"
        unfolding Cons by (simp only: append_Cons split_at.simps simp_thms if_False)
      moreover have "split_at '' / '' acc s = split_at '' / '' (acc @ [c]) s'"
        using False unfolding Cons by (simp only: split_at.simps simp_thms if_False)
      moreover have "\<not> suffix '' /'' s'" using 1(2) Cons by (auto intro: suffix_ConsI)
      ultimately show ?thesis using 1(1) Cons by simp
    qed
  qed simp
qed

lemma js_split_separated:
  "\<not> suffix '' /'' s \<Longrightarrow> js_split (s @ '' / '' @ rest) '' / '' = js_split s '' / '' @ js_split rest '' / ''"
  unfolding js_split_def by (rule split_at_separated)

lemma split_at_none: "\<not> str_includes rest sep \<Longrightarrow> split_at sep acc rest = [acc @ rest]"
  by (induction rest arbitrary: acc) auto

lemma js_split_none: "\<not> str_includes s sep \<Longrightarrow> js_split s sep = [s]"
  by (simp add: js_split_def split_at_none)

lemma split_at_several: "str_includes s '' / '' \<Longrightarrow> 2 \<le> length (split_at '' / '' acc s)"
proof (induction s arbitrary: acc)
  case (Cons c s)
  have "0 < length (split_at '' / '' acc' t)" for acc' t
    by (induction "'' / ''" acc' t rule: split_at.induct) auto
  then have some: "Suc 0 \<le> length (split_at '' / '' acc' t)" for acc' t by (simp add: Suc_leI)
  from Cons some show ?case by auto
qed simp

lemma str_includes_append: "str_includes t s \<Longrightarrow> str_includes (r @ t) s"
  by (induction r) auto

section \<open>The warning of a late transaction\<close>

text \<open>The text about the posted transaction and the warning, as the handlers print them.\<close>

definition posted_text :: "amount_lib \<Rightarrow> string \<Rightarrow> book \<Rightarrow> string \<Rightarrow> account \<Rightarrow> transaction \<Rightarrow> string" where
  "posted_text A label book from acc tx =
     label @ '': '' @ buildBookAnchor book @ '': '' @ t_date tx @ '' '' @ am_toString A (t_amount tx) @ '' ''
     @ from @ '' '' @ a_name acc @ '' '' @ t_description tx"

definition late_warning :: "account \<Rightarrow> string" where
  "late_warning acc =
     ''WARNING: Transaction date is before the last COGS calculation date. Flagging account ''
     @ a_name acc @ '' for rebuild''"

lemma posted_response_text:
  assumes "checkLastTxDate S acc t w = (Inr late, w')"
  shows "posted_response A S label book from acc tx t w =
    (Inr (Some (if late then posted_text A label book from acc tx @ '' / '' @ late_warning acc
                else posted_text A label book from acc tx)), w')"
  using assms by (simp add: posted_response_def posted_text_def late_warning_def Let_def)

lemma late_warning_marked: "str_includes (late_warning acc) ''WARNING''"
  by (simp add: late_warning_def)

text \<open>What the handler makes of a text with a warning, given its pieces.\<close>

abbreviation answer_of_pieces :: "string list \<Rightarrow> event_result" where
  "answer_of_pieces pieces \<equiv>
     (if str_includes (pieces ! 0) ''ERROR'' then error_of (pieces ! 0)
      else \<lparr>er_result = Some (RList [pieces ! 0]), er_error = None, er_warning = Some (pieces ! 1)\<rparr>)"

lemma interpret_pieces:
  assumes "str_includes s ''WARNING''" and "1 < length (js_split s '' / '')"
  shows "interpret_response (Some s) = answer_of_pieces (js_split s '' / '')"
proof -
  have "s \<noteq> []" using assms(1) by auto
  with assms show ?thesis by (simp add: interpret_response_def truthy_def Let_def)
qed

text \<open>
  C35. What becomes of the warning of a late transaction. When the transaction that was
  just posted flags its account, the handler joins the text about the transaction and the
  warning with \<^verbatim>\<open> / \<close> to one string, which is taken apart again. If the text has no \<^verbatim>\<open> / \<close>
  and no \<^verbatim>\<open>ERROR\<close>, the user gets exactly the text as the result and the warning as the
  warning. If the text (for instance the description the user wrote) has a \<^verbatim>\<open> / \<close>, the
  warning is lost: the result is what stands before the first \<^verbatim>\<open> / \<close> and the warning what
  stands before the next. If the first piece has \<^verbatim>\<open>ERROR\<close>, the answer is an error without a
  warning, although the transaction was posted. This is for accounts whose name has no
  separator and texts that do not end in \<^verbatim>\<open> /\<close>.
\<close>

theorem late_posting_warns:
  assumes "checkLastTxDate S acc t w = (Inr True, w')"
    and "\<not> str_includes (late_warning acc) '' / ''"
    and "\<not> suffix '' /'' (posted_text A label book from acc tx)"
  shows "\<exists>response. posted_response A S label book from acc tx t w = (Inr (Some response), w')
     \<and> interpret_response (Some response) =
         (if str_includes (posted_text A label book from acc tx) '' / ''
          then answer_of_pieces (js_split (posted_text A label book from acc tx) '' / '')
          else if str_includes (posted_text A label book from acc tx) ''ERROR''
          then error_of (posted_text A label book from acc tx)
          else \<lparr>er_result = Some (RList [posted_text A label book from acc tx]), er_error = None,
                er_warning = Some (late_warning acc)\<rparr>)"
proof -
  let ?text = "posted_text A label book from acc tx"
  let ?r = "?text @ '' / '' @ late_warning acc"
  have pieces: "js_split ?r '' / '' = js_split ?text '' / '' @ [late_warning acc]"
    by (simp only: js_split_separated [OF assms(3)] js_split_none [OF assms(2)])
  have "str_includes ?r ''WARNING''" by (intro str_includes_append late_warning_marked)
  moreover have "js_split ?text '' / '' \<noteq> []"
  proof (cases "str_includes ?text '' / ''")
    case True
    from split_at_several [OF this, of "[]"] have "js_split ?text '' / '' = [] \<Longrightarrow> False" by (simp add: js_split_def)
    then show ?thesis by blast
  qed (simp add: js_split_none)
  then have "1 < length (js_split ?r '' / '')" unfolding pieces by simp
  ultimately have answer: "interpret_response (Some ?r) = answer_of_pieces (js_split ?text '' / '' @ [late_warning acc])"
    using interpret_pieces pieces by simp
  have "answer_of_pieces (js_split ?text '' / '' @ [late_warning acc]) =
      (if str_includes ?text '' / '' then answer_of_pieces (js_split ?text '' / '')
       else if str_includes ?text ''ERROR'' then error_of ?text
       else \<lparr>er_result = Some (RList [?text]), er_error = None, er_warning = Some (late_warning acc)\<rparr>)"
  proof (cases "str_includes ?text '' / ''")
    case True
    then have "2 \<le> length (js_split ?text '' / '')" unfolding js_split_def by (rule split_at_several)
    then have "0 < length (js_split ?text '' / '')" "Suc 0 < length (js_split ?text '' / '')" by linarith+
    with True show ?thesis by (simp add: nth_append)
  next
    case False
    then show ?thesis by (simp add: js_split_none)
  qed
  with posted_response_text [OF assms(1)] answer show ?thesis by simp
qed

definition late_account :: account where
  "late_account = ga_account (setCOGSCalculationDate ''2024-01-31'' (new_GoodAccount widget))"

lemma late_example: "\<exists>w'. checkLastTxDate demo_js late_account purchase_payload w = (Inr True, w')"
proof -
  have "ev_getCOGSCalculationDateValue late_account = Some (Num 20240131)"
    using string_to_number_digits [of "''20240131''"]
    by (simp add: ev_getCOGSCalculationDateValue_def late_account_def setCOGSCalculationDate_def new_GoodAccount_def
        replaceAll_dash_def truthy_def is_digit_def code_unit_def digits_value_def)
  then show ?thesis
    by (simp add: checkLastTxDate_def payload_defs js_le_def flagForRebuild_def demo_js_def bindA_def)
qed

text \<open>The plain description reaches the user with the warning, the one with a slash loses it.\<close>

theorem late_posting_warns_witness:
  "\<exists>r1 r2 w1 w2.
     posted_response (decimal_lib\<lparr>am_toString := (\<lambda>x. ''10'')\<rparr>) demo_js ''BUY'' inventory_book ''Buy''
       late_account (demo_purchase ''p1'' 20240105 10 100) purchase_payload demo_world = (Inr (Some r1), w1)
     \<and> er_warning (interpret_response (Some r1)) = Some (late_warning late_account)
     \<and> posted_response (decimal_lib\<lparr>am_toString := (\<lambda>x. ''10'')\<rparr>) demo_js ''BUY'' inventory_book ''Buy''
         late_account ((demo_purchase ''p1'' 20240105 10 100)\<lparr>t_description := ''red / blue''\<rparr>) purchase_payload demo_world
           = (Inr (Some r2), w2)
     \<and> er_warning (interpret_response (Some r2)) = Some ''blue''"
proof -
  let ?A = "decimal_lib\<lparr>am_toString := (\<lambda>x. ''10'')\<rparr>" and ?t = "demo_purchase ''p1'' 20240105 10 100"
  let ?u = "?t\<lparr>t_description := ''red / blue''\<rparr>"
  let ?text = "posted_text ?A ''BUY'' inventory_book ''Buy'' late_account"
  obtain w' where late: "checkLastTxDate demo_js late_account purchase_payload demo_world = (Inr True, w')"
    using late_example by blast
  have name: "a_name late_account = ''Widget''"
    by (simp add: late_account_def setCOGSCalculationDate_def new_GoodAccount_def widget_def)
  have warning: "\<not> str_includes (late_warning late_account) '' / ''" by (simp add: late_warning_def name)
  note texts = posted_text_def name demo_tx_defs buildBookAnchor_def inventory_book_def demo_book_def
  have ends: "\<not> suffix '' /'' (?text ?t)" "\<not> suffix '' /'' (?text ?u)" by (simp_all add: texts suffix_def)
  have plain: "\<not> str_includes (?text ?t) '' / ''" "\<not> str_includes (?text ?t) ''ERROR''" by (simp_all add: texts)
  have slash: "str_includes (?text ?u) '' / ''" "js_split (?text ?u) '' / '' ! 1 = ''blue''"
    "\<not> str_includes (js_split (?text ?u) '' / '' ! 0) ''ERROR''" by (simp_all add: texts js_split_def)
  from late_posting_warns [OF late warning ends(1)] late_posting_warns [OF late warning ends(2)] plain slash
  show ?thesis by auto
qed

text \<open>
  A description with the word ERROR turns a posted transaction into an error. When the
  transaction was posted and no warning is due, but its description contains \<^verbatim>\<open>ERROR\<close> (and
  the text no \<^verbatim>\<open>WARNING\<close>), the answer is an error, although nothing failed.
\<close>

lemma description_reported_as_error:
  assumes "checkLastTxDate S acc t w = (Inr False, w')"
    and "str_includes (t_description tx) ''ERROR''"
    and "\<not> str_includes (posted_text A label book from acc tx) ''WARNING''"
  shows "\<exists>response. posted_response A S label book from acc tx t w = (Inr (Some response), w')
     \<and> interpret_response (Some response) = error_of response"
proof -
  let ?r = "posted_text A label book from acc tx"
  have err: "str_includes ?r ''ERROR''"
    unfolding posted_text_def by (intro str_includes_append assms(2))
  then have "?r \<noteq> []" by auto
  with err assms(3) have "interpret_response (Some ?r) = error_of ?r"
    by (simp add: interpret_response_def truthy_def Let_def)
  with posted_response_text [OF assms(1)] show ?thesis by simp
qed

lemma description_reported_as_error_witness:
  "\<exists>response w'. posted_response (decimal_lib\<lparr>am_toString := (\<lambda>x. ''10'')\<rparr>) demo_js ''BUY'' inventory_book ''Buy''
       widget ((demo_purchase ''p1'' 20240105 10 100)\<lparr>t_description := ''fixes ERROR 12''\<rparr>) purchase_payload demo_world
         = (Inr (Some response), w')
     \<and> interpret_response (Some response) = error_of response"
proof -
  let ?A = "decimal_lib\<lparr>am_toString := (\<lambda>x. ''10'')\<rparr>"
  let ?t = "(demo_purchase ''p1'' 20240105 10 100)\<lparr>t_description := ''fixes ERROR 12''\<rparr>"
  have ok: "checkLastTxDate demo_js widget purchase_payload demo_world = (Inr False, demo_world)"
    by (simp add: checkLastTxDate_def ev_getCOGSCalculationDateValue_def widget_def truthy_def)
  have "str_includes (t_description ?t) ''ERROR''"
    and "\<not> str_includes (posted_text ?A ''BUY'' inventory_book ''Buy'' widget ?t) ''WARNING''"
    by (simp_all add: posted_text_def demo_tx_defs buildBookAnchor_def inventory_book_def demo_book_def widget_def)
  from description_reported_as_error [OF ok this] show ?thesis by blast
qed

section \<open>Every event is answered\<close>

text \<open>
  An answer is an error alone, or a result that may come with a warning. The only answer
  without either is the warning about a direct posting in the inventory book.
\<close>

definition answer_ok :: "event_result \<Rightarrow> bool" where
  "answer_ok r =
     (if er_error r = None then er_result r \<noteq> None else er_result r = None \<and> er_warning r = None)"

definition posting_warning :: event_result where
  "posting_warning =
     \<lparr>er_result = None, er_error = None,
      er_warning = Some (''You can'' @ [CHR 0x27] @ ''t post directly in the Inventory book. Transaction deleted.'')\<rparr>"

definition answer_to :: "event \<Rightarrow> event_result \<Rightarrow> bool" where
  "answer_to e r =
     (answer_ok r
      \<or> ev_type e = ''TRANSACTION_POSTED'' \<and> ev_isInventoryBook (ev_book e) \<and> r = posting_warning)"

text \<open>Whatever an action returns satisfies \<open>Q\<close>.\<close>

definition returns :: "('w, 'a) action \<Rightarrow> ('a \<Rightarrow> bool) \<Rightarrow> bool" where
  "returns m Q = (\<forall>w x w'. m w = (Inr x, w') \<longrightarrow> Q x)"

named_theorems returns_rules \<open>what actions return, by the structure of the action\<close>

lemma returns_bind [returns_rules]: "(\<And>x. returns (k x) Q) \<Longrightarrow> returns (bindA m k) Q"
  unfolding returns_def by (metis bindA_eq_Inr)

lemma returns_bind_post: "returns m P \<Longrightarrow> (\<And>x. P x \<Longrightarrow> returns (k x) Q) \<Longrightarrow> returns (bindA m k) Q"
  unfolding returns_def by (metis bindA_eq_Inr)

lemma returns_return [returns_rules]: "Q x \<Longrightarrow> returns (returnA x) Q"
  by (simp add: returns_def)

lemma returns_catch [returns_rules]: "returns m Q \<Longrightarrow> (\<And>e. Q (k e)) \<Longrightarrow> returns (catchA m k) Q"
  by (auto simp: returns_def catchA_def split: prod.splits sum.splits)

lemma returns_if [returns_rules]: "(c \<Longrightarrow> returns m Q) \<Longrightarrow> (\<not> c \<Longrightarrow> returns n Q) \<Longrightarrow> returns (if c then m else n) Q"
  by simp

lemma returns_option [returns_rules]:
  "(\<And>y. x = Some y \<Longrightarrow> returns (s y) Q) \<Longrightarrow> (x = None \<Longrightarrow> returns n Q)
   \<Longrightarrow> returns (case x of None \<Rightarrow> n | Some y \<Rightarrow> s y) Q"
  by (cases x) simp_all

lemma answer_ok_simps [simp]: "answer_ok (result_of v)" "answer_ok (error_of m)" "answer_ok (interpret_response r)"
  by (simp_all add: answer_ok_def result_of_def error_of_def interpret_response_def Let_def)

lemma returns_handler [returns_rules]:
  assumes "\<And>b e. returns (intercept b e) answer_ok"
  shows "returns (eh_handleEvent S intercept process e) answer_ok"
  unfolding returns_def
proof (intro allI impI)
  fix w r w'
  assume run: "eh_handleEvent S intercept process e w = (Inr r, w')"
  then obtain r1 w1 where i: "intercept (ev_book e) e w = (Inr r1, w1)"
    unfolding eh_handleEvent_def by (auto simp: bindA_eq_Inr)
  show "answer_ok r"
  proof (cases "value_truthy (er_result r1)")
    case True
    with run i have "r = r1" unfolding eh_handleEvent_def by simp
    with i assms [of "ev_book e" e] show ?thesis unfolding returns_def by blast
  next
    case False
    with run i show ?thesis
      by (auto simp: eh_handleEvent_def catchA_def bindA_def split: option.splits prod.splits sum.splits)
  qed
qed

lemma flagRebuild_answer: "returns (flagRebuild_intercept S b e) answer_ok"
  unfolding flagRebuild_intercept_def Let_def
  by (intro returns_rules answer_ok_simps) (simp add: answer_ok_def)

lemma delete_answers:
  "returns (deleteFinancial_intercept A S b e) answer_ok" "returns (deleteGoods_intercept A S b e) answer_ok"
  unfolding deleteFinancial_intercept_def deleteGoods_intercept_def dg_root_purchase_def
  by (auto intro!: returns_rules split: option.splits prod.splits)

lemma posted_answer:
  "returns (posted_handleEvent S e) (\<lambda>r. answer_ok r \<or> ev_isInventoryBook (ev_book e) \<and> r = posting_warning)"
  unfolding posted_handleEvent_def by (intro returns_rules) (simp_all add: posting_warning_def)

lemma handler_answers:
  "returns (unchecked_handleEvent S e) answer_ok" "returns (checked_handleEvent A S e) answer_ok"
  "returns (deleted_handleEvent A S e) answer_ok"
proof -
  show "returns (unchecked_handleEvent S e) answer_ok"
    unfolding unchecked_handleEvent_def
    by (rule returns_bind_post [OF flagRebuild_answer]) (simp add: returns_return)
  show "returns (checked_handleEvent A S e) answer_ok"
    unfolding checked_handleEvent_def by (intro returns_rules flagRebuild_answer)
  show "returns (deleted_handleEvent A S e) answer_ok"
    unfolding deleted_handleEvent_def by (intro returns_rules delete_answers)
qed

lemma returns_mono: "returns m P \<Longrightarrow> (\<And>x. P x \<Longrightarrow> Q x) \<Longrightarrow> returns m Q"
  unfolding returns_def by blast

lemma dispatch_answer: "returns (index_dispatch A S e) (answer_to e)"
  unfolding index_dispatch_def
  by (intro returns_if) (auto simp: answer_to_def intro: returns_mono [OF posted_answer]
      returns_mono [OF handler_answers(1)] returns_mono [OF handler_answers(2)] returns_mono [OF handler_answers(3)]
      returns_return)

lemma error_answer_ok: "answer_ok (error_answer S err)"
  by (simp add: answer_ok_def error_answer_def)

lemma index_answer: "returns (index_handleEvent A S (Some e)) (answer_to e)"
proof -
  have "returns (bindA (liftR (require TypeError (Some e))) (index_dispatch A S)) (answer_to e)"
    using dispatch_answer [of A S e] unfolding returns_def by (simp add: bindA_def)
  then show ?thesis
    unfolding index_handleEvent_def by (rule returns_catch) (simp add: answer_to_def error_answer_ok)
qed

lemma catchA_returns: "\<exists>r w'. catchA m k w = (Inr r, w')"
  by (auto simp: catchA_def split: prod.splits sum.splits)

section \<open>The account of a purchase\<close>

text \<open>
  Documented behaviour of the library, for the properties \<open>view w i\<close> the platform keeps of
  the account with the identifier \<open>i\<close>: adding an account to a group changes neither its
  identifier nor its properties, updating an account stores the properties of the object,
  and creating accounts and posting transactions leaves the accounts there are alone.
\<close>

definition account_laws :: "'w bkper_js \<Rightarrow> book \<Rightarrow> ('w \<Rightarrow> string \<Rightarrow> properties option) \<Rightarrow> bool" where
  "account_laws S b view =
     ((\<forall>g a. a_properties (js_addGroup S g a) = a_properties a \<and> a_id (js_addGroup S g a) = a_id a)
      \<and> (\<forall>a w u w'. js_updateAccount S a w = (Inr u, w') \<longrightarrow> view w' = (view w)(a_id a \<mapsto> a_properties a))
      \<and> (\<forall>a w r w'. js_createAccount S b a w = (r, w') \<longrightarrow> view w \<subseteq>\<^sub>m view w')
      \<and> (\<forall>t w r w'. js_post S b t w = (r, w') \<longrightarrow> view w \<subseteq>\<^sub>m view w'))"

lemma account_law_rules:
  assumes "account_laws S b view"
  shows "a_properties (js_addGroup S g a) = a_properties a" and "a_id (js_addGroup S g a) = a_id a"
    and "js_updateAccount S a w = (Inr u, w') \<Longrightarrow> view w' = (view w)(a_id a \<mapsto> a_properties a)"
    and "js_createAccount S b a w = (r, w') \<Longrightarrow> view w \<subseteq>\<^sub>m view w'"
    and "js_post S b t w = (r', w') \<Longrightarrow> view w \<subseteq>\<^sub>m view w'"
  using assms unfolding account_laws_def by blast+

lemma add_groups_keeps:
  assumes "account_laws S b view"
  shows "add_groups S b gs (a, True) w = (Inr (a', u), w') \<Longrightarrow> a_properties a' = a_properties a \<and> a_id a' = a_id a \<and> u"
proof (induction gs arbitrary: a w)
  case Nil
  then show ?case by (simp add: add_groups_def)
next
  case (Cons g gs)
  from Cons.prems obtain x c w1 where
    "ensure_group S b g w = (Inr (x, c), w1)" and rest: "add_groups S b gs (js_addGroup S x a, True) w1 = (Inr (a', u), w')"
    by (auto simp: add_groups_def bindA_eq_Inr)
  from Cons.IH [OF rest] show ?case by (simp add: account_law_rules(1,2) [OF assms])
qed

lemma checkInventoryAccount_writes:
  assumes "account_laws S b view" and "js_getAccount S w b (ap_name fin) = Inr (Some a)"
    and "checkInventoryAccount S b fin w = (Inr found, w')"
  shows "view w' (a_id a) = Some (financial_properties fin)"
proof -
  from assms(2,3) obtain account u w1 where
    groups: "add_groups S b (financial_groups fin)
       (a\<lparr>a_properties := financial_properties fin, a_archived := financial_archived fin\<rparr>, True) w = (Inr (account, u), w1)"
    and upd: "(if u then js_updateAccount S account else returnA ()) w1 = (Inr (), w')"
    by (auto simp: checkInventoryAccount_def bindA_eq_Inr Let_def)
  from add_groups_keeps [OF assms(1) groups]
  have "a_properties account = financial_properties fin" and "a_id account = a_id a" and u by simp_all
  with upd account_law_rules(3) [OF assms(1), of account w1 "()" w'] show ?thesis by simp
qed

lemma ensure_account_keeps:
  assumes "account_laws S b view" and "ensure_account S b n ty w = (r, w')"
  shows "view w \<subseteq>\<^sub>m view w'"
  using assms(2) account_law_rules(4) [OF assms(1)]
  by (auto simp: ensure_account_def bindA_def split: sum.splits option.splits)

text \<open>The transaction is not after the calculation date the account was read with.\<close>

definition is_late :: "account \<Rightarrow> transaction_payload \<Rightarrow> bool" where
  "is_late a t =
     (case (ev_getCOGSCalculationDateValue a, tp_dateValue t) of
        (Some lastTxDate, Some d) \<Rightarrow> js_le (Num (of_int d)) lastTxDate
      | _ \<Rightarrow> False)"

lemma checkLastTxDate_writes:
  assumes "account_laws S b view" and "checkLastTxDate S a t w = (Inr late, w')"
  shows "view w' = (if is_late a t then (view w)(a_id a \<mapsto> (a_properties a)(NEEDS_REBUILD_PROP \<mapsto> ''TRUE'')) else view w)"
  using assms(2) account_law_rules(3) [OF assms(1)]
  by (fastforce simp: checkLastTxDate_def is_late_def flagForRebuild_def set_account_prop_def bindA_eq_Inr
      split: option.splits if_splits)

lemma checked_buy_writes:
  assumes laws: "account_laws S b view" and known: "js_getAccount S w b (ap_name fin) = Inr (Some a)"
    and "checked_buy A S b t fin q exc w = (Inr response, w')"
  shows "view w' (a_id a) =
    Some (if is_late a t then (a_properties a)(NEEDS_REBUILD_PROP \<mapsto> ''TRUE'') else financial_properties fin)"
proof -
  from assms(3) known obtain found w1 buy w2 cost tx w3 where
    check: "checkInventoryAccount S b fin w = (Inr found, w1)"
    and ensured: "ensure_account S b GOOD_BUY_ACCOUNT_NAME INCOMING w1 = (Inr buy, w2)"
    and posted: "js_post S b (purchase_transaction A t q buy a exc cost) w2 = (Inr tx, w3)"
    and answered: "posted_response A S ''BUY'' b (a_name buy) a tx t w3 = (Inr response, w')"
    by (auto simp: checked_buy_def bindA_eq_Inr)
  from answered obtain late where last: "checkLastTxDate S a t w3 = (Inr late, w')"
    by (auto simp: posted_response_def bindA_eq_Inr Let_def)
  have "view w1 (a_id a) = Some (financial_properties fin)"
    by (rule checkInventoryAccount_writes [OF laws known check])
  moreover have "view w1 \<subseteq>\<^sub>m view w3"
    by (rule map_le_trans [OF ensure_account_keeps [OF laws ensured] account_law_rules(5) [OF laws posted]])
  ultimately have "view w3 (a_id a) = Some (financial_properties fin)"
    by (metis domI map_le_def)
  with checkLastTxDate_writes [OF laws last] show ?thesis by simp
qed

text \<open>
  C34. A purchase erases what the calculation keeps on its account. When the handler
  replicates a purchase of a good the inventory book has and the account was read with a
  calculation date before the purchase, or without one, the account is left with the
  properties of the account in the financial book and no others: if these have neither a
  calculation date nor a rebuild flag, both are gone, so that a flagged account is no
  longer rebuilt. A purchase that is not after the calculation date writes the account
  back as it was read, with the rebuild flag set.
\<close>

theorem purchase_erases_calculation_state:
  assumes "account_laws S b view" and "js_getAccount S w b (ap_name fin) = Inr (Some a)"
    and "tp_debitAccount t = Some fin" and "\<not> truthy (tp_prop t SALE_INVOICE_PROP)"
    and "truthy (tp_prop t PURCHASE_INVOICE_PROP)"
    and "checked_notFound A S b t exc w = (Inr (Some response), w')"
  shows "view w' (a_id a) =
    Some (if is_late a t then (a_properties a)(NEEDS_REBUILD_PROP \<mapsto> ''TRUE'') else financial_properties fin)"
proof -
  from assms(3-6) obtain q where "checked_buy A S b t fin q exc w = (Inr (Some response), w')"
    by (auto simp: checked_notFound_def bindA_eq_Inr tp_prop_def split: option.splits if_splits)
  then show ?thesis by (rule checked_buy_writes [OF assms(1,2)])
qed

text \<open>A service that keeps the accounts it is given, newest first, and a flagged account.\<close>

definition keeping_js :: "demo bkper_js" where
  "keeping_js = demo_js\<lparr>js_updateAccount := \<lambda>a w.
     (Inr (), w\<lparr>d_accounts := \<lambda>i. if i = ''inv'' then a # d_accounts w ''inv'' else d_accounts w i\<rparr>)\<rparr>"

definition kept_properties :: "demo \<Rightarrow> string \<Rightarrow> properties option" where
  "kept_properties w i = map_option a_properties (List.find (\<lambda>a. a_id a = i) (d_accounts w ''inv''))"

lemma keeping_laws: "account_laws keeping_js b kept_properties"
  unfolding account_laws_def
proof (intro conjI allI impI)
  show "a_properties (js_addGroup keeping_js g a) = a_properties a" "a_id (js_addGroup keeping_js g a) = a_id a" for g a
    by (simp_all add: keeping_js_def demo_js_def)
  show "kept_properties w' = (kept_properties w)(a_id a \<mapsto> a_properties a)"
    if "js_updateAccount keeping_js a w = (Inr u, w')" for a w u w'
    using that by (auto simp: keeping_js_def kept_properties_def)
  show "kept_properties w \<subseteq>\<^sub>m kept_properties w'" if "js_createAccount keeping_js b a w = (r, w')" for a w r w'
    using that by (auto simp: keeping_js_def demo_js_def kept_properties_def log_call_def map_le_def find_append
        split: option.splits)
  show "kept_properties w \<subseteq>\<^sub>m kept_properties w'" if "js_post keeping_js b t w = (r, w')" for t w r w'
    using that by (auto simp: keeping_js_def demo_js_def kept_properties_def log_call_def map_le_def Let_def)
qed

definition flagged_demo :: demo where
  "flagged_demo = demo_world\<lparr>d_accounts := (\<lambda>b. [ga_account (flagNeedsRebuild (new_GoodAccount widget)), buy_account])\<rparr>"

theorem purchase_erases_calculation_state_witness:
  "kept_properties flagged_demo ''w'' = Some [NEEDS_REBUILD_PROP \<mapsto> ''TRUE'']
   \<and> kept_properties (snd (checked_notFound decimal_lib keeping_js inventory_book purchase_payload (Some ''USD'')
        flagged_demo)) ''w'' = Some Map.empty"
proof
  let ?a = "ga_account (flagNeedsRebuild (new_GoodAccount widget))"
  show "kept_properties flagged_demo ''w'' = Some [NEEDS_REBUILD_PROP \<mapsto> ''TRUE'']"
    by (simp add: kept_properties_def flagged_demo_def flagNeedsRebuild_def new_GoodAccount_def
        set_account_prop_def widget_def)
  have a: "a_id ?a = ''w''" and calm: "\<not> is_late ?a purchase_payload"
    by (simp_all add: flagNeedsRebuild_def new_GoodAccount_def set_account_prop_def widget_def is_late_def
        ev_getCOGSCalculationDateValue_def truthy_def)
  have found: "js_getAccount keeping_js flagged_demo inventory_book (ap_name widget_payload) = Inr (Some ?a)"
    by (simp add: keeping_js_def demo_js_def flagged_demo_def widget_payload_def inventory_book_def demo_book_def
        reserve_def flagNeedsRebuild_def new_GoodAccount_def set_account_prop_def widget_def)
  have kind: "tp_debitAccount purchase_payload = Some widget_payload"
    "\<not> truthy (tp_prop purchase_payload SALE_INVOICE_PROP)" "truthy (tp_prop purchase_payload PURCHASE_INVOICE_PROP)"
    by (simp_all add: payload_defs tp_prop_def truthy_def)
  have "\<exists>response w'. checked_notFound decimal_lib keeping_js inventory_book purchase_payload (Some ''USD'') flagged_demo
      = (Inr (Some response), w')"
    by (simp add: checked_notFound_complete [OF demo_complete(1)])
      (simp add: handler_defs payload_defs tp_prop_def keeping_js_def demo_js_def reserve_def demo_defs decimal_lib_def
        flagged_demo_def flagNeedsRebuild_def new_GoodAccount_def set_account_prop_def)
  then obtain response w' where run: "checked_notFound decimal_lib keeping_js inventory_book purchase_payload
      (Some ''USD'') flagged_demo = (Inr (Some response), w')" by blast
  from purchase_erases_calculation_state [OF keeping_laws found kind run]
  show "kept_properties (snd (checked_notFound decimal_lib keeping_js inventory_book purchase_payload (Some ''USD'')
      flagged_demo)) ''w'' = Some Map.empty"
    by (simp add: a calm run financial_properties_def widget_payload_def)
qed

end
