(* ===== verification/HttpAnswers.thy ===== *)
theory HttpAnswers
  imports EventAnswers Json
begin

text \<open>
  The request handler of the events service (\<^verbatim>\<open>src/events/src/index.ts\<close>, \<^verbatim>\<open>AppContext.ts\<close>):
  the context built from the environment and the headers, the body of the request, and the
  text of the answer. The HTTP framework hands over the parsed body, if there is one, and
  the library object is made from the token of the request and the key of the environment.
\<close>

section \<open>AppContext\<close>

text \<open>The request-scoped store of the framework, and the context that delegates to it.\<close>

record ('c, 'v) http_context =
  hc_get :: "'c \<Rightarrow> string \<Rightarrow> 'v"
  hc_set :: "string \<Rightarrow> 'v \<Rightarrow> 'c \<Rightarrow> 'c"

record ('c, 'v, 'w) app_context =
  ac_httpContext :: "('c, 'v) http_context"
  ac_bkper :: "'w bkper_js"

definition new_AppContext :: "('c, 'v) http_context \<Rightarrow> 'w bkper_js \<Rightarrow> ('c, 'v, 'w) app_context" where
  "new_AppContext httpContext bkper = \<lparr>ac_httpContext = httpContext, ac_bkper = bkper\<rparr>"

definition ac_get :: "('c, 'v, 'w) app_context \<Rightarrow> 'c \<Rightarrow> string \<Rightarrow> 'v" where
  "ac_get context c k = hc_get (ac_httpContext context) c k"

definition ac_set :: "('c, 'v, 'w) app_context \<Rightarrow> string \<Rightarrow> 'v \<Rightarrow> 'c \<Rightarrow> 'c" where
  "ac_set context k v c = hc_set (ac_httpContext context) k v c"

section \<open>The text of an answer\<close>

text \<open>\<^verbatim>\<open>JSON.stringify (result, null, 4)\<close>: members at one level, the elements of a list below.\<close>

abbreviation newline :: char where "newline \<equiv> CHR 0x0A"

definition indent :: "nat \<Rightarrow> string" where
  "indent n = newline # replicate (4 * n) (CHR '' '')"

definition json_value :: "result_value \<Rightarrow> string" where
  "json_value v =
     (case v of
        RBool b \<Rightarrow> (if b then ''true'' else ''false'')
      | RText s \<Rightarrow> json_string s
      | RList [] \<Rightarrow> ''[]''
      | RList xs \<Rightarrow> ''['' @ indent 2 @ join_with ('','' @ indent 2) (map json_string xs) @ indent 1 @ '']'')"

text \<open>
  The members that are defined, in the order of the object literal: the rebuild
  interceptor, whose result is a text, writes the warning first.
\<close>

definition result_members :: "event_result \<Rightarrow> (string \<times> result_value) list" where
  "result_members r =
     (let opt = (\<lambda>k v. case v of None \<Rightarrow> [] | Some x \<Rightarrow> [(k, x)]);
          res = opt ''result'' (er_result r);
          err = opt ''error'' (er_error r);
          warn = opt ''warning'' (map_option RText (er_warning r))
      in case er_result r of
           Some (RText _) \<Rightarrow> warn @ res @ err
         | _ \<Rightarrow> res @ err @ warn)"

definition json_member :: "string \<times> result_value \<Rightarrow> string" where
  "json_member m = json_string (fst m) @ '': '' @ json_value (snd m)"

definition index_response :: "event_result \<Rightarrow> string" where
  "index_response r =
     (case result_members r of
        [] \<Rightarrow> ''{}''
      | ms \<Rightarrow> ''{'' @ indent 1 @ join_with ('','' @ indent 1) (map json_member ms) @ indent 0 @ ''}'')"

section \<open>The request handler\<close>

record http_request =
  rq_token :: "string option"
  rq_body :: "event option"

record http_response =
  rs_contentType :: string
  rs_body :: string

definition json_response :: "string \<Rightarrow> http_response" where
  "json_response body = \<lparr>rs_contentType = ''application/json'', rs_body = body\<rparr>"

text \<open>A missing key raises; the library object gets the token and the key.\<close>

definition index_init ::
    "(string option \<Rightarrow> string \<Rightarrow> 'w bkper_js) \<Rightarrow> ('c, 'v) http_context \<Rightarrow> string option \<Rightarrow> http_request
     \<Rightarrow> ('c, 'v, 'w) app_context result" where
  "index_init new_Bkper httpContext apiKey req =
     (if truthy apiKey
      then Inr (new_AppContext httpContext (new_Bkper (rq_token req) (the apiKey)))
      else Inl (Thrown ''BKPER_API_KEY environment variable is required''))"

text \<open>
  The handler: \<open>init\<close> is outside the \<^verbatim>\<open>try\<close>, so its exception rejects the promise and nothing
  is sent.
\<close>

definition handle_request ::
    "amount_lib \<Rightarrow> (string option \<Rightarrow> string \<Rightarrow> 'w bkper_js) \<Rightarrow> ('c, 'v) http_context \<Rightarrow> string option
     \<Rightarrow> http_request \<Rightarrow> ('w, http_response) action" where
  "handle_request A new_Bkper httpContext apiKey req =
     bindA (liftR (index_init new_Bkper httpContext apiKey req)) (\<lambda>context.
       bindA (index_handleEvent A (ac_bkper context) (rq_body req)) (\<lambda>result.
         returnA (json_response (index_response result))))"

lemma index_init_cases:
  "truthy apiKey \<Longrightarrow> index_init new_Bkper hc apiKey req = Inr (new_AppContext hc (new_Bkper (rq_token req) (the apiKey)))"
  "\<not> truthy apiKey \<Longrightarrow> index_init new_Bkper hc apiKey req = Inl (Thrown ''BKPER_API_KEY environment variable is required'')"
  by (simp_all add: index_init_def)

text \<open>
  C32. Every request is answered. With the key of the API in the environment, every request
  is answered, exceptions of the handlers and of the library and a missing body included:
  the answer is an error alone, or a result with or without a warning. The one exception
  is the posting in the inventory book, which may be answered by a warning alone. An event
  of another type is answered with false and changes nothing. Without the key the handler
  raises before anything else, outside the clause that turns exceptions into answers.
\<close>

theorem every_request_answered:
  "\<exists>r w'. handle_request A new_Bkper hc apiKey req w =
       (if truthy apiKey then (Inr (json_response (index_response r)), w')
        else (Inl (Thrown ''BKPER_API_KEY environment variable is required''), w))
     \<and> (case rq_body req of
          None \<Rightarrow> r = error_answer (new_Bkper (rq_token req) (the apiKey)) TypeError \<and> answer_ok r \<and> w' = w
        | Some e \<Rightarrow>
            answer_to e r
            \<and> (ev_type e \<in> {''TRANSACTION_POSTED'', ''TRANSACTION_CHECKED'', ''TRANSACTION_UNCHECKED'', ''TRANSACTION_DELETED''}
               \<or> r = result_of (RBool False) \<and> w' = w))"
proof -
  let ?S = "new_Bkper (rq_token req) (the apiKey)"
  have "\<exists>r w'. index_handleEvent A ?S (rq_body req) w = (Inr r, w')"
    unfolding index_handleEvent_def by (rule catchA_returns)
  then obtain r w' where run: "index_handleEvent A ?S (rq_body req) w = (Inr r, w')" by blast
  have "handle_request A new_Bkper hc apiKey req w =
       (if truthy apiKey then (Inr (json_response (index_response r)), w')
        else (Inl (Thrown ''BKPER_API_KEY environment variable is required''), w))"
    by (simp add: handle_request_def index_init_cases new_AppContext_def run)
  moreover have "case rq_body req of
          None \<Rightarrow> r = error_answer ?S TypeError \<and> answer_ok r \<and> w' = w
        | Some e \<Rightarrow>
            answer_to e r
            \<and> (ev_type e \<in> {''TRANSACTION_POSTED'', ''TRANSACTION_CHECKED'', ''TRANSACTION_UNCHECKED'', ''TRANSACTION_DELETED''}
               \<or> r = result_of (RBool False) \<and> w' = w)"
  proof (cases "rq_body req")
    case None
    with run show ?thesis by (auto simp: index_handleEvent_def catchA_def error_answer_ok)
  next
    case (Some e)
    with run index_answer [of A ?S e] have "answer_to e r" unfolding returns_def by auto
    with Some run show ?thesis by (auto simp: index_handleEvent_def index_dispatch_def catchA_def)
  qed
  ultimately show ?thesis by blast
qed

section \<open>The text tells the answers apart\<close>

lemma json_value_simps [simp]:
  "json_value (RBool True) = ''true''" "json_value (RBool False) = ''false''"
  "json_value (RText s) = json_string s" "json_value (RList []) = ''[]''"
  by (simp_all add: json_value_def)

lemma json_value_list: "xs \<noteq> [] \<Longrightarrow> json_value (RList xs) =
    ''['' @ indent 2 @ join_with ('','' @ indent 2) (map json_string xs) @ newline # replicate 4 (CHR '' '') @ '']''"
  by (cases xs) (simp_all add: json_value_def indent_def)

lemma indent_cancel [simp]: "indent n @ x = indent n @ y \<longleftrightarrow> x = y"
  by simp

lemma json_list_cancel:
  "json_value (RList xs) @ x = json_value (RList ys) @ y \<longleftrightarrow> xs = ys \<and> x = y"
proof -
  have "json_value (RList zs) @ z \<noteq> ''[]'' @ z'" if "zs \<noteq> []" for zs z z'
    using that by (simp add: json_value_list) (simp add: indent_def)
  note start = this
  consider "xs = []" "ys = []" | "xs = []" "ys \<noteq> []" | "xs \<noteq> []" "ys = []" | "xs \<noteq> []" "ys \<noteq> []" by blast
  then show ?thesis
  proof cases
    case 2
    then show ?thesis using start [OF 2(2), of y x] by (metis json_value_simps(4))
  next
    case 3
    then show ?thesis using start [OF 3(1), of x y] by (metis json_value_simps(4))
  next
    case 4
    then show ?thesis
      using json_str.join_cancel [of "CHR '',''" newline xs ys "indent 2"]
      by (simp add: json_value_list)
  qed simp
qed

lemma json_value_cancel: "json_value v @ x = json_value v' @ y \<longleftrightarrow> v = v' \<and> x = y"
proof -
  have start: "hd (json_value (RBool b) @ z) = (if b then CHR ''t'' else CHR ''f'')" "hd (json_value (RText s) @ z) = CHR 0x22"
    "hd (json_value (RList xs) @ z) = CHR ''[''" for b s xs z
    by (simp_all add: json_value_def json_string_start split: list.splits)
  show ?thesis
  proof (cases v; cases v')
    fix b b' assume "v = RBool b" "v' = RBool b'"
    then show ?thesis by (cases b; cases b') simp_all
  next
    fix s s' assume "v = RText s" "v' = RText s'"
    then show ?thesis by (simp add: json_str.cancel)
  next
    fix xs xs' assume "v = RList xs" "v' = RList xs'"
    then show ?thesis by (simp add: json_list_cancel)
  qed (auto dest!: arg_cong [of _ _ hd] simp: start split: if_splits simp del: json_value_simps)
qed

interpretation json_val: prefix_code json_value
  by unfold_locales (rule json_value_cancel)

interpretation json_mem: prefix_code json_member
proof
  fix m m' :: "string \<times> result_value" and x y
  show "json_member m @ x = json_member m' @ y \<longleftrightarrow> m = m' \<and> x = y"
    by (cases m; cases m') (simp add: json_member_def json_str.cancel json_value_cancel conj_assoc)
qed

lemma members_of:
  "map_of (result_members r) ''result'' = er_result r" "map_of (result_members r) ''error'' = er_error r"
  "map_of (result_members r) ''warning'' = map_option RText (er_warning r)"
  by (auto simp: result_members_def Let_def split: option.splits result_value.splits)

lemma result_members_inject: "result_members r = result_members r' \<longleftrightarrow> r = r'"
proof
  assume eq: "result_members r = result_members r'"
  have "er_result r = er_result r'" "er_error r = er_error r'"
    "map_option RText (er_warning r) = map_option RText (er_warning r')"
    using members_of [of r] members_of [of r'] by (simp_all add: eq)
  moreover from this(3) have "er_warning r = er_warning r'" by (cases "er_warning r"; cases "er_warning r'") simp_all
  ultimately show "r = r'" by simp
qed simp

text \<open>
  C33. The text of an answer tells the answers apart. The body the service sends determines
  the result, the error and the warning it was made from, whatever characters they
  contain.
\<close>

theorem answers_told_apart: "index_response r = index_response r' \<longleftrightarrow> r = r'"
proof
  assume eq: "index_response r = index_response r'"
  have body: "index_response r = ''{'' @ indent 1 @ join_with ('','' @ indent 1) (map json_member (result_members r))
      @ newline # ''}''" if "result_members r \<noteq> []" for r
    using that by (cases "result_members r") (simp_all add: index_response_def indent_def)
  have none: "index_response r = ''{}''" if "result_members r = []" for r
    using that by (simp add: index_response_def)
  have differ: "index_response r \<noteq> ''{}''" if "result_members r \<noteq> []" for r
    using body [OF that] by (simp add: indent_def)
  have "result_members r = result_members r'"
  proof (cases "result_members r = [] \<or> result_members r' = []")
    case True
    with eq none differ show ?thesis by metis
  next
    case False
    then show ?thesis
      using eq json_mem.join_inject [of "result_members r" "result_members r'" "CHR '',''" "indent 1"]
      by (simp add: body)
  qed
  then show "r = r'" by (simp only: result_members_inject)
qed simp

end
