(* ===== verification/Spec2Isabelle.thy ===== *)
theory Spec2Isabelle
  imports MenuProperties RebuildLock CalculateOutcome CalculateAgain AuditLogs HttpAnswers
begin

text \<open>
  Verification of the Bkper Inventory Bot, which keeps an inventory book beside the
  financial books of a Bkper collection and computes the cost of goods sold by the FIFO
  method.

  \<^bold>\<open>The program.\<close> Two packages share the inventory book. The events package
  (\<^verbatim>\<open>events/src\<close>) is a webhook: \<^verbatim>\<open>index.ts\<close> dispatches an event to a handler, and the
  handlers replicate checked purchases, sales and credit notes in the inventory book, undo
  what users post there, cascade deletions and flag accounts for a rebuild. The menu
  package (\<^verbatim>\<open>menu/server/src\<close>, \<^verbatim>\<open>menu/client/src\<close>) is a dialog whose server functions
  calculate the cost of sales of accounts or reset them. The packages meet in the
  properties of the transactions (purchase code, original quantity, total cost, logs) and
  of the accounts (calculation date, rebuild flag).

  \<^bold>\<open>Parameters.\<close> What is not in the sources is an argument of the definitions: the Bkper
  service of the menu (record \<open>bkper_app\<close> in \<open>Bkper\<close>), the bkper-js library of the events
  (record \<open>bkper_js\<close> in \<open>EventsService\<close>), both over an abstract state \<open>'w\<close> of the platform,
  and the parts of the Amount class that are not exact arithmetic (record \<open>amount_lib\<close> in
  \<open>Amount\<close>). The laws the properties rely on are named predicates: \<open>amount_laws\<close>,
  \<open>number_laws\<close>, \<open>account_creation_frame\<close>, \<open>locks_stable\<close>, \<open>dated\<close>, and for the events
  \<open>posts_as_given\<close>, \<open>creates_as_given\<close>, \<open>reserved_account\<close>, \<open>trash_laws\<close>,
  \<open>account_laws\<close>. \<open>DecimalLibrary\<close>, \<open>DemoService\<close> and \<open>DemoEvents\<close> are executable
  instances on which the witnesses run.

  \<^bold>\<open>Foundations.\<close> \<open>Prelude\<close>: exceptions as a sum, actions on the platform, loops that stop
  at an exception, the insertion-ordered Map with its interface \<open>ordered_map\<close>.
  \<open>JavaScript\<close>: binary64 numbers with rounding to nearest even, string methods, conversions,
  JSON of strings, the stable sort with its interface \<open>keyed_comparison\<close>. \<open>Json\<close>: texts that
  determine what was written, with the interface \<open>prefix_code\<close>. \<open>Doubles\<close>: the
  binary logarithm of the rounding is the true one, so that nearest doubles can be
  computed.

  \<^bold>\<open>The menu server.\<close> \<open>Helper\<close> (\<^verbatim>\<open>helper.ts\<close>), \<open>Summary\<close> (\<^verbatim>\<open>Summary.ts\<close>), \<open>GoodAccount\<close>
  (\<^verbatim>\<open>GoodAccount.ts\<close>, interface \<open>rebuild_flag\<close>), \<open>MenuBotService\<close> (\<^verbatim>\<open>BotService.ts\<close>),
  \<open>BatchProcessor\<close> (both processors, interface \<open>lock_guard\<close>), \<open>ResetService\<close>
  (\<^verbatim>\<open>ResetCostOfSalesService.ts\<close>), \<open>CalculateService\<close>
  (\<^verbatim>\<open>CalculateCostOfSalesService.ts\<close>), \<open>MenuBot\<close> (\<^verbatim>\<open>Bot.ts\<close>, \<^verbatim>\<open>BotViewService.ts\<close>), and
  \<open>BotView\<close>, the dialog of \<^verbatim>\<open>BotViewScript.ts\<close> as a state machine over the server calls
  under way. Transactions read from the service are shared objects: a store maps
  references to them, and the collections of a run hold references.

  \<^bold>\<open>The events package.\<close> \<open>EventsService\<close> (payloads, \<^verbatim>\<open>BotService.ts\<close>), \<open>EventHandlers\<close>
  (\<^verbatim>\<open>EventHandler.ts\<close>, \<^verbatim>\<open>EventHandlerTransaction.ts\<close> and the handlers that create nothing),
  \<open>CheckedHandler\<close> (\<^verbatim>\<open>EventHandlerTransactionChecked.ts\<close>), \<open>DeleteHandlers\<close> (the deletion
  interceptors, their handler, the dispatch of \<^verbatim>\<open>index.ts\<close>), \<open>HttpAnswers\<close> (the request handler
  of \<^verbatim>\<open>index.ts\<close> with the text of its answers, \<^verbatim>\<open>AppContext.ts\<close>).

  \<^bold>\<open>What is shown.\<close> \<open>FifoSpec\<close> is the abstract specification: a stock of layers of quantity
  and cost, issued oldest first. \<open>FifoRefinement\<close> shows that the loops over purchases and
  sales implement it. \<open>CalculateProperties\<close> states this per sale and per run, with the
  conservation of value; \<open>RunInvariant\<close> is the contract of an invariant of a run (interface
  \<open>run_invariant\<close>), with the lock note (\<open>CalculateLocks\<close>), the keys of the batches, the
  absence of new open sales (\<open>CalculateAgain\<close>) and the origin of the created parts
  (\<open>ResetRoundTrip\<close>) as instances; \<open>CalculateRun\<close> defines the run of a call as a
  function of its inputs (\<open>fired\<close>: the store, the processor, the sales and the platform just
  before the batches are sent, to which the properties of a call tie what they state) and
  shows that a call writes everything, or nothing but the missing cost of sales account,
  and sends no locked transaction; \<open>CalculateCollect\<close> is about the collections of a
  call and their order, which is that of every stable sort; \<open>CalculateEndToEnd\<close> takes the
  refinement to the whole service, returned goods included.
  \<open>CalculateAgain\<close> shows that a second call finds nothing to do, \<open>AuditLogs\<close> that the log of a
  sale accounts for its quantity.
  \<open>StockCheck\<close> is about the totals in floating point, exact or off, \<open>CreditNotes\<close> about returned goods,
  \<open>CalculateOutcome\<close> about what a run leaves behind. \<open>ResetProperties\<close> shows what a reset makes of each
  transaction and that it respects locks, \<open>ResetRoundTrip\<close> that it undoes a calculation, in
  the batches it sends to both books, \<open>RebuildLock\<close> how the calculation of a flagged account
  answers when its reset meets a lock. \<open>EventsProperties\<close> and \<open>EventAnswers\<close> cover replication, flags,
  deletions and the answers of the webhook; \<open>MenuProperties\<close> the dialog and the accounts an
  operation runs on. Properties that state an unwanted behaviour (a tag that is never
  found, a dialog that stays disabled, a rebuild flag that is erased) describe the code as
  it is.

  \<^bold>\<open>Bounds.\<close> No definition uses fuel: all loops run over finite lists, and the remaining
  recursions (binary digits, decimal digits, splitting of strings) have termination
  proofs. Order numbers and date values are assumed to be integers of less than 52 bits,
  quantities in \<open>StockCheck\<close>, \<open>CreditNotes\<close> and, where goods are returned, in
  \<open>CalculateEndToEnd\<close> whole numbers of at most 53 bits, because
  doubles are exact there.

  \<^bold>\<open>Not modelled.\<close> The registration of the request handler with express and the loading of
  the environment; \<^verbatim>\<open>GoogleURLLocationInterface.ts\<close>, type declarations of the host; console
  output; the markup and style of the dialog; \<^verbatim>\<open>webhook.js\<close>, which registers a development
  tunnel. Concurrency of several dialogs or events on one book is not modelled: an operation
  sees a platform that only it changes.
\<close>

end
